theory Spec2Isabelle
  imports Complex_Main
begin

section \<open>Code Map: pan and zoom of the canvas\<close>

text \<open>
  The Code Map component keeps its view in a mutable object
  \<^verbatim>\<open>state.current = { ..., pan: { x, y }, zoom, ... }\<close>.
  Coordinates are JavaScript numbers; they are modelled as real numbers, so the
  statements below are about exact arithmetic and not about rounding.
\<close>

record view =
  pan_x :: real
  pan_y :: real
  zoom :: real

text \<open>The part of a DOM rectangle and of a wheel event that \<^verbatim>\<open>onWheel\<close> reads.\<close>

record rect =
  rect_left :: real
  rect_top :: real

record wheel_event =
  clientX :: real
  clientY :: real
  deltaY :: real

definition zoomMin :: real where
  "zoomMin = 0.2"

definition zoomMax :: real where
  "zoomMax = 4"

text \<open>
  \<^verbatim>\<open>onWheel\<close> of the Code Map. \<^verbatim>\<open>canvasRef.current?.getBoundingClientRect()\<close> is
  absent when the canvas is not mounted; the handler then returns without a change.
\<close>

definition onWheel :: "rect option \<Rightarrow> wheel_event \<Rightarrow> view \<Rightarrow> view" where
  "onWheel r e s =
     (case r of
        None \<Rightarrow> s
      | Some r \<Rightarrow>
          (let mx = clientX e - rect_left r;
               my = clientY e - rect_top r;
               oz = zoom s;
               z = max zoomMin (min zoomMax (zoom s * (if deltaY e > 0 then 0.9 else 1.1)))
           in s\<lparr>zoom := z,
                pan_x := mx - (mx - pan_x s) * (z / oz),
                pan_y := my - (my - pan_y s) * (z / oz)\<rparr>))"

text \<open>
  The render loop draws under \<^verbatim>\<open>ctx.translate(pan.x, pan.y); ctx.scale(zoom, zoom)\<close>,
  and the pointer handlers undo that transform with
  \<^verbatim>\<open>(e.clientX - r.left - s.pan.x) / s.zoom\<close>.
\<close>

definition toScreen :: "view \<Rightarrow> real \<times> real \<Rightarrow> real \<times> real" where
  "toScreen s w = (fst w * zoom s + pan_x s, snd w * zoom s + pan_y s)"

definition toWorld :: "view \<Rightarrow> real \<times> real \<Rightarrow> real \<times> real" where
  "toWorld s p = ((fst p - pan_x s) / zoom s, (snd p - pan_y s) / zoom s)"

definition cursor :: "rect \<Rightarrow> wheel_event \<Rightarrow> real \<times> real" where
  "cursor r e = (clientX e - rect_left r, clientY e - rect_top r)"

section \<open>Visualizer: the speed slider\<close>

text \<open>
  The slider is \<^verbatim>\<open><input type="range" min="200" max="2000" step="100"
  value={2200 - speed} onChange={e => setSpeed(2200 - +e.target.value)} />\<close>.
  A range input only reports values on its grid between its bounds.
\<close>

definition sliderMin :: int where
  "sliderMin = 200"

definition sliderMax :: int where
  "sliderMax = 2000"

definition sliderStep :: int where
  "sliderStep = 100"

definition sliderAccepts :: "int \<Rightarrow> bool" where
  "sliderAccepts v = (sliderMin \<le> v \<and> v \<le> sliderMax \<and> (v - sliderMin) mod sliderStep = 0)"

text \<open>The new value of \<^verbatim>\<open>speed\<close> (the delay of the play loop, in ms) on a change event.\<close>

definition onSpeedChange :: "int \<Rightarrow> int" where
  "onSpeedChange v = 2200 - v"

text \<open>The slider position shown for a stored \<^verbatim>\<open>speed\<close>.\<close>

definition sliderValue :: "int \<Rightarrow> int" where
  "sliderValue speed = 2200 - speed"

section \<open>Code Map: building the graph\<close>

text \<open>
  The analysis result handed to \<^verbatim>\<open>forceLayout(graph, W, H)\<close>. The builder reads
  \<^verbatim>\<open>graph?.modules\<close>, \<^verbatim>\<open>graph.edges || []\<close>, and of a module \<^verbatim>\<open>mod.module\<close> (its path),
  \<^verbatim>\<open>(mod.functions || [])\<close> and \<^verbatim>\<open>(mod.classes || [])\<close>; of a function or class only
  its \<^verbatim>\<open>name\<close>. An absent property is \<open>None\<close>.
\<close>

record module_entry =
  mod_module :: string
  mod_functions :: "string list option"
  mod_classes :: "string list option"

record import_edge =
  ie_source :: string
  ie_target :: string

record graph =
  g_modules :: "module_entry list option"
  g_edges :: "import_edge list option"

text \<open>\<^verbatim>\<open>xs || []\<close> for an array that may be absent.\<close>

definition orEmpty :: "'a list option \<Rightarrow> 'a list" where
  "orEmpty xs = (case xs of None \<Rightarrow> [] | Some ys \<Rightarrow> ys)"

datatype node_type = Module | Function | Class

text \<open>\<^verbatim>\<open>NCOL[type] || '#58a6ff'\<close>\<close>

fun NCOL :: "node_type \<Rightarrow> string" where
  "NCOL Module = ''#58a6ff''"
| "NCOL Function = ''#bc8cff''"
| "NCOL Class = ''#d29922''"

text \<open>
  \<^verbatim>\<open>class GNode\<close>. The constructor sets \<^verbatim>\<open>tx: x, ty: y, x, y: y - 50\<close> and draws
  \<^verbatim>\<open>pulse: Math.random() * 6\<close>; the value \<^verbatim>\<open>Math.random()\<close> returned is the last
  argument of \<open>new_GNode\<close>.
\<close>

record GNode =
  n_id :: string
  n_label :: string
  n_type :: node_type
  n_color :: string
  n_tx :: real
  n_ty :: real
  n_x :: real
  n_y :: real
  n_r :: real
  n_cr :: real
  n_delay :: real
  n_t :: real
  n_dur :: real
  n_visible :: bool
  n_hover :: bool
  n_scale :: real
  n_opacity :: real
  n_pulse :: real

definition new_GNode ::
  "string \<Rightarrow> string \<Rightarrow> node_type \<Rightarrow> real \<Rightarrow> real \<Rightarrow> real \<Rightarrow> real \<Rightarrow> real \<Rightarrow> GNode" where
  "new_GNode ident label type x y delay r random =
     \<lparr>n_id = ident, n_label = label, n_type = type, n_color = NCOL type,
      n_tx = x, n_ty = y, n_x = x, n_y = y - 50,
      n_r = r, n_cr = 0, n_delay = delay, n_t = 0, n_dur = 0.6,
      n_visible = False, n_hover = False, n_scale = 0, n_opacity = 0,
      n_pulse = random * 6\<rparr>"

text \<open>
  An edge holds its two ends by reference. A node is referred to by its index in
  \<^verbatim>\<open>nodes\<close> (nodes are only ever appended). \<^verbatim>\<open>nodeMap\<close> is a plain object
  \<^verbatim>\<open>{}\<close>, so reading a key it does not own falls through to its prototype:
  \<^verbatim>\<open>nodeMap['constructor']\<close> is a function, which is truthy. \<open>Inherited k\<close> is the
  value of such an inherited property \<open>k\<close>; it is not a node.
\<close>

datatype endpoint = NodeRef nat | Inherited string

record GEdge =
  e_src :: endpoint
  e_tgt :: endpoint
  e_label :: string
  e_color :: string
  e_delay :: real
  e_t :: real
  e_dur :: real
  e_visible :: bool
  e_progress :: real

text \<open>\<^verbatim>\<open>class GEdge\<close>; the constructor sets \<^verbatim>\<open>color: color || '#58a6ff'\<close>.\<close>

definition new_GEdge :: "endpoint \<Rightarrow> endpoint \<Rightarrow> string \<Rightarrow> string \<Rightarrow> real \<Rightarrow> GEdge" where
  "new_GEdge src tgt label color delay =
     \<lparr>e_src = src, e_tgt = tgt, e_label = label,
      e_color = (if color = [] then ''#58a6ff'' else color), e_delay = delay,
      e_t = 0, e_dur = 0.5, e_visible = False, e_progress = 0\<rparr>"

text \<open>The property names every object inherits from \<^verbatim>\<open>Object.prototype\<close>.\<close>

definition Object_prototype_keys :: "string list" where
  "Object_prototype_keys =
     [''constructor'', ''__defineGetter__'', ''__defineSetter__'', ''hasOwnProperty'',
      ''__lookupGetter__'', ''__lookupSetter__'', ''isPrototypeOf'',
      ''propertyIsEnumerable'', ''toString'', ''valueOf'', ''__proto__'',
      ''toLocaleString'']"

text \<open>
  The assignment \<^verbatim>\<open>nodeMap[id] = n\<close> adds or overwrites the own key \<^verbatim>\<open>id\<close>, with one
  exception: for the id \<^verbatim>\<open>__proto__\<close> it runs the setter inherited from
  \<^verbatim>\<open>Object.prototype\<close> and makes the node \<^verbatim>\<open>n\<close> the prototype of \<^verbatim>\<open>nodeMap\<close>. Reading
  \<^verbatim>\<open>nodeMap['__proto__']\<close> then returns that node, so for this key the map of the model
  behaves like the object. What differs is what \<^verbatim>\<open>nodeMap\<close> inherits afterwards: the
  own properties of that node, with the values they have when they are read, then the
  members of \<^verbatim>\<open>GNode.prototype\<close>, then those of \<^verbatim>\<open>Object.prototype\<close>.

  The own properties of a \<^verbatim>\<open>GNode\<close>, each with whether its value is truthy (a number
  other than \<open>0\<close>, a string other than \<^verbatim>\<open>''\<close>, \<^verbatim>\<open>true\<close>), and the members of
  \<^verbatim>\<open>GNode.prototype\<close>, which are functions.
\<close>

definition GNode_properties :: "GNode \<Rightarrow> (string \<times> bool) list" where
  "GNode_properties n =
     [(''id'', n_id n \<noteq> []), (''label'', n_label n \<noteq> []), (''type'', True),
      (''color'', n_color n \<noteq> []), (''tx'', n_tx n \<noteq> 0), (''ty'', n_ty n \<noteq> 0),
      (''x'', n_x n \<noteq> 0), (''y'', n_y n \<noteq> 0), (''r'', n_r n \<noteq> 0), (''cr'', n_cr n \<noteq> 0),
      (''delay'', n_delay n \<noteq> 0), (''t'', n_t n \<noteq> 0), (''dur'', n_dur n \<noteq> 0),
      (''visible'', n_visible n), (''hover'', n_hover n), (''scale'', n_scale n \<noteq> 0),
      (''opacity'', n_opacity n \<noteq> 0), (''pulse'', n_pulse n \<noteq> 0)]"

definition GNode_prototype_keys :: "string list" where
  "GNode_prototype_keys = [''constructor'', ''start'', ''update'', ''draw'']"

text \<open>
  \<^verbatim>\<open>nodeMap[k]\<close> is truthy although \<^verbatim>\<open>k\<close> is no key of \<^verbatim>\<open>nodeMap\<close>. \<open>ns\<close> is the array
  \<^verbatim>\<open>nodes\<close> at the time of the read.
\<close>

definition inherited :: "GNode list \<Rightarrow> (string \<rightharpoonup> nat) \<Rightarrow> string \<Rightarrow> bool" where
  "inherited ns nodeMap k =
     (case nodeMap ''__proto__'' of
        None \<Rightarrow> k \<in> set Object_prototype_keys
      | Some p \<Rightarrow>
          (case map_of (GNode_properties (ns ! p)) k of
             Some truthy \<Rightarrow> truthy
           | None \<Rightarrow> k \<in> set GNode_prototype_keys \<or> k \<in> set Object_prototype_keys))"

text \<open>
  \<^verbatim>\<open>nodeMap[k]\<close> as the test \<^verbatim>\<open>if (s && t)\<close> sees it: \<open>None\<close> when the value is falsy.
  Own keys are module paths and member ids, and their values are nodes.
\<close>

definition lookupNode :: "GNode list \<Rightarrow> (string \<rightharpoonup> nat) \<Rightarrow> string \<Rightarrow> endpoint option" where
  "lookupNode ns nodeMap k =
     (case nodeMap k of
        Some i \<Rightarrow> Some (NodeRef i)
      | None \<Rightarrow> if inherited ns nodeMap k then Some (Inherited k) else None)"

text \<open>\<^verbatim>\<open>s.split('/').pop()\<close>: the text after the last slash.\<close>

definition lastSegment :: "string \<Rightarrow> string" where
  "lastSegment s = rev (takeWhile (\<lambda>c. c \<noteq> CHR ''/'') (rev s))"

text \<open>\<^verbatim>\<open>s.replace(pat, '')\<close> with a string pattern: the first occurrence is removed.\<close>

fun removeFirst :: "string \<Rightarrow> string \<Rightarrow> string" where
  "removeFirst pat [] = []"
| "removeFirst pat (c # cs) =
     (if take (length pat) (c # cs) = pat then drop (length pat) (c # cs)
      else c # removeFirst pat cs)"

definition moduleLabel :: "string \<Rightarrow> string" where
  "moduleLabel path = removeFirst ''.py'' (lastSegment path)"

text \<open>The local state of \<^verbatim>\<open>forceLayout\<close> while it builds: \<^verbatim>\<open>nodes\<close>, \<^verbatim>\<open>edges\<close>, \<^verbatim>\<open>nodeMap\<close>.\<close>

record build =
  b_nodes :: "GNode list"
  b_edges :: "GEdge list"
  b_nodeMap :: "string \<rightharpoonup> nat"

definition emptyBuild :: build where
  "emptyBuild = \<lparr>b_nodes = [], b_edges = [], b_nodeMap = Map.empty\<rparr>"

text \<open>
  Step 1, the body of \<^verbatim>\<open>mods.forEach((mod, i) => ...)\<close>: one module node on a circle.
  \<open>rnd k\<close> is what the \<open>k\<close>-th call of \<^verbatim>\<open>Math.random()\<close> returns; every node
  constructed draws once, so the node with index \<open>k\<close> gets \<open>rnd k\<close>.
\<close>

definition addModule ::
  "real \<Rightarrow> real \<Rightarrow> real \<Rightarrow> nat \<Rightarrow> (nat \<Rightarrow> real) \<Rightarrow> nat \<times> module_entry \<Rightarrow> build \<Rightarrow> build" where
  "addModule cx cy baseR len rnd im b =
     (let i = fst im; m = snd im;
          angle = (real i / real len) * pi * 2 - pi / 2;
          x = cx + cos angle * baseR;
          y = cy + sin angle * baseR;
          k = length (b_nodes b);
          n = new_GNode (mod_module m) (moduleLabel (mod_module m)) Module x y
                (real i * 0.1) 24 (rnd k)
      in b\<lparr>b_nodes := b_nodes b @ [n], b_nodeMap := (b_nodeMap b)(mod_module m \<mapsto> k)\<rparr>)"

text \<open>
  Step 2: \<^verbatim>\<open>children\<close> are at most two functions and one class of the module.
\<close>

definition children :: "module_entry \<Rightarrow> (string \<times> node_type) list" where
  "children m =
     map (\<lambda>f. (f, Function)) (take 2 (orEmpty (mod_functions m)))
     @ map (\<lambda>c. (c, Class)) (take 1 (orEmpty (mod_classes m)))"

definition childId :: "module_entry \<Rightarrow> string \<Rightarrow> string" where
  "childId m name = mod_module m @ ''::'' @ name"

text \<open>
  The body of \<^verbatim>\<open>children.forEach((ch, j) => ...)\<close> for module \<open>i\<close> with parent node
  \<open>parent\<close>; \<open>len\<close> is \<^verbatim>\<open>children.length\<close>.
\<close>

definition addChild ::
  "module_entry \<Rightarrow> nat \<Rightarrow> nat \<Rightarrow> nat \<Rightarrow> (nat \<Rightarrow> real) \<Rightarrow> nat \<times> (string \<times> node_type)
   \<Rightarrow> build \<Rightarrow> build" where
  "addChild m i parent len rnd jc b =
     (let j = fst jc; ch = snd jc;
          a = (real j / real (max len 1)) * pi * 2 - pi / 2;
          orbit = 50;
          fx = n_tx (b_nodes b ! parent) + cos a * orbit;
          fy = n_ty (b_nodes b ! parent) + sin a * orbit;
          k = length (b_nodes b);
          cn = new_GNode (childId m (fst ch)) (fst ch) (snd ch) fx fy
                 (real i * 0.1 + (real j + 1) * 0.06) 14 (rnd k)
      in b\<lparr>b_nodes := b_nodes b @ [cn],
           b_nodeMap := (b_nodeMap b)(childId m (fst ch) \<mapsto> k),
           b_edges := b_edges b @
             [new_GEdge (NodeRef parent) (NodeRef k) [] ''#30363d55''
                (real i * 0.1 + (real j + 1) * 0.08)]\<rparr>)"

text \<open>
  The body of the second \<^verbatim>\<open>mods.forEach((mod, i) => ...)\<close>. \<^verbatim>\<open>nodeMap[mod.module]\<close> was
  stored by step 1 and is read once, before the children are added (by lemma
  \<open>parent_defined\<close> below the \<open>None\<close> branch is never taken).
\<close>

definition addChildren :: "(nat \<Rightarrow> real) \<Rightarrow> nat \<times> module_entry \<Rightarrow> build \<Rightarrow> build" where
  "addChildren rnd im b =
     (let i = fst im; m = snd im in
      case b_nodeMap b (mod_module m) of
        None \<Rightarrow> b
      | Some parent \<Rightarrow>
          fold (addChild m i parent (length (children m)) rnd) (enumerate 0 (children m)) b)"

text \<open>Steps 1 and 2 of \<^verbatim>\<open>forceLayout\<close>.\<close>

definition addModules :: "module_entry list \<Rightarrow> real \<Rightarrow> real \<Rightarrow> (nat \<Rightarrow> real) \<Rightarrow> build" where
  "addModules mods W H rnd =
     (let cx = W / 2; cy = H / 2;
          baseR = min W H * 0.32
      in fold (addModule cx cy baseR (length mods) rnd) (enumerate 0 mods) emptyBuild)"

definition buildGraph :: "module_entry list \<Rightarrow> real \<Rightarrow> real \<Rightarrow> (nat \<Rightarrow> real) \<Rightarrow> build" where
  "buildGraph mods W H rnd =
     fold (addChildren rnd) (enumerate 0 mods) (addModules mods W H rnd)"

text \<open>
  Step 4, the body of \<^verbatim>\<open>gEdges.forEach((e, i) => ...)\<close>: an edge is pushed when both
  \<^verbatim>\<open>nodeMap[e.source]\<close> and \<^verbatim>\<open>nodeMap[e.target]\<close> are truthy. \<open>len\<close> is \<^verbatim>\<open>mods.length\<close>,
  \<open>ns\<close> the array \<^verbatim>\<open>nodes\<close> after the final positions have been applied.
\<close>

definition crossEdge ::
  "GNode list \<Rightarrow> (string \<rightharpoonup> nat) \<Rightarrow> nat \<Rightarrow> nat \<times> import_edge \<Rightarrow> GEdge option" where
  "crossEdge ns nodeMap len ie =
     (case (lookupNode ns nodeMap (ie_source (snd ie)),
            lookupNode ns nodeMap (ie_target (snd ie))) of
        (Some s, Some t) \<Rightarrow>
          Some (new_GEdge s t ''imports'' ''#39d2c0'' (real len * 0.1 + real (fst ie) * 0.12))
      | _ \<Rightarrow> None)"

definition addCrossEdge ::
  "GNode list \<Rightarrow> (string \<rightharpoonup> nat) \<Rightarrow> nat \<Rightarrow> nat \<times> import_edge \<Rightarrow> GEdge list
   \<Rightarrow> GEdge list" where
  "addCrossEdge ns nodeMap len ie es =
     (case crossEdge ns nodeMap len ie of None \<Rightarrow> es | Some e \<Rightarrow> es @ [e])"

section \<open>Code Map: the force simulation\<close>

text \<open>
  \<^verbatim>\<open>positions\<close> and \<^verbatim>\<open>velocities\<close> are arrays of \<^verbatim>\<open>{x, y}\<close>, here lists of pairs.
\<close>

type_synonym vec = "real \<times> real"

definition REPULSION :: real where
  "REPULSION = 3000"

definition SPRING :: real where
  "SPRING = 0.005"

definition DAMPING :: real where
  "DAMPING = 0.85"

text \<open>\<^verbatim>\<open>Math.sqrt(dx * dx + dy * dy) || 1\<close>\<close>

definition distOr1 :: "real \<Rightarrow> real \<Rightarrow> real" where
  "distOr1 dx dy = (let d = sqrt (dx * dx + dy * dy) in if d = 0 then 1 else d)"

text \<open>The body of the two nested repulsion loops for one pair \<open>i < j\<close>.\<close>

definition repelPair :: "GNode list \<Rightarrow> vec list \<Rightarrow> nat \<times> nat \<Rightarrow> vec list \<Rightarrow> vec list" where
  "repelPair ns positions ij velocities =
     (let i = fst ij; j = snd ij;
          dx = fst (positions ! i) - fst (positions ! j);
          dy = snd (positions ! i) - snd (positions ! j);
          dist0 = distOr1 dx dy;
          minDist = (n_r (ns ! i) + n_r (ns ! j)) * 2.5;
          dist = (if dist0 < minDist then minDist else dist0);
          force = REPULSION / (dist * dist);
          fx = (dx / dist) * force;
          fy = (dy / dist) * force;
          v1 = velocities[i := (fst (velocities ! i) + fx, snd (velocities ! i) + fy)]
      in v1[j := (fst (v1 ! j) - fx, snd (v1 ! j) - fy)])"

text \<open>The pairs \<open>(i, j)\<close> with \<open>i < j < n\<close>, in the order the loops visit them.\<close>

definition pairsBelow :: "nat \<Rightarrow> (nat \<times> nat) list" where
  "pairsBelow n = concat (map (\<lambda>i. map (\<lambda>j. (i, j)) [i + 1..<n]) [0..<n])"

definition repulsion :: "GNode list \<Rightarrow> vec list \<Rightarrow> vec list \<Rightarrow> vec list" where
  "repulsion ns positions velocities =
     fold (repelPair ns positions) (pairsBelow (length positions)) velocities"

text \<open>\<^verbatim>\<open>nodes.indexOf(e.src)\<close>, \<open>None\<close> for \<open>-1\<close>.\<close>

definition indexOf :: "GNode list \<Rightarrow> endpoint \<Rightarrow> nat option" where
  "indexOf ns e =
     (case e of
        NodeRef i \<Rightarrow> if i < length ns then Some i else None
      | Inherited k \<Rightarrow> None)"

text \<open>The body of \<^verbatim>\<open>edges.forEach(e => ...)\<close> in the simulation.\<close>

definition spring :: "GNode list \<Rightarrow> vec list \<Rightarrow> GEdge \<Rightarrow> vec list \<Rightarrow> vec list" where
  "spring ns positions e velocities =
     (case (indexOf ns (e_src e), indexOf ns (e_tgt e)) of
        (Some si, Some ti) \<Rightarrow>
          (let dx = fst (positions ! ti) - fst (positions ! si);
               dy = snd (positions ! ti) - snd (positions ! si);
               dist = distOr1 dx dy;
               targetDist = 70;
               force = (dist - targetDist) * SPRING;
               v1 = velocities[si := (fst (velocities ! si) + (dx / dist) * force,
                                      snd (velocities ! si) + (dy / dist) * force)]
           in v1[ti := (fst (v1 ! ti) - (dx / dist) * force,
                        snd (v1 ! ti) - (dy / dist) * force)])
      | _ \<Rightarrow> velocities)"

definition springs :: "GNode list \<Rightarrow> GEdge list \<Rightarrow> vec list \<Rightarrow> vec list \<Rightarrow> vec list" where
  "springs ns es positions velocities = fold (spring ns positions) es velocities"

text \<open>Center gravity.\<close>

definition gravity :: "real \<Rightarrow> real \<Rightarrow> vec list \<Rightarrow> vec list \<Rightarrow> vec list" where
  "gravity cx cy positions velocities =
     map (\<lambda>i. (fst (velocities ! i) + (cx - fst (positions ! i)) * 0.001,
               snd (velocities ! i) + (cy - snd (positions ! i)) * 0.001))
         [0..<length positions]"

text \<open>
  Apply velocities: damp, move, keep in bounds. The result is the new position and the
  new velocity of one node.
\<close>

definition margin :: real where
  "margin = 40"

definition applyVelocity :: "real \<Rightarrow> real \<Rightarrow> vec \<Rightarrow> vec \<Rightarrow> vec \<times> vec" where
  "applyVelocity W H p v =
     (let vx = fst v * DAMPING;
          vy = snd v * DAMPING;
          px = fst p + vx;
          py = snd p + vy
      in ((max margin (min (W - margin) px), max margin (min (H - margin) py)), (vx, vy)))"

definition integrate :: "real \<Rightarrow> real \<Rightarrow> vec list \<Rightarrow> vec list \<Rightarrow> vec list \<times> vec list" where
  "integrate W H positions velocities =
     (map (\<lambda>i. fst (applyVelocity W H (positions ! i) (velocities ! i))) [0..<length positions],
      map (\<lambda>i. snd (applyVelocity W H (positions ! i) (velocities ! i))) [0..<length positions])"

text \<open>One pass of \<^verbatim>\<open>for (let iter = 0; iter < 80; iter++)\<close>.\<close>

definition iteration ::
  "GNode list \<Rightarrow> GEdge list \<Rightarrow> real \<Rightarrow> real \<Rightarrow> vec list \<times> vec list \<Rightarrow> vec list \<times> vec list" where
  "iteration ns es W H pv =
     (let positions = fst pv;
          v1 = repulsion ns positions (snd pv);
          v2 = springs ns es positions v1;
          v3 = gravity (W / 2) (H / 2) positions v2
      in integrate W H positions v3)"

definition simulate :: "GNode list \<Rightarrow> GEdge list \<Rightarrow> real \<Rightarrow> real \<Rightarrow> vec list" where
  "simulate ns es W H =
     fst ((iteration ns es W H ^^ 80) (map (\<lambda>n. (n_tx n, n_ty n)) ns, map (\<lambda>n. (0, 0)) ns))"

text \<open>\<^verbatim>\<open>nodes.forEach((n, i) => { n.tx = positions[i].x; ... n.y = n.ty - 50; })\<close>\<close>

definition applyFinal :: "GNode list \<Rightarrow> vec list \<Rightarrow> GNode list" where
  "applyFinal ns positions =
     map (\<lambda>i. (ns ! i)\<lparr>n_tx := fst (positions ! i), n_ty := snd (positions ! i),
                        n_x := fst (positions ! i), n_y := snd (positions ! i) - 50\<rparr>)
         [0..<length ns]"

text \<open>What \<^verbatim>\<open>forceLayout\<close> returns: \<^verbatim>\<open>{ nodes, edges }\<close>.\<close>

record layout =
  nodes :: "GNode list"
  edges :: "GEdge list"

definition forceLayout :: "graph option \<Rightarrow> real \<Rightarrow> real \<Rightarrow> (nat \<Rightarrow> real) \<Rightarrow> layout" where
  "forceLayout g W H rnd =
     (case g of
        None \<Rightarrow> \<lparr>nodes = [], edges = []\<rparr>
      | Some gr \<Rightarrow>
          (case g_modules gr of
             None \<Rightarrow> \<lparr>nodes = [], edges = []\<rparr>
           | Some mods \<Rightarrow>
               (let gEdges = orEmpty (g_edges gr);
                    b = buildGraph mods W H rnd;
                    positions = simulate (b_nodes b) (b_edges b) W H;
                    ns = applyFinal (b_nodes b) positions
                in \<lparr>nodes = ns,
                    edges = fold (addCrossEdge ns (b_nodeMap b) (length mods))
                              (enumerate 0 gEdges) (b_edges b)\<rparr>)))"


section \<open>Code Map: the analysis result as it arrives\<close>

text \<open>
  \<^verbatim>\<open>graph\<close> is the parsed response of the analysis service, so a module object has the
  properties it was sent with. \<^verbatim>\<open>forceLayout\<close> reads \<^verbatim>\<open>mod.module\<close>, and no other
  property for the path of a module. For a module object without the property
  \<^verbatim>\<open>module\<close> the value of \<^verbatim>\<open>mod.module\<close> is \<^verbatim>\<open>undefined\<close>, and step 1 throws a
  \<^verbatim>\<open>TypeError\<close> at \<^verbatim>\<open>mod.module.split('/')\<close>; nothing catches it inside \<^verbatim>\<open>forceLayout\<close>.
  \<open>forceLayout\<close> above is the function on the module objects that have the property.
\<close>

datatype error = TypeError

record module_json =
  mj_module :: "string option"
  mj_path :: "string option"
  mj_functions :: "string list option"
  mj_classes :: "string list option"

record graph_json =
  gj_modules :: "module_json list option"
  gj_edges :: "import_edge list option"

text \<open>What step 1 reads of the modules, up to the first one it fails on.\<close>

fun readModules :: "module_json list \<Rightarrow> error + module_entry list" where
  "readModules [] = Inr []"
| "readModules (m # ms) =
     (case mj_module m of
        None \<Rightarrow> Inl TypeError
      | Some p \<Rightarrow>
          (case readModules ms of
             Inl err \<Rightarrow> Inl err
           | Inr mods \<Rightarrow>
               Inr (\<lparr>mod_module = p, mod_functions = mj_functions m,
                      mod_classes = mj_classes m\<rparr> # mods)))"

definition forceLayout_json ::
  "graph_json option \<Rightarrow> real \<Rightarrow> real \<Rightarrow> (nat \<Rightarrow> real) \<Rightarrow> error + layout" where
  "forceLayout_json g W H rnd =
     (case g of
        None \<Rightarrow> Inr (forceLayout None W H rnd)
      | Some gj \<Rightarrow>
          (case gj_modules gj of
             None \<Rightarrow> Inr (forceLayout (Some \<lparr>g_modules = None, g_edges = gj_edges gj\<rparr>) W H rnd)
           | Some ms \<Rightarrow>
               (case readModules ms of
                  Inl err \<Rightarrow> Inl err
                | Inr mods \<Rightarrow>
                    Inr (forceLayout (Some \<lparr>g_modules = Some mods, g_edges = gj_edges gj\<rparr>)
                           W H rnd))))"


section \<open>Code Map: notions used in the statements\<close>

text \<open>
  Nodes are created in this order: the module nodes, then the children of module 0,
  the children of module 1, and so on. \<open>childIndex mods i j\<close> is the index in
  \<^verbatim>\<open>nodes\<close> of child \<open>j\<close> of module \<open>i\<close>; the parent-child edges are created in the
  same order, so the edge to that child has index \<open>childIndex mods i j - length mods\<close>.
\<close>

definition childrenBefore :: "module_entry list \<Rightarrow> nat \<Rightarrow> nat" where
  "childrenBefore mods i = (\<Sum>k<i. length (children (mods ! k)))"

definition childIndex :: "module_entry list \<Rightarrow> nat \<Rightarrow> nat \<Rightarrow> nat" where
  "childIndex mods i j = length mods + childrenBefore mods i + j"

text \<open>What is recorded of a node and of an edge when it is created.\<close>

definition nodeFacts :: "GNode \<Rightarrow> string \<times> node_type \<times> real" where
  "nodeFacts n = (n_id n, n_type n, n_delay n)"

definition edgeFacts :: "GEdge \<Rightarrow> string \<times> real" where
  "edgeFacts e = (e_label e, e_delay e)"

definition childList ::
  "(nat \<Rightarrow> module_entry \<Rightarrow> nat \<Rightarrow> string \<times> node_type \<Rightarrow> 'a) \<Rightarrow> (nat \<times> module_entry) list \<Rightarrow> 'a list" where
  "childList f xs =
     concat (map (\<lambda>im. map (\<lambda>jc. f (fst im) (snd im) (fst jc) (snd jc))
                          (enumerate 0 (children (snd im)))) xs)"

definition childNodeFacts ::
  "nat \<Rightarrow> module_entry \<Rightarrow> nat \<Rightarrow> string \<times> node_type \<Rightarrow> string \<times> node_type \<times> real" where
  "childNodeFacts i m j ch = (childId m (fst ch), snd ch, real i * 0.1 + (real j + 1) * 0.06)"

definition childEdgeFacts ::
  "nat \<Rightarrow> module_entry \<Rightarrow> nat \<Rightarrow> string \<times> node_type \<Rightarrow> string \<times> real" where
  "childEdgeFacts i m j ch = ([], real i * 0.1 + (real j + 1) * 0.08)"

text \<open>A node with the random phase of its pulse blanked out.\<close>

definition unpulsed :: "GNode \<Rightarrow> GNode" where
  "unpulsed n = n\<lparr>n_pulse := 0\<rparr>"

text \<open>Two build states that agree on everything but the pulse phases.\<close>

definition sameBuild :: "build \<Rightarrow> build \<Rightarrow> bool" where
  "sameBuild b b' =
     (map unpulsed (b_nodes b) = map unpulsed (b_nodes b') \<and> b_edges b = b_edges b'
      \<and> b_nodeMap b = b_nodeMap b'
      \<and> (\<forall>k i. b_nodeMap b k = Some i \<longrightarrow> i < length (b_nodes b)))"

text \<open>A position inside the margins of a \<open>W\<close> by \<open>H\<close> canvas.\<close>

definition inBounds :: "real \<Rightarrow> real \<Rightarrow> real \<times> real \<Rightarrow> bool" where
  "inBounds W H p = (40 \<le> fst p \<and> fst p \<le> W - 40 \<and> 40 \<le> snd p \<and> snd p \<le> H - 40)"

text \<open>The input of the scenario of claim C4.\<close>

definition scenarioGraph :: graph where
  "scenarioGraph =
     \<lparr>g_modules = Some
        [\<lparr>mod_module = ''a.py'', mod_functions = Some [''f''], mod_classes = Some []\<rparr>,
         \<lparr>mod_module = ''b.py'', mod_functions = Some [], mod_classes = Some [''C'']\<rparr>],
      g_edges = Some [\<lparr>ie_source = ''a.py'', ie_target = ''b.py''\<rparr>]\<rparr>"

text \<open>
  The same input as it is written in claim C4, the path of a module under the key
  \<^verbatim>\<open>path\<close>, and as \<^verbatim>\<open>forceLayout\<close> reads it, under the key \<^verbatim>\<open>module\<close>.
\<close>

definition scenarioAsStated :: graph_json where
  "scenarioAsStated =
     \<lparr>gj_modules = Some
        [\<lparr>mj_module = None, mj_path = Some ''a.py'', mj_functions = Some [''f''],
          mj_classes = Some []\<rparr>,
         \<lparr>mj_module = None, mj_path = Some ''b.py'', mj_functions = Some [],
          mj_classes = Some [''C'']\<rparr>],
      gj_edges = Some [\<lparr>ie_source = ''a.py'', ie_target = ''b.py''\<rparr>]\<rparr>"

definition scenarioJson :: graph_json where
  "scenarioJson =
     \<lparr>gj_modules = Some
        [\<lparr>mj_module = Some ''a.py'', mj_path = None, mj_functions = Some [''f''],
          mj_classes = Some []\<rparr>,
         \<lparr>mj_module = Some ''b.py'', mj_path = None, mj_functions = Some [],
          mj_classes = Some [''C'']\<rparr>],
      gj_edges = Some [\<lparr>ie_source = ''a.py'', ie_target = ''b.py''\<rparr>]\<rparr>"

text \<open>One module with two functions, and no import edges.\<close>

definition twoFunctions :: graph where
  "twoFunctions =
     \<lparr>g_modules = Some
        [\<lparr>mod_module = ''a.py'', mod_functions = Some [''f'', ''g''], mod_classes = None\<rparr>],
      g_edges = None\<rparr>"

text \<open>One module with one function, and an import edge from the function to the module.\<close>

definition memberEdge :: graph where
  "memberEdge =
     \<lparr>g_modules = Some
        [\<lparr>mod_module = ''a.py'', mod_functions = Some [''f''], mod_classes = None\<rparr>],
      g_edges = Some [\<lparr>ie_source = ''a.py::f'', ie_target = ''a.py''\<rparr>]\<rparr>"


text \<open>One module, and an import edge to a module that is not in the graph.\<close>

definition ghostEdge :: graph where
  "ghostEdge =
     \<lparr>g_modules = Some [\<lparr>mod_module = ''a.py'', mod_functions = None, mod_classes = None\<rparr>],
      g_edges = Some [\<lparr>ie_source = ''a.py'', ie_target = ''ghost.py''\<rparr>]\<rparr>"

text \<open>One module named \<^verbatim>\<open>__proto__\<close>, and an import edge from \<^verbatim>\<open>id\<close> to the module.\<close>

definition protoModule :: graph where
  "protoModule =
     \<lparr>g_modules = Some [\<lparr>mod_module = ''__proto__'', mod_functions = None, mod_classes = None\<rparr>],
      g_edges = Some [\<lparr>ie_source = ''id'', ie_target = ''__proto__''\<rparr>]\<rparr>"

text \<open>The same module, and an import edge from \<^verbatim>\<open>pulse\<close> to the module.\<close>

definition protoPulse :: graph where
  "protoPulse =
     \<lparr>g_modules = Some [\<lparr>mod_module = ''__proto__'', mod_functions = None, mod_classes = None\<rparr>],
      g_edges = Some [\<lparr>ie_source = ''pulse'', ie_target = ''__proto__''\<rparr>]\<rparr>"

text \<open>The property names of a \<^verbatim>\<open>GNode\<close>: its fields and its methods.\<close>

definition GNode_keys :: "string list" where
  "GNode_keys =
     [''id'', ''label'', ''type'', ''color'', ''tx'', ''ty'', ''x'', ''y'', ''r'', ''cr'', ''delay'',
      ''t'', ''dur'', ''visible'', ''hover'', ''scale'', ''opacity'', ''pulse'']
     @ GNode_prototype_keys"

text \<open>
  A name is the id of a node; and a name can resolve in \<^verbatim>\<open>nodeMap\<close>: it is the id of a
  node, or the name of a property that \<^verbatim>\<open>nodeMap\<close> can inherit, from \<^verbatim>\<open>Object.prototype\<close>
  or, when a node is named \<^verbatim>\<open>__proto__\<close>, from a \<^verbatim>\<open>GNode\<close>.
\<close>

definition isNodeId :: "GNode list \<Rightarrow> string \<Rightarrow> bool" where
  "isNodeId ns k = (k \<in> set (map n_id ns))"

definition resolves :: "GNode list \<Rightarrow> string \<Rightarrow> bool" where
  "resolves ns k =
     (isNodeId ns k \<or> k \<in> set Object_prototype_keys
      \<or> (isNodeId ns ''__proto__'' \<and> k \<in> set GNode_keys))"

text \<open>An edge between two nodes: neither end is an inherited property.\<close>

fun isNodeRef :: "endpoint \<Rightarrow> bool" where
  "isNodeRef (NodeRef i) = True"
| "isNodeRef (Inherited k) = False"

definition joinsNodes :: "GEdge \<Rightarrow> bool" where
  "joinsNodes e = (isNodeRef (e_src e) \<and> isNodeRef (e_tgt e))"


section \<open>Visualizer: the trace and the rendered diagram\<close>

text \<open>
  A step of the execution trace, \<^verbatim>\<open>{id, sid, parent, kind, label, line}\<close>. Ids are
  numbers; \<^verbatim>\<open>parent\<close> is the id of another step or absent. \<^verbatim>\<open>sid\<close> is the name of the
  step's node in the diagram.
\<close>

record step =
  st_id :: int
  st_sid :: string
  st_parent :: "int option"
  st_kind :: string
  st_label :: string
  st_line :: int

text \<open>The inline style properties the component writes.\<close>

record style =
  css_opacity :: string
  css_filter :: string
  css_transition :: string
  css_stroke :: string
  css_strokeWidth :: string
  css_strokeDasharray :: string
  css_animation :: string

datatype tag = GroupTag | PathTag | PolygonTag | MarkerTag | OtherTag

text \<open>
  The diagram is the \<^verbatim>\<open>svg\<close> element an external renderer produced. The component
  only reaches it through selectors, so the model keeps, for every element below the
  \<^verbatim>\<open>svg\<close> in document order: its id (empty when it has none), its tag, its classes, and
  the ids of the elements of class \<^verbatim>\<open>edge\<close> it lies in (those between it and the
  \<^verbatim>\<open>svg\<close>). The \<^verbatim>\<open>svg\<close> element itself and the component's containers above it are not
  of class \<^verbatim>\<open>edge\<close>. Step names are diagram identifiers: they need no escaping inside
  the selector \<^verbatim>\<open>[id*="flowchart-${sid}-"]\<close>.
\<close>

record element =
  el_id :: string
  el_tag :: tag
  el_classes :: "string list"
  el_edges :: "string list"
  el_style :: style

text \<open>\<^verbatim>\<open>s.includes(sub)\<close>\<close>

fun str_includes :: "string \<Rightarrow> string \<Rightarrow> bool" where
  "str_includes [] sub = (sub = [])"
| "str_includes (c # cs) sub = (take (length sub) (c # cs) = sub \<or> str_includes cs sub)"

text \<open>The index of the first element that satisfies \<open>P\<close>.\<close>

fun findIndex :: "('a \<Rightarrow> bool) \<Rightarrow> 'a list \<Rightarrow> nat option" where
  "findIndex P [] = None"
| "findIndex P (x # xs) = (if P x then Some 0 else map_option Suc (findIndex P xs))"

text \<open>\<^verbatim>\<open>svg.querySelector(`[id*="flowchart-${sid}-"]`)\<close>: the first match in document order.\<close>

definition nodeOf :: "element list \<Rightarrow> string \<Rightarrow> nat option" where
  "nodeOf els sid = findIndex (\<lambda>e. str_includes (el_id e) (''flowchart-'' @ sid @ ''-'')) els"

text \<open>The selectors \<^verbatim>\<open>.node\<close>, \<^verbatim>\<open>.edge path, .edge polygon, .edge marker\<close> and
  \<^verbatim>\<open>.edge path, .edge polygon\<close>.\<close>

definition isNode :: "element \<Rightarrow> bool" where
  "isNode e = (''node'' \<in> set (el_classes e))"

definition isEdgePart :: "element \<Rightarrow> bool" where
  "isEdgePart e = (el_edges e \<noteq> [] \<and> el_tag e \<in> {PathTag, PolygonTag, MarkerTag})"

definition isEdgeShape :: "element \<Rightarrow> bool" where
  "isEdgeShape e = (el_edges e \<noteq> [] \<and> el_tag e \<in> {PathTag, PolygonTag})"

text \<open>\<^verbatim>\<open>forEach(n => { n.style... = ... })\<close> over the elements a selector matches.\<close>

definition restyle :: "(element \<Rightarrow> bool) \<Rightarrow> (style \<Rightarrow> style) \<Rightarrow> element \<Rightarrow> element" where
  "restyle P f e = (if P e then e\<lparr>el_style := f (el_style e)\<rparr> else e)"

definition styleWhere ::
  "(element \<Rightarrow> bool) \<Rightarrow> (style \<Rightarrow> style) \<Rightarrow> element list \<Rightarrow> element list" where
  "styleWhere P f els = map (restyle P f) els"

definition styleAt :: "nat \<Rightarrow> (style \<Rightarrow> style) \<Rightarrow> element list \<Rightarrow> element list" where
  "styleAt n f els = els[n := (els ! n)\<lparr>el_style := f (el_style (els ! n))\<rparr>]"

section \<open>Visualizer: the highlight helpers\<close>

text \<open>
  The style assignments in the bodies of \<^verbatim>\<open>dimAll\<close>, \<^verbatim>\<open>resetAll\<close>, \<^verbatim>\<open>glowNode\<close> and
  \<^verbatim>\<open>glowEdge\<close>.
\<close>

definition dimmedNode :: "style \<Rightarrow> style" where
  "dimmedNode st =
     st\<lparr>css_opacity := ''0.2'', css_filter := ''none'', css_transition := ''all 0.4s ease''\<rparr>"

definition dimmedEdge :: "style \<Rightarrow> style" where
  "dimmedEdge st = st\<lparr>css_opacity := ''0.08'', css_transition := ''all 0.4s ease''\<rparr>"

definition resetNode :: "style \<Rightarrow> style" where
  "resetNode st =
     st\<lparr>css_opacity := ''1'', css_filter := ''none'', css_transition := ''all 0.35s ease''\<rparr>"

definition resetEdge :: "style \<Rightarrow> style" where
  "resetEdge st =
     st\<lparr>css_opacity := ''0.7'', css_stroke := [], css_strokeWidth := [],
        css_strokeDasharray := [], css_animation := [],
        css_transition := ''all 0.35s ease''\<rparr>"

text \<open>\<^verbatim>\<open>GLOW[`${kind}Style`] || DEF_GLOW\<close>, the \<^verbatim>\<open>color\<close> of the entry.\<close>

definition glowColor :: "string \<Rightarrow> string" where
  "glowColor kind =
     (if kind = ''start'' then ''#58a6ff''
      else if kind = ''define'' then ''#bc8cff''
      else if kind = ''call'' then ''#3fb950''
      else if kind = ''import'' then ''#39d2c0''
      else if kind = ''condition'' then ''#d29922''
      else if kind = ''loop'' then ''#f778ba''
      else if kind = ''return'' then ''#f85149''
      else if kind = ''class'' then ''#d29922''
      else if kind = ''assign'' then ''#8b949e''
      else ''#58a6ff'')"

definition glowFilter :: "string \<Rightarrow> string" where
  "glowFilter kind = ''drop-shadow(0 0 14px '' @ glowColor kind @ ''88) brightness(1.4)''"

definition glowingNode :: "string \<Rightarrow> style \<Rightarrow> style" where
  "glowingNode kind st =
     st\<lparr>css_opacity := ''1'', css_filter := glowFilter kind,
        css_transition := ''all 0.3s ease''\<rparr>"

definition glowingEdge :: "style \<Rightarrow> style" where
  "glowingEdge st =
     st\<lparr>css_opacity := ''1'', css_stroke := ''#58a6ff'', css_strokeWidth := ''3'',
        css_strokeDasharray := ''8 4'', css_animation := ''edgeFlow 0.6s linear infinite''\<rparr>"

text \<open>
  \<^verbatim>\<open>dimAll\<close> and \<^verbatim>\<open>resetAll\<close> on the diagram: first the nodes, then the parts of the
  edges.
\<close>

definition dimAll_svg :: "element list \<Rightarrow> element list" where
  "dimAll_svg els = styleWhere isEdgePart dimmedEdge (styleWhere isNode dimmedNode els)"

definition resetAll_svg :: "element list \<Rightarrow> element list" where
  "resetAll_svg els = styleWhere isEdgeShape resetEdge (styleWhere isNode resetNode els)"

text \<open>\<^verbatim>\<open>glowNode(sid, kind)\<close> on the diagram.\<close>

definition glowNode_svg :: "string \<Rightarrow> string \<Rightarrow> element list \<Rightarrow> element list" where
  "glowNode_svg sid kind els =
     (case nodeOf els sid of
        None \<Rightarrow> els
      | Some n \<Rightarrow> styleAt n (glowingNode kind) els)"

text \<open>
  \<^verbatim>\<open>glowEdge(fromSid, toSid)\<close>: in every element of class \<^verbatim>\<open>edge\<close> whose id includes
  both names, every path and polygon is restyled. Seen from the path or polygon: one of
  the edge elements it lies in has such an id.
\<close>

definition edgeMatches :: "string \<Rightarrow> string \<Rightarrow> element \<Rightarrow> bool" where
  "edgeMatches fromSid toSid e =
     (el_tag e \<in> {PathTag, PolygonTag}
      \<and> list_ex (\<lambda>eid. str_includes eid fromSid \<and> str_includes eid toSid) (el_edges e))"

definition glowEdge_svg :: "string \<Rightarrow> string \<Rightarrow> element list \<Rightarrow> element list" where
  "glowEdge_svg fromSid toSid els = styleWhere (edgeMatches fromSid toSid) glowingEdge els"

section \<open>Visualizer: the playback controller\<close>

text \<open>
  The state of the component: the React state \<^verbatim>\<open>steps\<close>, \<^verbatim>\<open>curStep\<close>, \<^verbatim>\<open>playing\<close>,
  \<^verbatim>\<open>speed\<close> (the refs \<^verbatim>\<open>stepsRef\<close> and \<^verbatim>\<open>speedRef\<close> mirror \<^verbatim>\<open>steps\<close> and \<^verbatim>\<open>speed\<close>
  after every render), the ref \<^verbatim>\<open>playRef\<close>, the diagram (absent until one is
  rendered), and the activations of \<^verbatim>\<open>playLoop\<close> that are suspended in
  \<^verbatim>\<open>await new Promise(r => setTimeout(r, speedRef.current))\<close>, each with the value of
  its local \<^verbatim>\<open>i\<close>.
\<close>

record vstate =
  steps :: "step list"
  curStep :: int
  playing :: bool
  speed :: int
  playRef :: bool
  svg :: "element list option"
  timers :: "int list"

definition onSvg :: "(element list \<Rightarrow> element list) \<Rightarrow> vstate \<Rightarrow> vstate" where
  "onSvg f s = (case svg s of None \<Rightarrow> s | Some els \<Rightarrow> s\<lparr>svg := Some (f els)\<rparr>)"

definition dimAll :: "vstate \<Rightarrow> vstate" where
  "dimAll = onSvg dimAll_svg"

definition resetAll :: "vstate \<Rightarrow> vstate" where
  "resetAll = onSvg resetAll_svg"

text \<open>JavaScript truthiness of \<^verbatim>\<open>s.parent\<close>: absent and \<open>0\<close> are falsy.\<close>

definition truthyParent :: "step \<Rightarrow> int option" where
  "truthyParent st = (case st_parent st of None \<Rightarrow> None | Some p \<Rightarrow> if p = 0 then None else Some p)"

text \<open>
  The step whose edge \<^verbatim>\<open>showStep\<close> highlights for step \<open>st\<close>:
  \<^verbatim>\<open>s.parent && all.find(x => x.id === s.parent)\<close>.
\<close>

definition parentStep :: "step list \<Rightarrow> step \<Rightarrow> step option" where
  "parentStep all st =
     (case truthyParent st of None \<Rightarrow> None | Some p \<Rightarrow> find (\<lambda>x. st_id x = p) all)"

text \<open>
  The body of the trail loop of \<^verbatim>\<open>showStep(idx)\<close> for one \<open>i\<close>, on the diagram
  (\<^verbatim>\<open>if (!svg) continue\<close> skips it when there is none).
\<close>

definition trailStep :: "step list \<Rightarrow> nat \<Rightarrow> nat \<Rightarrow> element list \<Rightarrow> element list" where
  "trailStep all idx i els =
     (let st = all ! i;
          els1 = (case nodeOf els (st_sid st) of
                    None \<Rightarrow> els
                  | Some n \<Rightarrow>
                      (let els0 = styleAt n
                             (\<lambda>s. s\<lparr>css_opacity := (if i = idx then ''1'' else ''0.5'')\<rparr>) els
                       in if i = idx then glowNode_svg (st_sid st) (st_kind st) els0 else els0))
      in case parentStep all st of
           None \<Rightarrow> els1
         | Some ps \<Rightarrow> glowEdge_svg (st_sid ps) (st_sid st) els1)"

text \<open>
  \<^verbatim>\<open>showStep(idx)\<close>. Scrolling the active node into view changes nothing that is
  modelled.
\<close>

definition showStep :: "int \<Rightarrow> vstate \<Rightarrow> vstate" where
  "showStep idx s =
     (if idx < 0 \<or> idx \<ge> int (length (steps s)) then s
      else (onSvg (fold (trailStep (steps s) (nat idx)) [0..<nat idx + 1]) (dimAll s))
             \<lparr>curStep := idx\<rparr>)"

text \<open>
  \<^verbatim>\<open>playLoop\<close> from the test of its \<^verbatim>\<open>while\<close> on, with \<open>i\<close> the local counter: it either
  shows a step and suspends with \<open>i + 1\<close>, or leaves the loop.
\<close>

definition playLoopFrom :: "int \<Rightarrow> vstate \<Rightarrow> vstate" where
  "playLoopFrom i s =
     (if playRef s \<and> i < int (length (steps s))
      then (let s1 = showStep i s in s1\<lparr>timers := timers s1 @ [i + 1]\<rparr>)
      else if i \<ge> int (length (steps s)) then s\<lparr>playRef := False, playing := False\<rparr>
      else s)"

definition playLoop :: "int \<Rightarrow> vstate \<Rightarrow> vstate" where
  "playLoop start s = playLoopFrom start (s\<lparr>playRef := True\<rparr>)"

definition togglePlay :: "vstate \<Rightarrow> vstate" where
  "togglePlay s =
     (if playing s then s\<lparr>playRef := False, playing := False\<rparr>
      else playLoop (if curStep s \<ge> int (length (steps s)) - 1 then 0 else curStep s + 1)
             (s\<lparr>playing := True\<rparr>))"

definition stepFwd :: "vstate \<Rightarrow> vstate" where
  "stepFwd s =
     (let s1 = s\<lparr>playRef := False, playing := False\<rparr>
      in if curStep s + 1 < int (length (steps s)) then showStep (curStep s + 1) s1 else s1)"

definition reset :: "vstate \<Rightarrow> vstate" where
  "reset s = resetAll (s\<lparr>playRef := False, playing := False, curStep := - 1\<rparr>)"

text \<open>
  The timer of the \<open>k\<close>-th suspended activation fires: that activation resumes at the
  test of its loop. Timers may fire in any order (the delays differ when the speed
  changes).
\<close>

definition timerFires :: "nat \<Rightarrow> vstate \<Rightarrow> vstate" where
  "timerFires k s =
     (if k < length (timers s)
      then playLoopFrom (timers s ! k) (s\<lparr>timers := take k (timers s) @ drop (Suc k) (timers s)\<rparr>)
      else s)"

text \<open>What the user and the clock can do, and a run of such events.\<close>

datatype event = PressPlayPause | PressStep | PressReset | TimerFires nat

fun apply_event :: "event \<Rightarrow> vstate \<Rightarrow> vstate" where
  "apply_event PressPlayPause s = togglePlay s"
| "apply_event PressStep s = stepFwd s"
| "apply_event PressReset s = reset s"
| "apply_event (TimerFires k) s = timerFires k s"

definition run :: "event list \<Rightarrow> vstate \<Rightarrow> vstate" where
  "run evs s = fold apply_event evs s"

text \<open>The state after \<^verbatim>\<open>loadFlow\<close> has rendered a diagram and stored its steps.\<close>

definition loaded :: "step list \<Rightarrow> element list option \<Rightarrow> vstate" where
  "loaded all diagram =
     \<lparr>steps = all, curStep = - 1, playing = False, speed = 800, playRef = False,
      svg = diagram, timers = []\<rparr>"

text \<open>
  What \<^verbatim>\<open>loadFlow\<close> writes on the diagram it has rendered, before any playback: a
  transition on every \<^verbatim>\<open>.node\<close> (and a cursor, which is not modelled), a stroke width
  and an opacity on every \<^verbatim>\<open>.edge path\<close>. \<open>rendered\<close> is the state after \<^verbatim>\<open>loadFlow\<close> for
  a diagram that the renderer returned without inline styles of these kinds.
\<close>

definition isEdgePath :: "element \<Rightarrow> bool" where
  "isEdgePath e = (el_edges e \<noteq> [] \<and> el_tag e = PathTag)"

definition loadFlow_svg :: "element list \<Rightarrow> element list" where
  "loadFlow_svg els =
     styleWhere isEdgePath (\<lambda>st. st\<lparr>css_strokeWidth := ''2'', css_opacity := ''0.7''\<rparr>)
       (styleWhere isNode (\<lambda>st. st\<lparr>css_transition := ''all 0.35s ease''\<rparr>) els)"

definition rendered :: "step list \<Rightarrow> element list \<Rightarrow> vstate" where
  "rendered all els = loaded all (Some (loadFlow_svg els))"

text \<open>The neutral styles \<^verbatim>\<open>resetAll\<close> writes.\<close>

definition neutralNode :: "style \<Rightarrow> bool" where
  "neutralNode st = (css_opacity st = ''1'' \<and> css_filter st = ''none'')"

definition neutralEdge :: "style \<Rightarrow> bool" where
  "neutralEdge st =
     (css_opacity st = ''0.7'' \<and> css_stroke st = [] \<and> css_strokeWidth st = []
      \<and> css_strokeDasharray st = [] \<and> css_animation st = [])"

definition plainStyle :: style where
  "plainStyle =
     \<lparr>css_opacity = [], css_filter = [], css_transition = [], css_stroke = [],
      css_strokeWidth = [], css_strokeDasharray = [], css_animation = []\<rparr>"


section \<open>Visualizer: notions used in the statements\<close>

text \<open>What of an element the component never changes.\<close>

definition skeleton :: "element \<Rightarrow> string \<times> tag \<times> string list \<times> string list" where
  "skeleton e = (el_id e, el_tag e, el_classes e, el_edges e)"

text \<open>Step \<open>i\<close> of the trace highlights the path or polygon \<open>e\<close> as its incoming edge.\<close>

definition glowsEdge :: "step list \<Rightarrow> nat \<Rightarrow> element \<Rightarrow> bool" where
  "glowsEdge all i e =
     (case parentStep all (all ! i) of
        None \<Rightarrow> False
      | Some ps \<Rightarrow> edgeMatches (st_sid ps) (st_sid (all ! i)) e)"

text \<open>The style the trail loop gives the node of a step: the current one glows.\<close>

definition trailNode :: "bool \<Rightarrow> string \<Rightarrow> style \<Rightarrow> style" where
  "trailNode current kind st =
     (if current then glowingNode kind (st\<lparr>css_opacity := ''1''\<rparr>)
      else st\<lparr>css_opacity := ''0.5''\<rparr>)"

text \<open>
  Element \<open>m\<close> of the diagram is selected by one of the steps below \<open>k\<close>: as the step's
  node, or as a part of the step's incoming edge.
\<close>

definition touched :: "step list \<Rightarrow> element list \<Rightarrow> nat \<Rightarrow> nat \<Rightarrow> bool" where
  "touched all els k m =
     (\<exists>j<k. nodeOf els (st_sid (all ! j)) = Some m \<or> glowsEdge all j (els ! m))"

text \<open>The style of element \<open>n\<close> of the diagram in a state.\<close>

definition styleOf :: "vstate \<Rightarrow> nat \<Rightarrow> style" where
  "styleOf s n = (case svg s of None \<Rightarrow> plainStyle | Some els \<Rightarrow> el_style (els ! n))"

text \<open>
  A trace of three steps named \<^verbatim>\<open>n1\<close>, \<^verbatim>\<open>n2\<close> and \<^verbatim>\<open>n12\<close>, each the parent of the
  next, and a diagram for it in which every edge is a group of class \<^verbatim>\<open>edge\<close>, as the
  selectors of the highlight helpers expect it: two edge groups (the first with a path
  and a marker, the second with a path) and three node groups, none of them styled yet.
\<close>

definition traceThree :: "step list" where
  "traceThree =
     [\<lparr>st_id = 1, st_sid = ''n1'', st_parent = None, st_kind = ''start'',
       st_label = ''entry'', st_line = 1\<rparr>,
      \<lparr>st_id = 2, st_sid = ''n2'', st_parent = Some 1, st_kind = ''call'',
       st_label = ''foo()'', st_line = 5\<rparr>,
      \<lparr>st_id = 3, st_sid = ''n12'', st_parent = Some 2, st_kind = ''return'',
       st_label = ''return'', st_line = 6\<rparr>]"

definition plainElement :: "string \<Rightarrow> tag \<Rightarrow> string list \<Rightarrow> string list \<Rightarrow> element" where
  "plainElement ident t classes inEdges =
     \<lparr>el_id = ident, el_tag = t, el_classes = classes, el_edges = inEdges,
      el_style = plainStyle\<rparr>"

definition diagramThree :: "element list" where
  "diagramThree =
     [plainElement ''L-n1-n2-0'' GroupTag [''edge''] [],
      plainElement [] PathTag [] [''L-n1-n2-0''],
      plainElement [] MarkerTag [] [''L-n1-n2-0''],
      plainElement ''L-n2-n12-0'' GroupTag [''edge''] [],
      plainElement [] PathTag [] [''L-n2-n12-0''],
      plainElement ''flowchart-n1-0'' GroupTag [''node''] [],
      plainElement ''flowchart-n2-1'' GroupTag [''node''] [],
      plainElement ''flowchart-n12-2'' GroupTag [''node''] []]"

text \<open>
  A diagram for the same trace with the structure of a flowchart as Mermaid renders it:
  the arrow marker first, then the edges, each a \<^verbatim>\<open>path\<close> of class \<^verbatim>\<open>flowchart-link\<close> in
  the group \<^verbatim>\<open>edgePaths\<close>, then the nodes, each a group of class \<^verbatim>\<open>node\<close> in the group
  \<^verbatim>\<open>nodes\<close>. No element is of class \<^verbatim>\<open>edge\<close>. (The shapes and labels inside the node
  groups are left out; they have no id and no class that a selector of the component
  names.)
\<close>

definition flowchartThree :: "element list" where
  "flowchartThree =
     [plainElement ''mmd1_flowchart-v2-pointEnd'' MarkerTag [''marker'', ''flowchart-v2''] [],
      plainElement [] PathTag [''arrowMarkerPath''] [],
      plainElement [] GroupTag [''edgePaths''] [],
      plainElement ''L_n1_n2_0'' PathTag [''flowchart-link''] [],
      plainElement ''L_n2_n12_0'' PathTag [''flowchart-link''] [],
      plainElement [] GroupTag [''nodes''] [],
      plainElement ''flowchart-n1-0'' GroupTag [''node'', ''default''] [],
      plainElement ''flowchart-n2-1'' GroupTag [''node'', ''default''] [],
      plainElement ''flowchart-n12-2'' GroupTag [''node'', ''default''] []]"

text \<open>
  Element \<open>m\<close> is one that no selector of the component reaches: it is not of class
  \<^verbatim>\<open>node\<close>, it lies in no element of class \<^verbatim>\<open>edge\<close>, and its id does not contain
  \<^verbatim>\<open>flowchart-\<close>.
\<close>

definition unselected :: "element list \<Rightarrow> nat \<Rightarrow> bool" where
  "unselected els m =
     (m < length els \<and> \<not> isNode (els ! m) \<and> el_edges (els ! m) = []
      \<and> \<not> str_includes (el_id (els ! m)) ''flowchart-'')"


section \<open>Wheel zoom keeps the point under the cursor fixed\<close>

text \<open>
  Claim C7. On a wheel event the zoom becomes
  \<open>clamp (z * (0.9 if deltaY > 0 else 1.1)) zoomMin zoomMax\<close>, the pan becomes
  \<open>cursor - (cursor - pan) * (z' / z)\<close>, and the model-space point that was under the
  cursor before the event is drawn at the cursor's screen position after it
  (exactly, over the reals). The zoom before the event is not zero.
\<close>

theorem wheel_zoom_fixes_cursor:
  assumes "zoom s \<noteq> 0"
  shows "zoom (onWheel (Some r) e s) =
           max zoomMin (min zoomMax (zoom s * (if deltaY e > 0 then 0.9 else 1.1)))
       \<and> pan_x (onWheel (Some r) e s) =
           fst (cursor r e) - (fst (cursor r e) - pan_x s) * (zoom (onWheel (Some r) e s) / zoom s)
       \<and> pan_y (onWheel (Some r) e s) =
           snd (cursor r e) - (snd (cursor r e) - pan_y s) * (zoom (onWheel (Some r) e s) / zoom s)
       \<and> toScreen s (toWorld s (cursor r e)) = cursor r e
       \<and> toScreen (onWheel (Some r) e s) (toWorld s (cursor r e)) = cursor r e"
proof -
  have fixed: "(m - p) / zoom s * z + (m - (m - p) * (z / zoom s)) = m" for m p z :: real
    by simp
  show ?thesis
    using assms
    by (simp add: onWheel_def toScreen_def toWorld_def cursor_def Let_def fixed)
qed

theorem wheel_zoom_fixes_cursor_witness:
  "zoom \<lparr>pan_x = 10, pan_y = 20, zoom = 1\<rparr> \<noteq> 0
   \<and> zoom (onWheel (Some \<lparr>rect_left = 5, rect_top = 5\<rparr>) \<lparr>clientX = 105, clientY = 55, deltaY = 1\<rparr>
         \<lparr>pan_x = 10, pan_y = 20, zoom = 1\<rparr>) = 0.9
   \<and> toWorld \<lparr>pan_x = 10, pan_y = 20, zoom = 1\<rparr>
         (cursor \<lparr>rect_left = 5, rect_top = 5\<rparr> \<lparr>clientX = 105, clientY = 55, deltaY = 1\<rparr>) = (90, 30)
   \<and> toScreen (onWheel (Some \<lparr>rect_left = 5, rect_top = 5\<rparr>) \<lparr>clientX = 105, clientY = 55, deltaY = 1\<rparr>
         \<lparr>pan_x = 10, pan_y = 20, zoom = 1\<rparr>) (90, 30) = (100, 50)"
  using wheel_zoom_fixes_cursor [of "\<lparr>pan_x = 10, pan_y = 20, zoom = 1\<rparr>"
      "\<lparr>rect_left = 5, rect_top = 5\<rparr>" "\<lparr>clientX = 105, clientY = 55, deltaY = 1\<rparr>"]
  by (simp add: toWorld_def cursor_def zoomMin_def zoomMax_def)

section \<open>The speed slider and the delay of the play loop\<close>

text \<open>
  Claim C10, as stated: the delay is the slider's maximum minus the slider value. At the
  slider's lowest position 200 the handler stores 2000, not 2000 - 200 = 1800.
\<close>

theorem speed_not_max_minus_value:
  "sliderAccepts 200 \<and> onSpeedChange 200 = 2000 \<and> sliderMax - 200 = 1800
   \<and> onSpeedChange 200 \<noteq> sliderMax - 200"
  by (simp add: sliderAccepts_def onSpeedChange_def sliderMin_def sliderMax_def sliderStep_def)

text \<open>
  Claim C10, amended. For every value \<open>v\<close> the slider accepts, the delay stored is
  \<open>2200 - v\<close>, that is the slider's minimum plus its maximum minus \<open>v\<close> (a smaller slider
  position is slower), it lies between 200 and 2000 ms, and the slider shows \<open>v\<close> again
  for the stored delay.
\<close>

theorem speed_delay_of_slider:
  assumes "sliderAccepts v"
  shows "onSpeedChange v = 2200 - v
       \<and> onSpeedChange v = sliderMin + sliderMax - v
       \<and> 200 \<le> onSpeedChange v \<and> onSpeedChange v \<le> 2000
       \<and> sliderValue (onSpeedChange v) = v"
  using assms
  by (simp add: sliderAccepts_def onSpeedChange_def sliderValue_def sliderMin_def sliderMax_def)

theorem speed_delay_of_slider_witness:
  "sliderAccepts 500 \<and> onSpeedChange 500 = 1700 \<and> sliderValue 1700 = 500"
  using speed_delay_of_slider [of 500]
  by (simp add: sliderAccepts_def sliderMin_def sliderMax_def sliderStep_def
      onSpeedChange_def sliderValue_def)

section \<open>The simulation keeps every node inside the margins\<close>

lemma length_fold_same:
  assumes "\<And>x v. length (f x v) = length v"
  shows "length (fold f xs vs) = length vs"
  using assms by (induction xs arbitrary: vs) simp_all

lemma length_repelPair: "length (repelPair ns ps ij vs) = length vs"
  by (simp add: repelPair_def Let_def)

lemma length_repulsion: "length (repulsion ns ps vs) = length vs"
  unfolding repulsion_def by (rule length_fold_same) (rule length_repelPair)

lemma length_integrate:
  "length (fst (integrate W H ps vs)) = length ps"
  "length (snd (integrate W H ps vs)) = length ps"
  by (simp_all add: integrate_def)

lemma length_iteration: "length (fst (iteration ns es W H pv)) = length (fst pv)"
  by (simp add: iteration_def Let_def length_integrate)

lemma length_funpow_iteration:
  "length (fst ((iteration ns es W H ^^ k) pv)) = length (fst pv)"
  by (induction k) (simp_all add: length_iteration)

lemma length_simulate: "length (simulate ns es W H) = length ns"
  by (simp add: simulate_def length_funpow_iteration)

lemma applyVelocity_inBounds:
  assumes "80 \<le> W" "80 \<le> H"
  shows "inBounds W H (fst (applyVelocity W H p v))"
  using assms by (simp add: applyVelocity_def Let_def margin_def inBounds_def)

lemma integrate_inBounds:
  assumes "80 \<le> W" "80 \<le> H" "p \<in> set (fst (integrate W H ps vs))"
  shows "inBounds W H p"
proof -
  from assms(3) obtain i where "p = fst (applyVelocity W H (ps ! i) (vs ! i))"
    unfolding integrate_def by fastforce
  with applyVelocity_inBounds [OF assms(1,2), of "ps ! i" "vs ! i"] show ?thesis by simp
qed

lemma iteration_inBounds:
  assumes "80 \<le> W" "80 \<le> H" "p \<in> set (fst (iteration ns es W H pv))"
  shows "inBounds W H p"
proof -
  from assms(3) have "p \<in> set (fst (integrate W H (fst pv)
      (gravity (W / 2) (H / 2) (fst pv)
         (springs ns es (fst pv) (repulsion ns (fst pv) (snd pv))))))"
    by (simp add: iteration_def Let_def)
  then show ?thesis by (rule integrate_inBounds [OF assms(1,2)])
qed

lemma simulate_inBounds:
  assumes "80 \<le> W" "80 \<le> H" "p \<in> set (simulate ns es W H)"
  shows "inBounds W H p"
proof -
  have "(80::nat) = Suc 79" by simp
  then have "(iteration ns es W H ^^ 80) pv
           = iteration ns es W H ((iteration ns es W H ^^ 79) pv)" for pv
    by (simp only: funpow.simps o_apply)
  with assms(3) show ?thesis
    using iteration_inBounds [OF assms(1,2)] by (simp add: simulate_def)
qed

lemma applyFinal_frame:
  "length (applyFinal ns ps) = length ns"
  "map nodeFacts (applyFinal ns ps) = map nodeFacts ns"
proof -
  show "length (applyFinal ns ps) = length ns"
    by (simp add: applyFinal_def)
  show "map nodeFacts (applyFinal ns ps) = map nodeFacts ns"
    by (rule nth_equalityI) (simp_all add: applyFinal_def nodeFacts_def)
qed

lemma applyFinal_target:
  assumes "length ps = length ns" "n \<in> set (applyFinal ns ps)"
  shows "(n_tx n, n_ty n) \<in> set ps"
  using assms by (auto simp: applyFinal_def)

section \<open>What the layout returns\<close>

lemma fold_addCrossEdge:
  "fold (addCrossEdge ns nm len) xs es = es @ List.map_filter (crossEdge ns nm len) xs"
  by (induction xs arbitrary: es)
     (simp_all add: addCrossEdge_def List.map_filter_simps split: option.splits)

lemma forceLayout_absent:
  "forceLayout None W H rnd = \<lparr>nodes = [], edges = []\<rparr>"
  "g_modules gr = None \<Longrightarrow> forceLayout (Some gr) W H rnd = \<lparr>nodes = [], edges = []\<rparr>"
  by (simp_all add: forceLayout_def)

lemma forceLayout_present:
  assumes "g_modules gr = Some mods"
  shows "nodes (forceLayout (Some gr) W H rnd) =
           applyFinal (b_nodes (buildGraph mods W H rnd))
             (simulate (b_nodes (buildGraph mods W H rnd))
                (b_edges (buildGraph mods W H rnd)) W H)"
    and "edges (forceLayout (Some gr) W H rnd) =
           b_edges (buildGraph mods W H rnd) @
           List.map_filter
             (crossEdge (nodes (forceLayout (Some gr) W H rnd))
                (b_nodeMap (buildGraph mods W H rnd)) (length mods))
             (enumerate 0 (orEmpty (g_edges gr)))"
  using assms by (simp_all add: forceLayout_def Let_def fold_addCrossEdge)

lemma forceLayout_inBounds:
  assumes "80 \<le> W" "80 \<le> H" "n \<in> set (nodes (forceLayout g W H rnd))"
  shows "inBounds W H (n_tx n, n_ty n)"
proof (cases g)
  case None
  with assms(3) show ?thesis by (simp add: forceLayout_absent)
next
  case (Some gr)
  show ?thesis
  proof (cases "g_modules gr")
    case None
    with Some assms(3) show ?thesis by (simp add: forceLayout_absent)
  next
    case m: (Some mods)
    let ?b = "buildGraph mods W H rnd"
    from assms(3)
    have "n \<in> set (applyFinal (b_nodes ?b) (simulate (b_nodes ?b) (b_edges ?b) W H))"
      unfolding Some forceLayout_present(1) [OF m] .
    then have "(n_tx n, n_ty n) \<in> set (simulate (b_nodes ?b) (b_edges ?b) W H)"
      by (rule applyFinal_target [OF length_simulate])
    then show ?thesis by (rule simulate_inBounds [OF assms(1,2)])
  qed
qed

section \<open>The nodes and edges the builder creates, in order\<close>

lemma nth_concat_offset:
  "i < length xss \<Longrightarrow> j < length (xss ! i) \<Longrightarrow>
     (\<Sum>k<i. length (xss ! k)) + j < length (concat xss)
     \<and> concat xss ! ((\<Sum>k<i. length (xss ! k)) + j) = xss ! i ! j"
proof (induction xss arbitrary: i)
  case Nil
  then show ?case by simp
next
  case (Cons xs xss)
  show ?case
  proof (cases i)
    case 0
    with Cons.prems show ?thesis by (simp add: nth_append)
  next
    case (Suc i')
    with Cons.prems have "i' < length xss" "j < length (xss ! i')" by simp_all
    have shift: "(\<Sum>k<Suc i'. length ((xs # xss) ! k))
               = length xs + (\<Sum>k<i'. length (xss ! k))"
      by (simp add: sum.lessThan_Suc_shift del: sum.lessThan_Suc)
    from Cons.IH [OF \<open>i' < length xss\<close> \<open>j < length (xss ! i')\<close>] show ?thesis
      unfolding Suc shift by (simp add: nth_append add.assoc)
  qed
qed

lemma map_enumerate_fst: "map (\<lambda>im. f (fst im)) (enumerate n xs) = map f [n..<n + length xs]"
proof -
  have "map f [n..<n + length xs] = map f (map fst (enumerate n xs))" by simp
  also have "\<dots> = map (\<lambda>im. f (fst im)) (enumerate n xs)" by (simp only: map_map comp_def)
  finally show ?thesis by (rule sym)
qed

lemma map_enumerate_snd: "map (\<lambda>im. f (snd im)) (enumerate n xs) = map f xs"
proof -
  have "map f xs = map f (map snd (enumerate n xs))" by simp
  also have "\<dots> = map (\<lambda>im. f (snd im)) (enumerate n xs)" by (simp only: map_map comp_def)
  finally show ?thesis by (rule sym)
qed

text \<open>Step 1.\<close>

lemma addModule_fold:
  "map nodeFacts (b_nodes (fold (addModule cx cy R len rnd) xs b)) =
     map nodeFacts (b_nodes b) @ map (\<lambda>im. (mod_module (snd im), Module, real (fst im) * 0.1)) xs"
  "b_edges (fold (addModule cx cy R len rnd) xs b) = b_edges b"
  "dom (b_nodeMap (fold (addModule cx cy R len rnd) xs b)) =
     dom (b_nodeMap b) \<union> (\<lambda>im. mod_module (snd im)) ` set xs"
proof -
  show "map nodeFacts (b_nodes (fold (addModule cx cy R len rnd) xs b)) =
     map nodeFacts (b_nodes b) @ map (\<lambda>im. (mod_module (snd im), Module, real (fst im) * 0.1)) xs"
    by (induction xs arbitrary: b)
       (simp_all add: addModule_def Let_def new_GNode_def nodeFacts_def)
  show "b_edges (fold (addModule cx cy R len rnd) xs b) = b_edges b"
    by (induction xs arbitrary: b) (simp_all add: addModule_def Let_def)
  show "dom (b_nodeMap (fold (addModule cx cy R len rnd) xs b)) =
     dom (b_nodeMap b) \<union> (\<lambda>im. mod_module (snd im)) ` set xs"
    by (induction xs arbitrary: b) (auto simp: addModule_def Let_def)
qed

lemma addModules_props:
  "map nodeFacts (b_nodes (addModules mods W H rnd)) =
     map (\<lambda>im. (mod_module (snd im), Module, real (fst im) * 0.1)) (enumerate 0 mods)"
  "b_edges (addModules mods W H rnd) = []"
  "dom (b_nodeMap (addModules mods W H rnd)) = set (map mod_module mods)"
  "length (b_nodes (addModules mods W H rnd)) = length mods"
proof -
  show facts: "map nodeFacts (b_nodes (addModules mods W H rnd)) =
     map (\<lambda>im. (mod_module (snd im), Module, real (fst im) * 0.1)) (enumerate 0 mods)"
    by (simp add: addModules_def Let_def addModule_fold(1) emptyBuild_def)
  show "b_edges (addModules mods W H rnd) = []"
    by (simp add: addModules_def Let_def addModule_fold(2) emptyBuild_def)
  have "(\<lambda>im. mod_module (snd im)) ` set (enumerate 0 mods)
      = set (map (\<lambda>im. mod_module (snd im)) (enumerate 0 mods))"
    by simp
  also have "\<dots> = set (map mod_module mods)"
    by (simp only: map_enumerate_snd)
  finally show "dom (b_nodeMap (addModules mods W H rnd)) = set (map mod_module mods)"
    by (simp add: addModules_def Let_def addModule_fold(3) emptyBuild_def)
  have "length (map nodeFacts (b_nodes (addModules mods W H rnd))) = length mods"
    unfolding facts by simp
  then show "length (b_nodes (addModules mods W H rnd)) = length mods"
    by simp
qed

text \<open>Step 2, the children of one module.\<close>

lemma addChild_fold:
  "map nodeFacts (b_nodes (fold (addChild m i p len rnd) xs b)) =
     map nodeFacts (b_nodes b) @ map (\<lambda>jc. childNodeFacts i m (fst jc) (snd jc)) xs"
  "map edgeFacts (b_edges (fold (addChild m i p len rnd) xs b)) =
     map edgeFacts (b_edges b) @ map (\<lambda>jc. childEdgeFacts i m (fst jc) (snd jc)) xs"
  "dom (b_nodeMap (fold (addChild m i p len rnd) xs b)) =
     dom (b_nodeMap b) \<union> (\<lambda>jc. childId m (fst (snd jc))) ` set xs"
  "length (b_nodes (fold (addChild m i p len rnd) xs b)) = length (b_nodes b) + length xs"
proof -
  show "map nodeFacts (b_nodes (fold (addChild m i p len rnd) xs b)) =
     map nodeFacts (b_nodes b) @ map (\<lambda>jc. childNodeFacts i m (fst jc) (snd jc)) xs"
    by (induction xs arbitrary: b)
       (simp_all add: addChild_def Let_def new_GNode_def nodeFacts_def childNodeFacts_def)
  show "map edgeFacts (b_edges (fold (addChild m i p len rnd) xs b)) =
     map edgeFacts (b_edges b) @ map (\<lambda>jc. childEdgeFacts i m (fst jc) (snd jc)) xs"
    by (induction xs arbitrary: b)
       (simp_all add: addChild_def Let_def new_GEdge_def edgeFacts_def childEdgeFacts_def)
  show "dom (b_nodeMap (fold (addChild m i p len rnd) xs b)) =
     dom (b_nodeMap b) \<union> (\<lambda>jc. childId m (fst (snd jc))) ` set xs"
    by (induction xs arbitrary: b) (auto simp: addChild_def Let_def)
  show "length (b_nodes (fold (addChild m i p len rnd) xs b)) = length (b_nodes b) + length xs"
    by (induction xs arbitrary: b) (simp_all add: addChild_def Let_def)
qed

lemma addChild_fold_targets:
  "map e_tgt (b_edges (fold (addChild m i p len rnd) xs b)) =
     map e_tgt (b_edges b) @ map NodeRef [length (b_nodes b)..<length (b_nodes b) + length xs]"
proof (induction xs arbitrary: b)
  case Nil
  then show ?case by simp
next
  case (Cons x xs)
  have "[length (b_nodes b)..<length (b_nodes b) + length (x # xs)] =
          length (b_nodes b) # [Suc (length (b_nodes b))..<Suc (length (b_nodes b)) + length xs]"
    by (simp add: upt_rec)
  then show ?case
    by (simp add: Cons.IH) (simp add: addChild_def Let_def new_GEdge_def)
qed

lemma addChildren_dom_mono: "dom (b_nodeMap b) \<subseteq> dom (b_nodeMap (addChildren rnd im b))"
  by (auto simp: addChildren_def Let_def addChild_fold(3) split: option.splits)

text \<open>
  The parent of a module's children is always found: step 1 stored every module's key,
  and step 2 only adds keys.
\<close>

lemma parent_defined:
  assumes "m \<in> set mods"
  shows "b_nodeMap (addModules mods W H rnd) (mod_module m) \<noteq> None"
    and "b_nodeMap (fold (addChildren rnd) xs (addModules mods W H rnd)) (mod_module m) \<noteq> None"
proof -
  from assms have start: "mod_module m \<in> dom (b_nodeMap (addModules mods W H rnd))"
    by (simp add: addModules_props(3))
  then show "b_nodeMap (addModules mods W H rnd) (mod_module m) \<noteq> None" by auto
  have "k \<in> dom (b_nodeMap b) \<Longrightarrow> k \<in> dom (b_nodeMap (fold (addChildren rnd) xs b))" for k b
  proof (induction xs arbitrary: b)
    case Nil
    then show ?case by simp
  next
    case (Cons x xs)
    from Cons.prems addChildren_dom_mono [of b rnd x]
    have "k \<in> dom (b_nodeMap (addChildren rnd x b))" by blast
    from Cons.IH [OF this] show ?case by simp
  qed
  from this [OF start]
  show "b_nodeMap (fold (addChildren rnd) xs (addModules mods W H rnd)) (mod_module m) \<noteq> None"
    by auto
qed

text \<open>Step 2, all modules.\<close>

lemma addChildren_fold:
  assumes "\<forall>im\<in>set xs. mod_module (snd im) \<in> dom (b_nodeMap b)"
  shows "map nodeFacts (b_nodes (fold (addChildren rnd) xs b)) =
           map nodeFacts (b_nodes b) @ childList childNodeFacts xs
       \<and> map edgeFacts (b_edges (fold (addChildren rnd) xs b)) =
           map edgeFacts (b_edges b) @ childList childEdgeFacts xs"
  using assms
proof (induction xs arbitrary: b)
  case Nil
  then show ?case by (simp add: childList_def)
next
  case (Cons x xs)
  from Cons.prems obtain p where p: "b_nodeMap b (mod_module (snd x)) = Some p" by auto
  have "\<forall>im\<in>set xs. mod_module (snd im) \<in> dom (b_nodeMap (addChildren rnd x b))"
    using Cons.prems addChildren_dom_mono [of b rnd x] by (simp add: subset_iff)
  from Cons.IH [OF this] show ?case
    by (simp add: childList_def) (simp add: addChildren_def Let_def p addChild_fold(1,2))
qed

lemma addChildren_targets:
  assumes "map e_tgt (b_edges b) = map NodeRef [n..<length (b_nodes b)]"
    and "n \<le> length (b_nodes b)"
  shows "map e_tgt (b_edges (addChildren rnd im b)) =
           map NodeRef [n..<length (b_nodes (addChildren rnd im b))]
       \<and> n \<le> length (b_nodes (addChildren rnd im b))"
proof (cases "b_nodeMap b (mod_module (snd im))")
  case None
  with assms show ?thesis by (simp add: addChildren_def Let_def)
next
  case (Some p)
  have "[n..<length (b_nodes b) + k]
      = [n..<length (b_nodes b)] @ [length (b_nodes b)..<length (b_nodes b) + k]" for k
    using assms(2) by (rule upt_add_eq_append)
  with Some assms show ?thesis
    by (simp add: addChildren_def Let_def addChild_fold_targets addChild_fold(4))
qed

lemma addChildren_fold_targets:
  assumes "map e_tgt (b_edges b) = map NodeRef [n..<length (b_nodes b)]"
    and "n \<le> length (b_nodes b)"
  shows "map e_tgt (b_edges (fold (addChildren rnd) xs b)) =
           map NodeRef [n..<length (b_nodes (fold (addChildren rnd) xs b))]"
  using assms
proof (induction xs arbitrary: b)
  case Nil
  then show ?case by simp
next
  case (Cons x xs)
  from addChildren_targets [OF Cons.prems, of rnd x] Cons.IH show ?case by simp
qed

lemma buildGraph_facts:
  "map nodeFacts (b_nodes (buildGraph mods W H rnd)) =
     map (\<lambda>im. (mod_module (snd im), Module, real (fst im) * 0.1)) (enumerate 0 mods)
     @ childList childNodeFacts (enumerate 0 mods)"
  "map edgeFacts (b_edges (buildGraph mods W H rnd)) = childList childEdgeFacts (enumerate 0 mods)"
proof -
  have "\<forall>im\<in>set (enumerate 0 mods).
          mod_module (snd im) \<in> dom (b_nodeMap (addModules mods W H rnd))"
    by (auto simp: addModules_props(3) in_set_enumerate_eq)
  from addChildren_fold [OF this, of rnd]
  show "map nodeFacts (b_nodes (buildGraph mods W H rnd)) =
     map (\<lambda>im. (mod_module (snd im), Module, real (fst im) * 0.1)) (enumerate 0 mods)
     @ childList childNodeFacts (enumerate 0 mods)"
    and "map edgeFacts (b_edges (buildGraph mods W H rnd))
       = childList childEdgeFacts (enumerate 0 mods)"
    by (simp_all add: buildGraph_def addModules_props)
qed

lemma buildGraph_targets:
  "map e_tgt (b_edges (buildGraph mods W H rnd)) =
     map NodeRef [length mods..<length (b_nodes (buildGraph mods W H rnd))]"
  unfolding buildGraph_def
  using addChildren_fold_targets
    [of "addModules mods W H rnd" "length mods" rnd "enumerate 0 mods"]
  by (simp add: addModules_props)

lemma nth_childList:
  assumes "i < length mods" "j < length (children (mods ! i))"
  shows "childList f (enumerate 0 mods) ! (childrenBefore mods i + j)
           = f i (mods ! i) j (children (mods ! i) ! j)"
    and "childrenBefore mods i + j < length (childList f (enumerate 0 mods))"
proof -
  let ?xss = "map (\<lambda>im. map (\<lambda>jc. f (fst im) (snd im) (fst jc) (snd jc))
                          (enumerate 0 (children (snd im)))) (enumerate 0 mods)"
  have len: "length (?xss ! k) = length (children (mods ! k))" if "k < length mods" for k
    using that by (simp add: nth_enumerate_eq)
  have sum: "(\<Sum>k<i. length (?xss ! k)) = childrenBefore mods i"
    unfolding childrenBefore_def using assms(1) by (intro sum.cong refl len) simp
  have i: "i < length ?xss" using assms(1) by simp
  have j: "j < length (?xss ! i)" unfolding len [OF assms(1)] by (rule assms(2))
  from nth_concat_offset [OF i j]
  have "childrenBefore mods i + j < length (concat ?xss)"
    and "concat ?xss ! (childrenBefore mods i + j) = ?xss ! i ! j"
    unfolding sum by simp_all
  moreover have "?xss ! i ! j = f i (mods ! i) j (children (mods ! i) ! j)"
    using assms by (simp add: nth_enumerate_eq)
  ultimately show "childList f (enumerate 0 mods) ! (childrenBefore mods i + j)
           = f i (mods ! i) j (children (mods ! i) ! j)"
    and "childrenBefore mods i + j < length (childList f (enumerate 0 mods))"
    unfolding childList_def by simp_all
qed

text \<open>Every node is stored in \<^verbatim>\<open>nodeMap\<close> under its id, and nothing else is.\<close>

lemma buildGraph_dom:
  "dom (b_nodeMap (buildGraph mods W H rnd)) = set (map n_id (b_nodes (buildGraph mods W H rnd)))"
proof -
  have ids: "set (map n_id ns) = fst ` set (map nodeFacts ns)" for ns
    by (simp add: nodeFacts_def image_image)
  have child: "dom (b_nodeMap b) = set (map n_id (b_nodes b)) \<Longrightarrow>
      dom (b_nodeMap (addChildren rnd im b)) = set (map n_id (b_nodes (addChildren rnd im b)))"
    for im b
    unfolding ids
    by (cases "b_nodeMap b (mod_module (snd im))")
       (simp_all add: addChildren_def Let_def addChild_fold(1,3) childNodeFacts_def
          image_Un image_image)
  have fold: "dom (b_nodeMap b) = set (map n_id (b_nodes b)) \<Longrightarrow>
      dom (b_nodeMap (fold (addChildren rnd) xs b))
        = set (map n_id (b_nodes (fold (addChildren rnd) xs b)))" for xs b
    by (induction xs arbitrary: b) (simp_all add: child)
  have "dom (b_nodeMap (addModules mods W H rnd))
      = set (map n_id (b_nodes (addModules mods W H rnd)))"
    unfolding ids addModules_props(1,3)
    by (simp add: image_image) (metis map_enumerate_snd set_map)
  then show ?thesis unfolding buildGraph_def by (rule fold)
qed


text \<open>The final positions change neither the ids nor the creation facts of the nodes.\<close>

lemma forceLayout_nodeFacts:
  assumes "g_modules gr = Some mods"
  shows "map nodeFacts (nodes (forceLayout (Some gr) W H rnd))
       = map nodeFacts (b_nodes (buildGraph mods W H rnd))"
    and "length (nodes (forceLayout (Some gr) W H rnd)) = length (b_nodes (buildGraph mods W H rnd))"
  unfolding forceLayout_present(1) [OF assms] by (rule applyFinal_frame(2), rule applyFinal_frame(1))

lemma forceLayout_ids:
  assumes "g_modules gr = Some mods"
  shows "set (map n_id (nodes (forceLayout (Some gr) W H rnd)))
       = dom (b_nodeMap (buildGraph mods W H rnd))"
proof -
  have "map n_id ns = map fst (map nodeFacts ns)" for ns
    by (simp add: nodeFacts_def comp_def)
  then have "map n_id (nodes (forceLayout (Some gr) W H rnd))
           = map n_id (b_nodes (buildGraph mods W H rnd))"
    by (simp only: forceLayout_nodeFacts(1) [OF assms])
  then show ?thesis by (simp only: buildGraph_dom)
qed


section \<open>The layout does not depend on the random pulse phases\<close>

lemma unpulsed_fields:
  assumes "map unpulsed ns = map unpulsed ns'" "i < length ns"
  shows "n_r (ns ! i) = n_r (ns' ! i)" "n_tx (ns ! i) = n_tx (ns' ! i)"
    "n_ty (ns ! i) = n_ty (ns' ! i)"
proof -
  from assms have "length ns' = length ns" by (metis length_map)
  with assms have "unpulsed (ns ! i) = unpulsed (ns' ! i)"
    by (metis nth_map)
  then show "n_r (ns ! i) = n_r (ns' ! i)" "n_tx (ns ! i) = n_tx (ns' ! i)"
    "n_ty (ns ! i) = n_ty (ns' ! i)"
    by (cases "ns ! i"; cases "ns' ! i"; simp add: unpulsed_def)+
qed

lemma sameBuild_length: "sameBuild b b' \<Longrightarrow> length (b_nodes b') = length (b_nodes b)"
  unfolding sameBuild_def by (metis length_map)

lemma sameBuild_addModule:
  assumes "sameBuild b b'"
  shows "sameBuild (addModule cx cy R len rnd im b) (addModule cx cy R len rnd' im b')"
  using assms sameBuild_length [OF assms]
  by (auto simp: sameBuild_def addModule_def Let_def new_GNode_def unpulsed_def less_Suc_eq)

lemma sameBuild_fold_addModule:
  assumes "sameBuild b b'"
  shows "sameBuild (fold (addModule cx cy R len rnd) xs b)
           (fold (addModule cx cy R len rnd') xs b')"
  using assms by (induction xs arbitrary: b b') (simp_all add: sameBuild_addModule)

lemma sameBuild_addChild:
  assumes "sameBuild b b'" "p < length (b_nodes b)"
  shows "sameBuild (addChild m i p len rnd jc b) (addChild m i p len rnd' jc b')"
  using assms sameBuild_length [OF assms(1)]
    unpulsed_fields(2,3) [of "b_nodes b" "b_nodes b'" p]
  by (auto simp: sameBuild_def addChild_def Let_def new_GNode_def unpulsed_def less_Suc_eq)

lemma sameBuild_fold_addChild:
  assumes "sameBuild b b'" "p < length (b_nodes b)"
  shows "sameBuild (fold (addChild m i p len rnd) xs b) (fold (addChild m i p len rnd') xs b')"
  using assms
proof (induction xs arbitrary: b b')
  case Nil
  then show ?case by simp
next
  case (Cons x xs)
  have "p < length (b_nodes (addChild m i p len rnd x b))"
    using Cons.prems(2) by (simp add: addChild_def Let_def)
  with Cons.IH [OF sameBuild_addChild [OF Cons.prems]] show ?case by simp
qed

lemma sameBuild_addChildren:
  assumes "sameBuild b b'"
  shows "sameBuild (addChildren rnd im b) (addChildren rnd' im b')"
proof (cases "b_nodeMap b (mod_module (snd im))")
  case None
  with assms show ?thesis by (simp add: addChildren_def Let_def sameBuild_def)
next
  case (Some p)
  with assms have "p < length (b_nodes b)" "b_nodeMap b' (mod_module (snd im)) = Some p"
    by (auto simp: sameBuild_def)
  with Some sameBuild_fold_addChild [OF assms this(1)] show ?thesis
    by (simp add: addChildren_def Let_def)
qed

lemma sameBuild_buildGraph: "sameBuild (buildGraph mods W H rnd) (buildGraph mods W H rnd')"
proof -
  have "sameBuild emptyBuild emptyBuild" by (simp add: sameBuild_def emptyBuild_def)
  then have "sameBuild (addModules mods W H rnd) (addModules mods W H rnd')"
    unfolding addModules_def Let_def by (rule sameBuild_fold_addModule)
  moreover have "sameBuild b b' \<Longrightarrow>
      sameBuild (fold (addChildren rnd) xs b) (fold (addChildren rnd') xs b')" for xs b b'
    by (induction xs arbitrary: b b') (simp_all add: sameBuild_addChildren)
  ultimately show ?thesis unfolding buildGraph_def by blast
qed

text \<open>The simulation reads of a node only its radius and its seed position.\<close>

lemma pairsBelow_range: "ij \<in> set (pairsBelow n) \<Longrightarrow> fst ij < n \<and> snd ij < n"
  by (auto simp: pairsBelow_def)

lemma fold_cong_set: "(\<And>x. x \<in> set xs \<Longrightarrow> f x = g x) \<Longrightarrow> fold f xs a = fold g xs a"
  by (rule fold_cong) simp_all

lemma iteration_unpulsed:
  assumes "map unpulsed ns = map unpulsed ns'" "length (fst pv) = length ns"
  shows "iteration ns es W H pv = iteration ns' es W H pv"
proof -
  have len: "length ns' = length ns" using assms(1) by (metis length_map)
  have "repelPair ns (fst pv) ij = repelPair ns' (fst pv) ij"
    if "ij \<in> set (pairsBelow (length (fst pv)))" for ij
    using pairsBelow_range [OF that] assms(2)
      unpulsed_fields(1) [OF assms(1), of "fst ij"] unpulsed_fields(1) [OF assms(1), of "snd ij"]
    by (simp add: repelPair_def fun_eq_iff Let_def)
  then have "repulsion ns (fst pv) = repulsion ns' (fst pv)"
    unfolding repulsion_def by (intro ext fold_cong_set) simp
  moreover have "indexOf ns' = indexOf ns"
    unfolding indexOf_def len ..
  then have "spring ns (fst pv) = spring ns' (fst pv)"
    unfolding spring_def by simp
  ultimately show ?thesis by (simp add: iteration_def springs_def)
qed

lemma funpow_iteration_unpulsed:
  assumes "map unpulsed ns = map unpulsed ns'" "length (fst pv) = length ns"
  shows "(iteration ns es W H ^^ k) pv = (iteration ns' es W H ^^ k) pv"
proof (induction k)
  case 0
  show ?case by simp
next
  case (Suc k)
  have "length (fst ((iteration ns' es W H ^^ k) pv)) = length ns"
    using assms(2) by (simp add: length_funpow_iteration)
  from iteration_unpulsed [OF assms(1) this] Suc show ?case by simp
qed

lemma simulate_unpulsed:
  assumes "map unpulsed ns = map unpulsed ns'"
  shows "simulate ns es W H = simulate ns' es W H"
proof -
  have len: "length ns' = length ns" using assms by (metis length_map)
  have pos: "map (\<lambda>n. (n_tx n, n_ty n)) ns' = map (\<lambda>n. (n_tx n, n_ty n)) ns"
    using unpulsed_fields(2,3) [OF assms] len by (intro nth_equalityI) simp_all
  have vel: "map (\<lambda>n. (0::real, 0::real)) ns' = map (\<lambda>n. (0, 0)) ns"
    using len by (intro nth_equalityI) simp_all
  have "length (fst (map (\<lambda>n. (n_tx n, n_ty n)) ns, map (\<lambda>n. (0::real, 0::real)) ns))
      = length ns"
    by simp
  from funpow_iteration_unpulsed [OF assms this] show ?thesis
    unfolding simulate_def pos vel by simp
qed

lemma applyFinal_unpulsed:
  assumes "map unpulsed ns = map unpulsed ns'"
  shows "map unpulsed (applyFinal ns ps) = map unpulsed (applyFinal ns' ps)"
proof -
  have len: "length ns' = length ns" using assms by (metis length_map)
  have "unpulsed (ns ! i) = unpulsed (ns' ! i)" if "i < length ns" for i
    using assms that len by (metis nth_map)
  moreover have "unpulsed (n\<lparr>n_tx := a, n_ty := b, n_x := c, n_y := d\<rparr>)
           = (unpulsed n)\<lparr>n_tx := a, n_ty := b, n_x := c, n_y := d\<rparr>" for n a b c d
    by (simp add: unpulsed_def)
  ultimately have "unpulsed ((ns ! i)\<lparr>n_tx := a, n_ty := b, n_x := c, n_y := d\<rparr>)
           = unpulsed ((ns' ! i)\<lparr>n_tx := a, n_ty := b, n_x := c, n_y := d\<rparr>)"
    if "i < length ns" for i a b c d
    using that by simp
  then show ?thesis
    using len by (intro nth_equalityI) (simp_all add: applyFinal_def)
qed

lemma forceLayout_unpulsed:
  "map unpulsed (nodes (forceLayout g W H rnd)) = map unpulsed (nodes (forceLayout g W H rnd'))"
proof (cases g)
  case None
  then show ?thesis by (simp add: forceLayout_absent)
next
  case (Some gr)
  show ?thesis
  proof (cases "g_modules gr")
    case None
    with Some show ?thesis by (simp add: forceLayout_absent)
  next
    case m: (Some mods)
    from sameBuild_buildGraph [of mods W H rnd rnd']
    have same: "map unpulsed (b_nodes (buildGraph mods W H rnd))
              = map unpulsed (b_nodes (buildGraph mods W H rnd'))"
      and e: "b_edges (buildGraph mods W H rnd) = b_edges (buildGraph mods W H rnd')"
      by (simp_all add: sameBuild_def)
    show ?thesis
      unfolding Some forceLayout_present(1) [OF m] simulate_unpulsed [OF same] e
      by (rule applyFinal_unpulsed [OF same])
  qed
qed

text \<open>
  The edges. A name that is a key of \<^verbatim>\<open>nodeMap\<close> resolves to its node whatever the
  nodes hold, so the edges between nodes do not depend on the pulse phases.
\<close>

lemma lookupNode_NodeRef: "(lookupNode ns nm k = Some (NodeRef i)) = (nm k = Some i)"
  by (simp add: lookupNode_def split: option.splits)

lemma lookupNode_isNodeRef:
  "lookupNode ns nm k = Some ep \<Longrightarrow> isNodeRef ep \<Longrightarrow> lookupNode ns' nm k = Some ep"
  by (cases ep) (simp_all add: lookupNode_def split: option.splits if_splits)

lemma filter_map_filter:
  "filter P (List.map_filter f xs)
   = List.map_filter (\<lambda>x. case f x of None \<Rightarrow> None | Some y \<Rightarrow> if P y then Some y else None) xs"
  by (induction xs) (simp_all add: List.map_filter_simps split: option.splits)

lemma crossEdge_joinsNodes:
  "(case crossEdge ns nm len ie of None \<Rightarrow> None | Some c \<Rightarrow> if joinsNodes c then Some c else None)
   = (case crossEdge ns' nm len ie of None \<Rightarrow> None | Some c \<Rightarrow> if joinsNodes c then Some c else None)"
proof -
  have one: "(case crossEdge ns nm len ie of None \<Rightarrow> None
               | Some c \<Rightarrow> if joinsNodes c then Some c else None)
           = (case (nm (ie_source (snd ie)), nm (ie_target (snd ie))) of
                (Some i, Some j) \<Rightarrow>
                  Some (new_GEdge (NodeRef i) (NodeRef j) ''imports'' ''#39d2c0''
                          (real len * 0.1 + real (fst ie) * 0.12))
              | _ \<Rightarrow> None)" for ns
    by (cases "nm (ie_source (snd ie))"; cases "nm (ie_target (snd ie))")
       (simp_all add: crossEdge_def lookupNode_def joinsNodes_def new_GEdge_def)
  show ?thesis by (simp only: one)
qed

lemma forceLayout_node_edges_rnd:
  "filter joinsNodes (edges (forceLayout g W H rnd))
   = filter joinsNodes (edges (forceLayout g W H rnd'))"
proof (cases g)
  case None
  then show ?thesis by (simp add: forceLayout_absent)
next
  case (Some gr)
  show ?thesis
  proof (cases "g_modules gr")
    case None
    with Some show ?thesis by (simp add: forceLayout_absent)
  next
    case m: (Some mods)
    from sameBuild_buildGraph [of mods W H rnd rnd']
    have e: "b_edges (buildGraph mods W H rnd) = b_edges (buildGraph mods W H rnd')"
      and nm: "b_nodeMap (buildGraph mods W H rnd) = b_nodeMap (buildGraph mods W H rnd')"
      by (simp_all add: sameBuild_def)
    have k: "(\<lambda>ie. case crossEdge (nodes (forceLayout (Some gr) W H rnd))
                        (b_nodeMap (buildGraph mods W H rnd')) (length mods) ie of
                     None \<Rightarrow> None | Some c \<Rightarrow> if joinsNodes c then Some c else None)
           = (\<lambda>ie. case crossEdge (nodes (forceLayout (Some gr) W H rnd'))
                        (b_nodeMap (buildGraph mods W H rnd')) (length mods) ie of
                     None \<Rightarrow> None | Some c \<Rightarrow> if joinsNodes c then Some c else None)"
      by (rule ext) (rule crossEdge_joinsNodes)
    show ?thesis
      unfolding Some forceLayout_present(2) [OF m] filter_append filter_map_filter e nm k
      by (rule refl)
  qed
qed

text \<open>
  All edges, when no node is named \<^verbatim>\<open>__proto__\<close>: \<^verbatim>\<open>nodeMap\<close> then inherits from
  \<^verbatim>\<open>Object.prototype\<close> only.
\<close>

lemma inherited_plain:
  "nm ''__proto__'' = None \<Longrightarrow> inherited ns nm k = (k \<in> set Object_prototype_keys)"
  by (simp add: inherited_def)

lemma crossEdge_plain:
  "nm ''__proto__'' = None \<Longrightarrow> crossEdge ns nm len ie = crossEdge ns' nm len ie"
  by (simp add: crossEdge_def lookupNode_def inherited_plain)

lemma forceLayout_edges_rnd:
  assumes "''__proto__'' \<notin> set (map n_id (nodes (forceLayout g W H rnd)))"
  shows "edges (forceLayout g W H rnd) = edges (forceLayout g W H rnd')"
proof (cases g)
  case None
  then show ?thesis by (simp add: forceLayout_absent)
next
  case (Some gr)
  show ?thesis
  proof (cases "g_modules gr")
    case None
    with Some show ?thesis by (simp add: forceLayout_absent)
  next
    case m: (Some mods)
    from sameBuild_buildGraph [of mods W H rnd rnd']
    have e: "b_edges (buildGraph mods W H rnd) = b_edges (buildGraph mods W H rnd')"
      and nm: "b_nodeMap (buildGraph mods W H rnd) = b_nodeMap (buildGraph mods W H rnd')"
      by (simp_all add: sameBuild_def)
    from assms have "''__proto__'' \<notin> dom (b_nodeMap (buildGraph mods W H rnd))"
      unfolding Some forceLayout_ids [OF m] .
    then have none: "b_nodeMap (buildGraph mods W H rnd') ''__proto__'' = None"
      unfolding nm by blast
    have k: "crossEdge (nodes (forceLayout (Some gr) W H rnd))
                 (b_nodeMap (buildGraph mods W H rnd')) (length mods)
             = crossEdge (nodes (forceLayout (Some gr) W H rnd'))
                 (b_nodeMap (buildGraph mods W H rnd')) (length mods)"
      by (rule ext) (rule crossEdge_plain [where nm = "b_nodeMap (buildGraph mods W H rnd')", OF none])
    show ?thesis
      unfolding Some forceLayout_present(2) [OF m] e nm k by (rule refl)
  qed
qed

text \<open>
  Claim C6. Two runs of \<^verbatim>\<open>forceLayout\<close> on the same input and canvas produce the same
  final target coordinates for every node. The only thing a run draws at random is the
  pulse phase of each node (\<^verbatim>\<open>Math.random()\<close> in the \<^verbatim>\<open>GNode\<close> constructor): whatever
  the two runs draw (\<open>rnd\<close>, \<open>rnd'\<close>), the nodes agree in every field but \<^verbatim>\<open>pulse\<close>,
  in particular in id and target position, and the edges between nodes are the same;
  when no node is named \<^verbatim>\<open>__proto__\<close>, all edges are the same. (With a module of that
  name an import entry can name the property \<^verbatim>\<open>pulse\<close> of its node, whose value is
  drawn at random: lemma \<open>pulse_edge_depends_on_random\<close>.)
\<close>

theorem layout_deterministic:
  "map unpulsed (nodes (forceLayout g W H rnd)) = map unpulsed (nodes (forceLayout g W H rnd'))
   \<and> map (\<lambda>n. (n_id n, n_tx n, n_ty n)) (nodes (forceLayout g W H rnd))
     = map (\<lambda>n. (n_id n, n_tx n, n_ty n)) (nodes (forceLayout g W H rnd'))
   \<and> filter joinsNodes (edges (forceLayout g W H rnd))
     = filter joinsNodes (edges (forceLayout g W H rnd'))
   \<and> (''__proto__'' \<notin> set (map n_id (nodes (forceLayout g W H rnd))) \<longrightarrow>
        edges (forceLayout g W H rnd) = edges (forceLayout g W H rnd'))"
proof -
  let ?f = "\<lambda>n. (n_id n, n_tx n, n_ty n)"
  have proj: "map ?f ns = map ?f (map unpulsed ns)" for ns
    by (simp add: comp_def unpulsed_def)
  have same: "map unpulsed (nodes (forceLayout g W H rnd))
            = map unpulsed (nodes (forceLayout g W H rnd'))"
    by (rule forceLayout_unpulsed)
  have "map ?f (nodes (forceLayout g W H rnd))
      = map ?f (map unpulsed (nodes (forceLayout g W H rnd)))"
    by (rule proj)
  also have "\<dots> = map ?f (map unpulsed (nodes (forceLayout g W H rnd')))"
    by (simp only: same)
  also have "\<dots> = map ?f (nodes (forceLayout g W H rnd'))"
    by (rule proj [symmetric])
  finally show ?thesis
    using same forceLayout_node_edges_rnd [of g W H rnd rnd']
      forceLayout_edges_rnd [of g W H rnd rnd'] by simp
qed



section \<open>The layout on concrete graphs\<close>

lemmas build_eval =
  buildGraph_def addModules_def addModule_def addChildren_def addChild_def children_def
  childId_def orEmpty_def Let_def emptyBuild_def new_GNode_def new_GEdge_def
  enumerate_eq_zip upt_rec nodeFacts_def edgeFacts_def

lemma nth_nodeFacts:
  assumes "map nodeFacts ns = fs" "k < length fs"
  shows "n_id (ns ! k) = fst (fs ! k)" "n_type (ns ! k) = fst (snd (fs ! k))"
    "n_delay (ns ! k) = snd (snd (fs ! k))"
proof -
  from assms have "nodeFacts (ns ! k) = fs ! k" by (metis length_map nth_map)
  then have "fs ! k = nodeFacts (ns ! k)" by simp
  then show "n_id (ns ! k) = fst (fs ! k)" "n_type (ns ! k) = fst (snd (fs ! k))"
    "n_delay (ns ! k) = snd (snd (fs ! k))"
    by (simp_all add: nodeFacts_def)
qed

lemma nth_edgeFacts:
  assumes "map edgeFacts es = fs" "k < length fs"
  shows "e_label (es ! k) = fst (fs ! k)" "e_delay (es ! k) = snd (fs ! k)"
proof -
  from assms have "edgeFacts (es ! k) = fs ! k" by (metis length_map nth_map)
  then have "fs ! k = edgeFacts (es ! k)" by simp
  then show "e_label (es ! k) = fst (fs ! k)" "e_delay (es ! k) = snd (fs ! k)"
    by (simp_all add: edgeFacts_def)
qed

lemma scenario_build:
  "map nodeFacts (b_nodes (buildGraph
      [\<lparr>mod_module = ''a.py'', mod_functions = Some [''f''], mod_classes = Some []\<rparr>,
       \<lparr>mod_module = ''b.py'', mod_functions = Some [], mod_classes = Some [''C'']\<rparr>] W H rnd))
   = [(''a.py'', Module, 0), (''b.py'', Module, 0.1),
      (''a.py::f'', Function, 0.06), (''b.py::C'', Class, 0.16)]"
  "map (\<lambda>e. (e_src e, e_tgt e, e_label e)) (b_edges (buildGraph
      [\<lparr>mod_module = ''a.py'', mod_functions = Some [''f''], mod_classes = Some []\<rparr>,
       \<lparr>mod_module = ''b.py'', mod_functions = Some [], mod_classes = Some [''C'']\<rparr>] W H rnd))
   = [(NodeRef 0, NodeRef 2, []), (NodeRef 1, NodeRef 3, [])]"
  "b_nodeMap (buildGraph
      [\<lparr>mod_module = ''a.py'', mod_functions = Some [''f''], mod_classes = Some []\<rparr>,
       \<lparr>mod_module = ''b.py'', mod_functions = Some [], mod_classes = Some [''C'']\<rparr>] W H rnd)
   = [''a.py'' \<mapsto> 0, ''b.py'' \<mapsto> 1, ''a.py::f'' \<mapsto> 2, ''b.py::C'' \<mapsto> 3]"
  by (simp_all add: build_eval eval_nat_numeral)

lemma scenario_result:
  "map nodeFacts (nodes (forceLayout (Some scenarioGraph) W H rnd))
   = [(''a.py'', Module, 0), (''b.py'', Module, 0.1),
      (''a.py::f'', Function, 0.06), (''b.py::C'', Class, 0.16)]"
  "map (\<lambda>e. (e_src e, e_tgt e, e_label e)) (edges (forceLayout (Some scenarioGraph) W H rnd))
   = [(NodeRef 0, NodeRef 2, []), (NodeRef 1, NodeRef 3, []), (NodeRef 0, NodeRef 1, ''imports'')]"
proof -
  have m: "g_modules scenarioGraph = Some
      [\<lparr>mod_module = ''a.py'', mod_functions = Some [''f''], mod_classes = Some []\<rparr>,
       \<lparr>mod_module = ''b.py'', mod_functions = Some [], mod_classes = Some [''C'']\<rparr>]"
    by (simp add: scenarioGraph_def)
  show "map nodeFacts (nodes (forceLayout (Some scenarioGraph) W H rnd))
   = [(''a.py'', Module, 0), (''b.py'', Module, 0.1),
      (''a.py::f'', Function, 0.06), (''b.py::C'', Class, 0.16)]"
    unfolding forceLayout_nodeFacts(1) [OF m] by (rule scenario_build(1))
  show "map (\<lambda>e. (e_src e, e_tgt e, e_label e)) (edges (forceLayout (Some scenarioGraph) W H rnd))
   = [(NodeRef 0, NodeRef 2, []), (NodeRef 1, NodeRef 3, []), (NodeRef 0, NodeRef 1, ''imports'')]"
    unfolding forceLayout_present(2) [OF m] map_append scenario_build(2,3)
    by (simp add: scenarioGraph_def orEmpty_def List.map_filter_simps crossEdge_def
        lookupNode_def new_GEdge_def)
qed

text \<open>A module named \<^verbatim>\<open>__proto__\<close>.\<close>

lemma applyFinal_pulse:
  "k < length ns \<Longrightarrow> n_pulse (applyFinal ns ps ! k) = n_pulse (ns ! k)"
  by (simp add: applyFinal_def)

lemma proto_build:
  "map nodeFacts (b_nodes (buildGraph
      [\<lparr>mod_module = ''__proto__'', mod_functions = None, mod_classes = None\<rparr>] W H rnd))
   = [(''__proto__'', Module, 0)]"
  "n_pulse (b_nodes (buildGraph
      [\<lparr>mod_module = ''__proto__'', mod_functions = None, mod_classes = None\<rparr>] W H rnd) ! 0)
   = rnd 0 * 6"
  "b_edges (buildGraph
      [\<lparr>mod_module = ''__proto__'', mod_functions = None, mod_classes = None\<rparr>] W H rnd) = []"
  "b_nodeMap (buildGraph
      [\<lparr>mod_module = ''__proto__'', mod_functions = None, mod_classes = None\<rparr>] W H rnd)
   = [''__proto__'' \<mapsto> 0]"
  by (simp_all add: build_eval)

lemma proto_node:
  assumes "g_modules gr = Some [\<lparr>mod_module = ''__proto__'', mod_functions = None, mod_classes = None\<rparr>]"
  shows "n_id (nodes (forceLayout (Some gr) W H rnd) ! 0) = ''__proto__''"
    and "n_pulse (nodes (forceLayout (Some gr) W H rnd) ! 0) = rnd 0 * 6"
proof -
  let ?mods = "[\<lparr>mod_module = ''__proto__'', mod_functions = None, mod_classes = None\<rparr>]"
  have "map nodeFacts (nodes (forceLayout (Some gr) W H rnd)) = [(''__proto__'', Module, 0)]"
    unfolding forceLayout_nodeFacts(1) [OF assms] by (rule proto_build(1))
  from nth_nodeFacts(1) [OF this, of 0]
  show "n_id (nodes (forceLayout (Some gr) W H rnd) ! 0) = ''__proto__''" by simp
  have "length (map nodeFacts (b_nodes (buildGraph ?mods W H rnd))) = 1"
    unfolding proto_build(1) by simp
  then have "0 < length (b_nodes (buildGraph ?mods W H rnd))" by simp
  then show "n_pulse (nodes (forceLayout (Some gr) W H rnd) ! 0) = rnd 0 * 6"
    unfolding forceLayout_present(1) [OF assms] by (simp add: applyFinal_pulse proto_build(2))
qed

text \<open>
  With a module named \<^verbatim>\<open>__proto__\<close> the name \<^verbatim>\<open>id\<close> resolves, to the id of the node of
  that module, and an import entry from \<^verbatim>\<open>id\<close> is kept.
\<close>

lemma proto_module_inherits:
  "map (\<lambda>e. (e_src e, e_tgt e, e_label e)) (edges (forceLayout (Some protoModule) 800 600 (\<lambda>k. 0)))
     = [(Inherited ''id'', NodeRef 0, ''imports'')]"
proof -
  have m: "g_modules protoModule
      = Some [\<lparr>mod_module = ''__proto__'', mod_functions = None, mod_classes = None\<rparr>]"
    by (simp add: protoModule_def)
  have es: "orEmpty (g_edges protoModule) = [\<lparr>ie_source = ''id'', ie_target = ''__proto__''\<rparr>]"
    by (simp add: protoModule_def orEmpty_def)
  show ?thesis
    unfolding forceLayout_present(2) [OF m] proto_build(3,4) es
    by (simp add: List.map_filter_simps crossEdge_def lookupNode_def
        inherited_def GNode_properties_def proto_node(1) [OF m] new_GEdge_def)
qed

text \<open>
  The name \<^verbatim>\<open>pulse\<close> then resolves when the pulse phase drawn for that node is not 0.
\<close>

lemma pulse_edge_depends_on_random:
  "edges (forceLayout (Some protoPulse) 800 600 (\<lambda>k. 0)) = []"
  "map (\<lambda>e. (e_src e, e_tgt e, e_label e)) (edges (forceLayout (Some protoPulse) 800 600 (\<lambda>k. 1 / 2)))
     = [(Inherited ''pulse'', NodeRef 0, ''imports'')]"
proof -
  have m: "g_modules protoPulse
      = Some [\<lparr>mod_module = ''__proto__'', mod_functions = None, mod_classes = None\<rparr>]"
    by (simp add: protoPulse_def)
  have es: "orEmpty (g_edges protoPulse) = [\<lparr>ie_source = ''pulse'', ie_target = ''__proto__''\<rparr>]"
    by (simp add: protoPulse_def orEmpty_def)
  show "edges (forceLayout (Some protoPulse) 800 600 (\<lambda>k. 0)) = []"
    unfolding forceLayout_present(2) [OF m] proto_build(3,4) es
    by (simp add: List.map_filter_simps crossEdge_def lookupNode_def
        inherited_def GNode_properties_def proto_node(2) [OF m] new_GEdge_def)
  show "map (\<lambda>e. (e_src e, e_tgt e, e_label e)) (edges (forceLayout (Some protoPulse) 800 600 (\<lambda>k. 1 / 2)))
     = [(Inherited ''pulse'', NodeRef 0, ''imports'')]"
    unfolding forceLayout_present(2) [OF m] proto_build(3,4) es
    by (simp add: List.map_filter_simps crossEdge_def lookupNode_def
        inherited_def GNode_properties_def proto_node(2) [OF m] new_GEdge_def)
qed

text \<open>The two runs of claim C6 on the scenario input, with different pulse phases.\<close>

theorem layout_deterministic_witness:
  "''__proto__'' \<notin> set (map n_id (nodes (forceLayout (Some scenarioGraph) 800 600 (\<lambda>k. 0))))
   \<and> edges (forceLayout (Some scenarioGraph) 800 600 (\<lambda>k. 0))
     = edges (forceLayout (Some scenarioGraph) 800 600 (\<lambda>k. 1 / 2))
   \<and> map (\<lambda>n. (n_id n, n_tx n, n_ty n)) (nodes (forceLayout (Some scenarioGraph) 800 600 (\<lambda>k. 0)))
     = map (\<lambda>n. (n_id n, n_tx n, n_ty n)) (nodes (forceLayout (Some scenarioGraph) 800 600 (\<lambda>k. 1 / 2)))"
proof -
  let ?L = "forceLayout (Some scenarioGraph) 800 600 (\<lambda>k. 0)"
  have "map fst (map nodeFacts (nodes ?L)) = [''a.py'', ''b.py'', ''a.py::f'', ''b.py::C'']"
    unfolding scenario_result(1) by simp
  then have ids: "map n_id (nodes ?L) = [''a.py'', ''b.py'', ''a.py::f'', ''b.py::C'']"
    by (simp add: nodeFacts_def comp_def)
  have no: "''__proto__'' \<notin> set (map n_id (nodes ?L))"
    unfolding ids by simp
  with layout_deterministic [of "Some scenarioGraph" 800 600 "\<lambda>k. 0" "\<lambda>k. 1 / 2"]
  show ?thesis by blast
qed

text \<open>The scenario of claim C4.\<close>

lemma scenarioJson_typed:
  "forceLayout_json (Some scenarioJson) W H rnd = Inr (forceLayout (Some scenarioGraph) W H rnd)"
  by (simp add: forceLayout_json_def scenarioJson_def scenarioGraph_def)

lemma forceLayout_json_total:
  assumes "\<forall>m\<in>set ms. mj_module m \<noteq> None"
  shows "\<exists>mods. readModules ms = Inr mods \<and> length mods = length ms"
  using assms by (induction ms) (auto split: option.splits sum.splits)

text \<open>
  On a canvas less than 80 wide the clamp \<^verbatim>\<open>Math.max(40, Math.min(W - 40, x))\<close> puts
  every node at \<open>x = 40\<close>.
\<close>

lemma applyVelocity_clamped:
  "fst (fst (applyVelocity W H p v)) = max 40 (min (W - 40) (fst p + fst v * DAMPING))"
  "snd (fst (applyVelocity W H p v)) = max 40 (min (H - 40) (snd p + snd v * DAMPING))"
  by (simp_all add: applyVelocity_def Let_def margin_def)

lemma simulate_small_canvas:
  assumes "W \<le> 80" "p \<in> set (simulate ns es W H)"
  shows "fst p = 40"
proof -
  have "(80::nat) = Suc 79" by simp
  then have "(iteration ns es W H ^^ 80) pv
           = iteration ns es W H ((iteration ns es W H ^^ 79) pv)" for pv
    by (simp only: funpow.simps o_apply)
  with assms(2) obtain ps vs where "p \<in> set (fst (integrate W H ps vs))"
    by (auto simp: simulate_def iteration_def Let_def)
  then obtain i where "p = fst (applyVelocity W H (ps ! i) (vs ! i))"
    unfolding integrate_def by fastforce
  with assms(1) show ?thesis
    by (simp add: applyVelocity_clamped)
qed

lemma forceLayout_small_canvas:
  assumes "W \<le> 80" "n \<in> set (nodes (forceLayout g W H rnd))"
  shows "n_tx n = 40"
proof (cases g)
  case None
  with assms(2) show ?thesis by (simp add: forceLayout_absent)
next
  case (Some gr)
  show ?thesis
  proof (cases "g_modules gr")
    case None
    with Some assms(2) show ?thesis by (simp add: forceLayout_absent)
  next
    case m: (Some mods)
    let ?b = "buildGraph mods W H rnd"
    from assms(2)
    have "n \<in> set (applyFinal (b_nodes ?b) (simulate (b_nodes ?b) (b_edges ?b) W H))"
      unfolding Some forceLayout_present(1) [OF m] .
    then have "(n_tx n, n_ty n) \<in> set (simulate (b_nodes ?b) (b_edges ?b) W H)"
      by (rule applyFinal_target [OF length_simulate])
    from simulate_small_canvas [OF assms(1) this] show ?thesis by simp
  qed
qed

lemma small_canvas_outside:
  "n_id (nodes (forceLayout (Some scenarioGraph) 30 30 (\<lambda>k. 0)) ! 0) = ''a.py''
   \<and> n_tx (nodes (forceLayout (Some scenarioGraph) 30 30 (\<lambda>k. 0)) ! 0) = 40
   \<and> \<not> n_tx (nodes (forceLayout (Some scenarioGraph) 30 30 (\<lambda>k. 0)) ! 0) \<le> 30"
proof -
  let ?L = "forceLayout (Some scenarioGraph) 30 30 (\<lambda>k. 0)"
  have "length (map nodeFacts (nodes ?L)) = 4"
    unfolding scenario_result(1) by simp
  then have "nodes ?L ! 0 \<in> set (nodes ?L)" by simp
  then have "n_tx (nodes ?L ! 0) = 40"
    by (intro forceLayout_small_canvas [where W = 30]) simp_all
  moreover have "n_id (nodes ?L ! 0) = ''a.py''"
    using nth_nodeFacts(1) [OF scenario_result(1), of 0 30 30 "\<lambda>k. 0"] by simp
  ultimately show ?thesis by simp
qed

text \<open>
  Claim C4, as stated: the modules of the input carry their path under the key
  \<^verbatim>\<open>path\<close>. \<^verbatim>\<open>forceLayout\<close> reads \<^verbatim>\<open>mod.module\<close>, which these module objects do not
  have, and throws a \<^verbatim>\<open>TypeError\<close> in step 1: it returns no nodes and no edges.
\<close>

theorem scenario_with_path_keys_throws:
  "map mj_path (orEmpty (gj_modules scenarioAsStated)) = [Some ''a.py'', Some ''b.py'']
   \<and> map mj_module (orEmpty (gj_modules scenarioAsStated)) = [None, None]
   \<and> forceLayout_json (Some scenarioAsStated) 800 600 (\<lambda>k. 0) = Inl TypeError"
  by (simp add: forceLayout_json_def scenarioAsStated_def orEmpty_def)

text \<open>
  Claim C4, amended. For the input with the modules \<^verbatim>\<open>a.py\<close> (function \<^verbatim>\<open>f\<close>) and
  \<^verbatim>\<open>b.py\<close> (class \<^verbatim>\<open>C\<close>), their paths under the key \<^verbatim>\<open>module\<close>, and the import edge
  from \<^verbatim>\<open>a.py\<close> to \<^verbatim>\<open>b.py\<close>, on a canvas of at least 80 by 80, \<^verbatim>\<open>forceLayout\<close> returns
  exactly the four nodes \<^verbatim>\<open>a.py\<close>, \<^verbatim>\<open>b.py\<close>, \<^verbatim>\<open>a.py::f\<close>, \<^verbatim>\<open>b.py::C\<close> and exactly three
  edges: the two parent-child edges (module to member, with the empty label) and one
  cross-module edge (labelled \<^verbatim>\<open>imports\<close>); every final node position is within the
  canvas, inside its margins, after the 80 iterations.
\<close>

theorem scenario_layout:
  assumes "80 \<le> W" "80 \<le> H"
  shows "forceLayout_json (Some scenarioJson) W H rnd
           = Inr (forceLayout (Some scenarioGraph) W H rnd)
       \<and> map n_id (nodes (forceLayout (Some scenarioGraph) W H rnd))
           = [''a.py'', ''b.py'', ''a.py::f'', ''b.py::C'']
       \<and> map n_type (nodes (forceLayout (Some scenarioGraph) W H rnd))
           = [Module, Module, Function, Class]
       \<and> map (\<lambda>e. (e_src e, e_tgt e, e_label e)) (edges (forceLayout (Some scenarioGraph) W H rnd))
           = [(NodeRef 0, NodeRef 2, []), (NodeRef 1, NodeRef 3, []),
              (NodeRef 0, NodeRef 1, ''imports'')]
       \<and> (\<forall>n\<in>set (nodes (forceLayout (Some scenarioGraph) W H rnd)).
             inBounds W H (n_tx n, n_ty n) \<and> 0 \<le> n_tx n \<and> n_tx n \<le> W \<and> 0 \<le> n_ty n \<and> n_ty n \<le> H)"
proof -
  let ?L = "forceLayout (Some scenarioGraph) W H rnd"
  have "map (\<lambda>n. fst (nodeFacts n)) (nodes ?L) = map fst (map nodeFacts (nodes ?L))"
    and "map (\<lambda>n. fst (snd (nodeFacts n))) (nodes ?L) = map (\<lambda>f. fst (snd f)) (map nodeFacts (nodes ?L))"
    by (simp_all add: comp_def)
  then have "map n_id (nodes ?L) = [''a.py'', ''b.py'', ''a.py::f'', ''b.py::C'']"
    and "map n_type (nodes ?L) = [Module, Module, Function, Class]"
    unfolding scenario_result(1) by (simp_all add: nodeFacts_def)
  moreover have "inBounds W H (n_tx n, n_ty n) \<and> 0 \<le> n_tx n \<and> n_tx n \<le> W \<and> 0 \<le> n_ty n \<and> n_ty n \<le> H"
    if "n \<in> set (nodes ?L)" for n
    using forceLayout_inBounds [OF assms that] by (simp add: inBounds_def)
  ultimately show ?thesis
    using scenario_result(2) [of W H rnd] scenarioJson_typed [of W H rnd] by blast
qed

theorem scenario_layout_witness:
  "(80::real) \<le> 800 \<and> (80::real) \<le> 600
   \<and> forceLayout_json (Some scenarioJson) 800 600 (\<lambda>k. 0)
       = Inr (forceLayout (Some scenarioGraph) 800 600 (\<lambda>k. 0))
   \<and> length (nodes (forceLayout (Some scenarioGraph) 800 600 (\<lambda>k. 0))) = 4
   \<and> length (edges (forceLayout (Some scenarioGraph) 800 600 (\<lambda>k. 0))) = 3
   \<and> n_id (nodes (forceLayout (Some scenarioGraph) 800 600 (\<lambda>k. 0)) ! 3) = ''b.py::C''
   \<and> inBounds 800 600 (n_tx (nodes (forceLayout (Some scenarioGraph) 800 600 (\<lambda>k. 0)) ! 3),
                        n_ty (nodes (forceLayout (Some scenarioGraph) 800 600 (\<lambda>k. 0)) ! 3))"
proof -
  let ?L = "forceLayout (Some scenarioGraph) 800 600 (\<lambda>k. 0)"
  note th = scenario_layout [of 800 600 "\<lambda>k. 0"]
  have js: "forceLayout_json (Some scenarioJson) 800 600 (\<lambda>k. 0) = Inr ?L"
    using th by simp
  have ids: "map n_id (nodes ?L) = [''a.py'', ''b.py'', ''a.py::f'', ''b.py::C'']"
    using th by simp
  have "length (map n_id (nodes ?L)) = 4" unfolding ids by simp
  then have len: "length (nodes ?L) = 4" by simp
  have "nodes ?L ! 3 \<in> set (nodes ?L)" using len by simp
  moreover have "\<forall>n\<in>set (nodes ?L). inBounds 800 600 (n_tx n, n_ty n)"
    using th by simp
  ultimately have "inBounds 800 600 (n_tx (nodes ?L ! 3), n_ty (nodes ?L ! 3))" by blast
  moreover have "map n_id (nodes ?L) ! 3 = ''b.py::C''"
    unfolding ids by simp
  then have "n_id (nodes ?L ! 3) = ''b.py::C''"
    using len by simp
  moreover have "length (map (\<lambda>e. (e_src e, e_tgt e, e_label e)) (edges ?L)) = 3"
    using th by simp
  then have "length (edges ?L) = 3" by simp
  ultimately show ?thesis using len js by simp
qed

text \<open>
  Claim C5. On a canvas of width \<open>W \<ge> 80\<close> and height \<open>H \<ge> 80\<close>, for every input
  graph, every node's final target position lies in \<open>[40, W - 40]\<close> on the x axis and in
  \<open>[40, H - 40]\<close> on the y axis after the 80 iterations.
\<close>

theorem layout_in_bounds:
  assumes "80 \<le> W" "80 \<le> H"
  shows "\<forall>n\<in>set (nodes (forceLayout g W H rnd)).
           40 \<le> n_tx n \<and> n_tx n \<le> W - 40 \<and> 40 \<le> n_ty n \<and> n_ty n \<le> H - 40"
  using forceLayout_inBounds [OF assms] by (simp add: inBounds_def)

theorem layout_in_bounds_witness:
  "(80::real) \<le> 640 \<and> (80::real) \<le> 480
   \<and> length (nodes (forceLayout (Some twoFunctions) 640 480 (\<lambda>k. 1 / 2))) = 3
   \<and> 40 \<le> n_tx (nodes (forceLayout (Some twoFunctions) 640 480 (\<lambda>k. 1 / 2)) ! 2)
   \<and> n_tx (nodes (forceLayout (Some twoFunctions) 640 480 (\<lambda>k. 1 / 2)) ! 2) \<le> 600
   \<and> 40 \<le> n_ty (nodes (forceLayout (Some twoFunctions) 640 480 (\<lambda>k. 1 / 2)) ! 2)
   \<and> n_ty (nodes (forceLayout (Some twoFunctions) 640 480 (\<lambda>k. 1 / 2)) ! 2) \<le> 440"
proof -
  let ?L = "forceLayout (Some twoFunctions) 640 480 (\<lambda>k. 1 / 2)"
  have m: "g_modules twoFunctions = Some
      [\<lparr>mod_module = ''a.py'', mod_functions = Some [''f'', ''g''], mod_classes = None\<rparr>]"
    by (simp add: twoFunctions_def)
  have len: "length (nodes ?L) = 3"
    unfolding forceLayout_nodeFacts(2) [OF m] by (simp add: build_eval)
  then have "nodes ?L ! 2 \<in> set (nodes ?L)" by simp
  with layout_in_bounds [of 640 480 "Some twoFunctions" "\<lambda>k. 1 / 2"] len
  show ?thesis by simp
qed


section \<open>Start delays and import edges\<close>

lemma length_childList:
  "length (childList f (enumerate 0 mods)) = childrenBefore mods (length mods)"
proof -
  have "map (\<lambda>im. length (children (snd im))) (enumerate 0 mods) = map (\<lambda>m. length (children m)) mods"
    by (rule map_enumerate_snd)
  then have "length (childList f (enumerate 0 mods)) = sum_list (map (\<lambda>m. length (children m)) mods)"
    by (simp add: childList_def length_concat comp_def)
  also have "\<dots> = (\<Sum>k<length mods. length (children (mods ! k)))"
    by (simp add: sum_list_sum_nth atLeast0LessThan)
  finally show ?thesis by (simp add: childrenBefore_def)
qed

lemma buildGraph_lengths:
  "length (b_nodes (buildGraph mods W H rnd)) = length mods + childrenBefore mods (length mods)"
  "length (b_edges (buildGraph mods W H rnd)) = childrenBefore mods (length mods)"
proof -
  have "length (map nodeFacts (b_nodes (buildGraph mods W H rnd))) = length mods + childrenBefore mods (length mods)"
    unfolding buildGraph_facts(1) by (simp add: length_childList)
  then show "length (b_nodes (buildGraph mods W H rnd)) = length mods + childrenBefore mods (length mods)"
    by simp
  have "length (map edgeFacts (b_edges (buildGraph mods W H rnd))) = childrenBefore mods (length mods)"
    unfolding buildGraph_facts(2) by (simp add: length_childList)
  then show "length (b_edges (buildGraph mods W H rnd)) = childrenBefore mods (length mods)"
    by simp
qed

lemma crossEdge_delay:
  "crossEdge ns nm len (k, e) = Some c \<Longrightarrow>
     e_label c = ''imports'' \<and> e_delay c = real len * 0.1 + real k * 0.12"
  by (auto simp: crossEdge_def new_GEdge_def split: option.splits)

lemma module_node_facts:
  assumes "g_modules gr = Some mods" "i < length mods"
  shows "n_id (nodes (forceLayout (Some gr) W H rnd) ! i) = mod_module (mods ! i)"
    and "n_type (nodes (forceLayout (Some gr) W H rnd) ! i) = Module"
    and "n_delay (nodes (forceLayout (Some gr) W H rnd) ! i) = real i * 0.1"
proof -
  let ?fs = "map (\<lambda>im. (mod_module (snd im), Module, real (fst im) * 0.1)) (enumerate 0 mods)
     @ childList childNodeFacts (enumerate 0 mods)"
  have facts: "map nodeFacts (nodes (forceLayout (Some gr) W H rnd)) = ?fs"
    unfolding forceLayout_nodeFacts(1) [OF assms(1)] by (rule buildGraph_facts(1))
  have i: "i < length ?fs" using assms(2) by simp
  have "?fs ! i = (mod_module (mods ! i), Module, real i * 0.1)"
    using assms(2) by (simp add: nth_append nth_enumerate_eq)
  with nth_nodeFacts [OF facts i]
  show "n_id (nodes (forceLayout (Some gr) W H rnd) ! i) = mod_module (mods ! i)"
    and "n_type (nodes (forceLayout (Some gr) W H rnd) ! i) = Module"
    and "n_delay (nodes (forceLayout (Some gr) W H rnd) ! i) = real i * 0.1"
    by simp_all
qed

lemma child_node_facts:
  assumes "g_modules gr = Some mods" "i < length mods" "j < length (children (mods ! i))"
  shows "n_id (nodes (forceLayout (Some gr) W H rnd) ! childIndex mods i j)
           = childId (mods ! i) (fst (children (mods ! i) ! j))"
    and "n_type (nodes (forceLayout (Some gr) W H rnd) ! childIndex mods i j)
           = snd (children (mods ! i) ! j)"
    and "n_delay (nodes (forceLayout (Some gr) W H rnd) ! childIndex mods i j)
           = real i * 0.1 + (real j + 1) * 0.06"
proof -
  let ?ms = "map (\<lambda>im. (mod_module (snd im), Module, real (fst im) * 0.1)) (enumerate 0 mods)"
  let ?fs = "?ms @ childList childNodeFacts (enumerate 0 mods)"
  have facts: "map nodeFacts (nodes (forceLayout (Some gr) W H rnd)) = ?fs"
    unfolding forceLayout_nodeFacts(1) [OF assms(1)] by (rule buildGraph_facts(1))
  note c = nth_childList [OF assms(2,3), of childNodeFacts]
  have k: "childIndex mods i j < length ?fs"
    using c(2) by (simp add: childIndex_def)
  have "?fs ! childIndex mods i j = childList childNodeFacts (enumerate 0 mods) ! (childrenBefore mods i + j)"
    by (simp add: nth_append childIndex_def)
  then have "?fs ! childIndex mods i j = childNodeFacts i (mods ! i) j (children (mods ! i) ! j)"
    unfolding c(1) .
  with nth_nodeFacts [OF facts k]
  show "n_id (nodes (forceLayout (Some gr) W H rnd) ! childIndex mods i j)
           = childId (mods ! i) (fst (children (mods ! i) ! j))"
    and "n_type (nodes (forceLayout (Some gr) W H rnd) ! childIndex mods i j)
           = snd (children (mods ! i) ! j)"
    and "n_delay (nodes (forceLayout (Some gr) W H rnd) ! childIndex mods i j)
           = real i * 0.1 + (real j + 1) * 0.06"
    by (simp_all add: childNodeFacts_def)
qed

lemma child_edge_facts:
  assumes "g_modules gr = Some mods" "i < length mods" "j < length (children (mods ! i))"
  shows "e_tgt (edges (forceLayout (Some gr) W H rnd) ! (childIndex mods i j - length mods))
           = NodeRef (childIndex mods i j)"
    and "e_label (edges (forceLayout (Some gr) W H rnd) ! (childIndex mods i j - length mods)) = []"
    and "e_delay (edges (forceLayout (Some gr) W H rnd) ! (childIndex mods i j - length mods))
           = real i * 0.1 + (real j + 1) * 0.08"
proof -
  let ?b = "buildGraph mods W H rnd"
  let ?t = "childrenBefore mods i + j"
  note c = nth_childList [OF assms(2,3), of childEdgeFacts]
  have t: "?t < length (b_edges ?b)"
    using c(2) by (simp add: buildGraph_lengths(2) length_childList)
  have idx: "childIndex mods i j - length mods = ?t" by (simp add: childIndex_def)
  have nth: "edges (forceLayout (Some gr) W H rnd) ! ?t = b_edges ?b ! ?t"
    unfolding forceLayout_present(2) [OF assms(1)] using t by (simp add: nth_append)
  have "map e_tgt (b_edges ?b) ! ?t = NodeRef (length mods + ?t)"
    unfolding buildGraph_targets using t
    by (simp add: buildGraph_lengths)
  then show "e_tgt (edges (forceLayout (Some gr) W H rnd) ! (childIndex mods i j - length mods))
           = NodeRef (childIndex mods i j)"
    unfolding idx nth using t by (simp add: childIndex_def)
  have t': "?t < length (childList childEdgeFacts (enumerate 0 mods))" by (rule c(2))
  from nth_edgeFacts [OF buildGraph_facts(2) t', of W H rnd] c(1)
  show "e_label (edges (forceLayout (Some gr) W H rnd) ! (childIndex mods i j - length mods)) = []"
    and "e_delay (edges (forceLayout (Some gr) W H rnd) ! (childIndex mods i j - length mods))
           = real i * 0.1 + (real j + 1) * 0.08"
    unfolding idx nth by (simp_all add: childEdgeFacts_def)
qed

lemma cross_edges:
  assumes "g_modules gr = Some mods"
  shows "drop (childrenBefore mods (length mods)) (edges (forceLayout (Some gr) W H rnd))
       = List.map_filter
           (crossEdge (nodes (forceLayout (Some gr) W H rnd))
              (b_nodeMap (buildGraph mods W H rnd)) (length mods))
           (enumerate 0 (orEmpty (g_edges gr)))"
    and "take (childrenBefore mods (length mods)) (edges (forceLayout (Some gr) W H rnd))
       = b_edges (buildGraph mods W H rnd)"
  unfolding forceLayout_present(2) [OF assms] by (simp_all add: buildGraph_lengths(2))

text \<open>
  Claim C8, amended. For every module index \<open>i\<close> and child index \<open>j\<close>: module node \<open>i\<close>
  has start delay \<open>i * 0.1\<close> s; its \<open>j\<close>-th child node has start delay
  \<open>i * 0.1 + (j + 1) * 0.06\<close> s; the parent-child edge to that child has start delay
  \<open>i * 0.1 + (j + 1) * 0.08\<close> s (the child's delay plus \<open>(j + 1) * 0.02\<close> s); and the
  cross-module edge built from entry \<open>k\<close> of \<^verbatim>\<open>edges[]\<close> has start delay
  \<open>moduleCount * 0.1 + k * 0.12\<close> s. The cross-module edges are the edges after the
  parent-child edges, one for each entry that \<^verbatim>\<open>crossEdge\<close> keeps, in input order.
\<close>

theorem start_delays:
  assumes "g_modules gr = Some mods"
  shows "(i < length mods \<longrightarrow>
            n_id (nodes (forceLayout (Some gr) W H rnd) ! i) = mod_module (mods ! i)
          \<and> n_delay (nodes (forceLayout (Some gr) W H rnd) ! i) = real i * 0.1)
       \<and> (i < length mods \<and> j < length (children (mods ! i)) \<longrightarrow>
            n_id (nodes (forceLayout (Some gr) W H rnd) ! childIndex mods i j)
              = childId (mods ! i) (fst (children (mods ! i) ! j))
          \<and> n_delay (nodes (forceLayout (Some gr) W H rnd) ! childIndex mods i j)
              = real i * 0.1 + (real j + 1) * 0.06
          \<and> e_tgt (edges (forceLayout (Some gr) W H rnd) ! (childIndex mods i j - length mods))
              = NodeRef (childIndex mods i j)
          \<and> e_delay (edges (forceLayout (Some gr) W H rnd) ! (childIndex mods i j - length mods))
              = real i * 0.1 + (real j + 1) * 0.08)
       \<and> drop (childrenBefore mods (length mods)) (edges (forceLayout (Some gr) W H rnd))
           = List.map_filter
               (crossEdge (nodes (forceLayout (Some gr) W H rnd))
                  (b_nodeMap (buildGraph mods W H rnd)) (length mods))
               (enumerate 0 (orEmpty (g_edges gr)))
       \<and> (crossEdge (nodes (forceLayout (Some gr) W H rnd))
             (b_nodeMap (buildGraph mods W H rnd)) (length mods) (k, e) = Some c \<longrightarrow>
            e_label c = ''imports'' \<and> e_delay c = real (length mods) * 0.1 + real k * 0.12)"
  using crossEdge_delay [of "nodes (forceLayout (Some gr) W H rnd)"
      "b_nodeMap (buildGraph mods W H rnd)" "length mods" k e c]
  by (simp add: module_node_facts [OF assms] child_node_facts [OF assms]
      child_edge_facts [OF assms] cross_edges(1) [OF assms])


lemma twoFunctions_result:
  "map nodeFacts (nodes (forceLayout (Some twoFunctions) W H rnd))
   = [(''a.py'', Module, 0), (''a.py::f'', Function, 0.06), (''a.py::g'', Function, 0.12)]"
  "map (\<lambda>e. (e_src e, e_tgt e, e_label e, e_delay e)) (edges (forceLayout (Some twoFunctions) W H rnd))
   = [(NodeRef 0, NodeRef 1, [], 0.08), (NodeRef 0, NodeRef 2, [], 0.16)]"
proof -
  have m: "g_modules twoFunctions = Some
      [\<lparr>mod_module = ''a.py'', mod_functions = Some [''f'', ''g''], mod_classes = None\<rparr>]"
    by (simp add: twoFunctions_def)
  show "map nodeFacts (nodes (forceLayout (Some twoFunctions) W H rnd))
   = [(''a.py'', Module, 0), (''a.py::f'', Function, 0.06), (''a.py::g'', Function, 0.12)]"
    unfolding forceLayout_nodeFacts(1) [OF m] by (simp add: build_eval)
  show "map (\<lambda>e. (e_src e, e_tgt e, e_label e, e_delay e)) (edges (forceLayout (Some twoFunctions) W H rnd))
   = [(NodeRef 0, NodeRef 1, [], 0.08), (NodeRef 0, NodeRef 2, [], 0.16)]"
    unfolding forceLayout_present(2) [OF m]
    by (simp add: build_eval twoFunctions_def List.map_filter_simps eval_nat_numeral)
qed

text \<open>
  Claim C8, as stated: the parent-child edge's delay is the child node's delay plus
  0.02 s. For the second function of a module (\<open>j = 1\<close>) the node starts at 0.12 s and
  the edge to it at 0.16 s, not at 0.14 s.
\<close>

theorem edge_delay_not_node_delay_plus:
  "n_id (nodes (forceLayout (Some twoFunctions) 800 600 (\<lambda>k. 0)) ! 2) = ''a.py::g''
   \<and> n_delay (nodes (forceLayout (Some twoFunctions) 800 600 (\<lambda>k. 0)) ! 2) = 0.12
   \<and> e_tgt (edges (forceLayout (Some twoFunctions) 800 600 (\<lambda>k. 0)) ! 1) = NodeRef 2
   \<and> e_delay (edges (forceLayout (Some twoFunctions) 800 600 (\<lambda>k. 0)) ! 1) = 0.16
   \<and> e_delay (edges (forceLayout (Some twoFunctions) 800 600 (\<lambda>k. 0)) ! 1)
       \<noteq> n_delay (nodes (forceLayout (Some twoFunctions) 800 600 (\<lambda>k. 0)) ! 2) + 0.02"
proof -
  let ?L = "forceLayout (Some twoFunctions) 800 600 (\<lambda>k. 0)"
  have n: "n_id (nodes ?L ! 2) = ''a.py::g''" "n_delay (nodes ?L ! 2) = 0.12"
    using nth_nodeFacts(1,3) [OF twoFunctions_result(1), of 2 800 600 "\<lambda>k. 0"] by simp_all
  have "map (\<lambda>e. (e_src e, e_tgt e, e_label e, e_delay e)) (edges ?L) ! 1 = (NodeRef 0, NodeRef 2, [], 0.16)"
    unfolding twoFunctions_result(2) by simp
  moreover have "length (map (\<lambda>e. (e_src e, e_tgt e, e_label e, e_delay e)) (edges ?L)) = 2"
    unfolding twoFunctions_result(2) by simp
  ultimately have e: "e_tgt (edges ?L ! 1) = NodeRef 2" "e_delay (edges ?L ! 1) = 0.16"
    by simp_all
  show ?thesis unfolding n e by simp
qed

theorem start_delays_witness:
  "g_modules scenarioGraph = Some
      [\<lparr>mod_module = ''a.py'', mod_functions = Some [''f''], mod_classes = Some []\<rparr>,
       \<lparr>mod_module = ''b.py'', mod_functions = Some [], mod_classes = Some [''C'']\<rparr>]
   \<and> n_delay (nodes (forceLayout (Some scenarioGraph) 800 600 (\<lambda>k. 0)) ! 1) = 0.1
   \<and> n_id (nodes (forceLayout (Some scenarioGraph) 800 600 (\<lambda>k. 0)) ! 3) = ''b.py::C''
   \<and> n_delay (nodes (forceLayout (Some scenarioGraph) 800 600 (\<lambda>k. 0)) ! 3) = 0.16
   \<and> e_tgt (edges (forceLayout (Some scenarioGraph) 800 600 (\<lambda>k. 0)) ! 1) = NodeRef 3
   \<and> e_delay (edges (forceLayout (Some scenarioGraph) 800 600 (\<lambda>k. 0)) ! 1) = 0.18
   \<and> map e_delay (drop 2 (edges (forceLayout (Some scenarioGraph) 800 600 (\<lambda>k. 0)))) = [0.2]"
proof -
  let ?mods = "[\<lparr>mod_module = ''a.py'', mod_functions = Some [''f''], mod_classes = Some []\<rparr>,
       \<lparr>mod_module = ''b.py'', mod_functions = Some [], mod_classes = Some [''C'']\<rparr>]"
  let ?L = "forceLayout (Some scenarioGraph) 800 600 (\<lambda>k. 0)"
  have m: "g_modules scenarioGraph = Some ?mods"
    by (simp add: scenarioGraph_def)
  have cb: "childrenBefore ?mods 1 = 1" "childrenBefore ?mods 2 = 2" "childIndex ?mods 1 0 = 3"
    by (simp_all add: childrenBefore_def childIndex_def children_def orEmpty_def
        lessThan_Suc eval_nat_numeral)
  have ch: "children (?mods ! 1) = [(''C'', Class)]"
    by (simp add: children_def orEmpty_def)
  note th = start_delays [OF m, where i = 1 and j = 0 and W = 800 and H = 600 and rnd = "\<lambda>k. 0"
      and k = 0 and e = "\<lparr>ie_source = ''a.py'', ie_target = ''b.py''\<rparr>"
      and c = "new_GEdge (NodeRef 0) (NodeRef 1) ''imports'' ''#39d2c0'' 0.2"]
  have i: "(1::nat) < length ?mods" "0 < length (children (?mods ! 1))"
    unfolding ch by simp_all
  have len: "length ?mods = 2" by simp
  from th i have mod1: "n_delay (nodes ?L ! 1) = real 1 * 0.1"
    by blast
  from th i have child:
    "n_id (nodes ?L ! childIndex ?mods 1 0) = childId (?mods ! 1) (fst (children (?mods ! 1) ! 0))"
    "n_delay (nodes ?L ! childIndex ?mods 1 0) = real 1 * 0.1 + (real 0 + 1) * 0.06"
    "e_tgt (edges ?L ! (childIndex ?mods 1 0 - length ?mods)) = NodeRef (childIndex ?mods 1 0)"
    "e_delay (edges ?L ! (childIndex ?mods 1 0 - length ?mods)) = real 1 * 0.1 + (real 0 + 1) * 0.08"
    by blast+
  from th have cross: "drop (childrenBefore ?mods (length ?mods)) (edges ?L) =
      List.map_filter
        (crossEdge (nodes ?L) (b_nodeMap (buildGraph ?mods 800 600 (\<lambda>k. 0))) (length ?mods))
        (enumerate 0 (orEmpty (g_edges scenarioGraph)))"
    by blast
  have "map e_delay (drop 2 (edges ?L)) = [0.2]"
    using cross unfolding len cb scenario_build(3)
    by (simp add: scenarioGraph_def orEmpty_def List.map_filter_simps crossEdge_def
        lookupNode_def new_GEdge_def)
  moreover have "n_id (nodes ?L ! 3) = ''b.py::C''" "n_delay (nodes ?L ! 3) = 0.16"
    "e_tgt (edges ?L ! 1) = NodeRef 3" "e_delay (edges ?L ! 1) = 0.18"
    using child unfolding len cb ch by (simp_all add: childId_def)
  moreover have "n_delay (nodes ?L ! 1) = 0.1"
    using mod1 by simp
  ultimately show ?thesis using m by simp
qed


lemma GNode_properties_keys: "map_of (GNode_properties n) k = Some b \<Longrightarrow> k \<in> set GNode_keys"
  by (simp add: GNode_properties_def GNode_keys_def split: if_splits)

lemma inherited_resolves:
  assumes "dom nm = set (map n_id ns)" "inherited ns' nm k"
  shows "resolves ns k"
proof (cases "nm ''__proto__''")
  case None
  with assms(2) show ?thesis by (simp add: inherited_def resolves_def)
next
  case (Some p)
  then have "''__proto__'' \<in> dom nm" by blast
  then have proto: "isNodeId ns ''__proto__''" unfolding assms(1) isNodeId_def .
  from assms(2) Some have "k \<in> set GNode_keys \<or> k \<in> set Object_prototype_keys"
    by (auto simp: inherited_def GNode_keys_def dest: GNode_properties_keys
        split: option.splits)
  with proto show ?thesis by (auto simp: resolves_def)
qed

lemma lookupNode_id:
  assumes "dom nm = set (map n_id ns)" "isNodeId ns k"
  shows "lookupNode ns' nm k \<noteq> None"
proof -
  from assms have "k \<in> dom nm" by (simp add: isNodeId_def)
  then show ?thesis by (auto simp: lookupNode_def)
qed

lemma lookupNode_unresolved:
  assumes "dom nm = set (map n_id ns)" "\<not> resolves ns k"
  shows "lookupNode ns' nm k = None"
proof -
  from assms(2) have "k \<notin> set (map n_id ns)" by (simp add: resolves_def isNodeId_def)
  then have "nm k = None" unfolding assms(1) [symmetric] by blast
  moreover have "\<not> inherited ns' nm k"
    using inherited_resolves [OF assms(1)] assms(2) by blast
  ultimately show ?thesis by (simp add: lookupNode_def)
qed

lemma crossEdge_kept:
  assumes "dom nm = set (map n_id ns)"
    and "isNodeId ns (ie_source e)" "isNodeId ns (ie_target e)"
  shows "crossEdge ns' nm len (k, e) \<noteq> None"
  using lookupNode_id [OF assms(1,2), of ns'] lookupNode_id [OF assms(1,3), of ns']
  by (auto simp: crossEdge_def)

lemma crossEdge_dropped:
  assumes "dom nm = set (map n_id ns)"
    and "\<not> resolves ns (ie_source e) \<or> \<not> resolves ns (ie_target e)"
  shows "crossEdge ns' nm len (k, e) = None"
  using assms(2) lookupNode_unresolved [OF assms(1), of "ie_source e" ns']
    lookupNode_unresolved [OF assms(1), of "ie_target e" ns']
  by (auto simp: crossEdge_def split: option.splits)

lemma length_map_filter_le:
  assumes "\<And>k x. f (k, x) \<noteq> None \<Longrightarrow> P x"
  shows "length (List.map_filter f (enumerate n xs)) \<le> length (filter P xs)"
proof (induction xs arbitrary: n)
  case Nil
  show ?case by (simp add: List.map_filter_simps)
next
  case (Cons x xs)
  show ?case
  proof (cases "f (n, x)")
    case None
    with Cons.IH [of "Suc n"] show ?thesis by (simp add: List.map_filter_simps)
  next
    case (Some y)
    with assms [of n x] have "P x" by simp
    with Some Cons.IH [of "Suc n"] show ?thesis by (simp add: List.map_filter_simps)
  qed
qed

lemma length_map_filter_ge:
  assumes "\<And>k x. P x \<Longrightarrow> f (k, x) \<noteq> None"
  shows "length (filter P xs) \<le> length (List.map_filter f (enumerate n xs))"
proof (induction xs arbitrary: n)
  case Nil
  show ?case by (simp add: List.map_filter_simps)
next
  case (Cons x xs)
  show ?case
  proof (cases "f (n, x)")
    case None
    with assms [of x n] have "\<not> P x" by blast
    with None Cons.IH [of "Suc n"] show ?thesis by (simp add: List.map_filter_simps)
  next
    case (Some y)
    with Cons.IH [of "Suc n"] show ?thesis by (simp add: List.map_filter_simps)
  qed
qed

lemma map_filter_imports:
  "c \<in> set (List.map_filter (crossEdge ns nm len) xs) \<Longrightarrow> e_label c = ''imports''"
  by (auto simp: List.map_filter_def crossEdge_def new_GEdge_def split: option.splits)

text \<open>
  Claim C9, amended. Absent modules give empty node and edge lists, and an empty module
  list gives no nodes and no parent-child edges. When modules are present, the entries
  of \<^verbatim>\<open>edges[]\<close> never change the nodes or their layout, and the edge list is the
  parent-child edges followed by what step 4 makes of each entry, in input order: an
  edge labelled \<^verbatim>\<open>imports\<close> or nothing. An entry whose source and target both are ids of
  nodes (module nodes or member nodes) gives an edge. An entry whose source or target
  cannot resolve gives none: a name that is neither the id of a node nor the name of a
  property \<^verbatim>\<open>nodeMap\<close> can inherit, from \<^verbatim>\<open>Object.prototype\<close> or, when a node is named
  \<^verbatim>\<open>__proto__\<close>, from a \<^verbatim>\<open>GNode\<close>. So there are at least as many import edges as entries
  between node ids and at most as many as entries whose two names can resolve. No error
  is raised: on an absent graph, on absent modules, and on modules that all have the
  property \<^verbatim>\<open>module\<close>, whatever the entries of \<^verbatim>\<open>edges[]\<close> are, \<^verbatim>\<open>forceLayout\<close> returns.
\<close>

theorem unknown_edges_dropped:
  assumes "g_modules gr = Some mods"
  shows "forceLayout None W H rnd = \<lparr>nodes = [], edges = []\<rparr>
       \<and> forceLayout (Some (gr\<lparr>g_modules := None\<rparr>)) W H rnd = \<lparr>nodes = [], edges = []\<rparr>
       \<and> forceLayout_json None W H rnd = Inr \<lparr>nodes = [], edges = []\<rparr>
       \<and> forceLayout_json (Some \<lparr>gj_modules = None, gj_edges = g_edges gr\<rparr>) W H rnd
           = Inr \<lparr>nodes = [], edges = []\<rparr>
       \<and> (readModules ms = Inr mods \<longrightarrow>
            forceLayout_json (Some \<lparr>gj_modules = Some ms, gj_edges = g_edges gr\<rparr>) W H rnd
              = Inr (forceLayout (Some gr) W H rnd))
       \<and> (mods = [] \<longrightarrow>
            nodes (forceLayout (Some gr) W H rnd) = []
          \<and> edges (forceLayout (Some (gr\<lparr>g_edges := None\<rparr>)) W H rnd) = [])
       \<and> nodes (forceLayout (Some gr) W H rnd)
           = nodes (forceLayout (Some (gr\<lparr>g_edges := None\<rparr>)) W H rnd)
       \<and> (\<exists>kept. edges (forceLayout (Some gr) W H rnd)
                    = edges (forceLayout (Some (gr\<lparr>g_edges := None\<rparr>)) W H rnd) @ kept
              \<and> kept = List.map_filter
                         (crossEdge (nodes (forceLayout (Some gr) W H rnd))
                            (b_nodeMap (buildGraph mods W H rnd)) (length mods))
                         (enumerate 0 (orEmpty (g_edges gr)))
              \<and> (\<forall>c\<in>set kept. e_label c = ''imports'')
              \<and> length (filter (\<lambda>e. isNodeId (nodes (forceLayout (Some gr) W H rnd)) (ie_source e)
                                  \<and> isNodeId (nodes (forceLayout (Some gr) W H rnd)) (ie_target e))
                          (orEmpty (g_edges gr))) \<le> length kept
              \<and> length kept
                  \<le> length (filter (\<lambda>e. resolves (nodes (forceLayout (Some gr) W H rnd)) (ie_source e)
                                      \<and> resolves (nodes (forceLayout (Some gr) W H rnd)) (ie_target e))
                             (orEmpty (g_edges gr))))
       \<and> (isNodeId (nodes (forceLayout (Some gr) W H rnd)) (ie_source e)
          \<and> isNodeId (nodes (forceLayout (Some gr) W H rnd)) (ie_target e) \<longrightarrow>
            crossEdge (nodes (forceLayout (Some gr) W H rnd))
              (b_nodeMap (buildGraph mods W H rnd)) (length mods) (k, e) \<noteq> None)
       \<and> (\<not> resolves (nodes (forceLayout (Some gr) W H rnd)) (ie_source e)
          \<or> \<not> resolves (nodes (forceLayout (Some gr) W H rnd)) (ie_target e) \<longrightarrow>
            crossEdge (nodes (forceLayout (Some gr) W H rnd))
              (b_nodeMap (buildGraph mods W H rnd)) (length mods) (k, e) = None)"
proof -
  let ?L = "forceLayout (Some gr) W H rnd"
  let ?Lne = "forceLayout (Some (gr\<lparr>g_edges := None\<rparr>)) W H rnd"
  let ?nm = "b_nodeMap (buildGraph mods W H rnd)"
  let ?step = "crossEdge (nodes ?L) ?nm (length mods)"
  let ?kept = "List.map_filter ?step (enumerate 0 (orEmpty (g_edges gr)))"
  let ?ids = "\<lambda>e. isNodeId (nodes ?L) (ie_source e) \<and> isNodeId (nodes ?L) (ie_target e)"
  let ?res = "\<lambda>e. resolves (nodes ?L) (ie_source e) \<and> resolves (nodes ?L) (ie_target e)"
  note m = assms
  have m0: "g_modules (gr\<lparr>g_edges := None\<rparr>) = Some mods" using m by simp
  have nodes: "nodes ?L = nodes ?Lne"
    unfolding forceLayout_present(1) [OF m] forceLayout_present(1) [OF m0] ..
  have edges0: "edges ?Lne = b_edges (buildGraph mods W H rnd)"
    unfolding forceLayout_present(2) [OF m0] by (simp add: orEmpty_def List.map_filter_simps)
  have edges: "edges ?L = edges ?Lne @ ?kept"
    unfolding edges0 by (rule forceLayout_present(2) [OF m])
  have dom: "dom ?nm = set (map n_id (nodes ?L))"
    by (rule forceLayout_ids [OF m, symmetric])
  have kept: "?step (k, e) \<noteq> None" if "?ids e" for k e
    using that by (intro crossEdge_kept [OF dom]) simp_all
  have dropped: "?step (k, e) = None" if "\<not> ?res e" for k e
    using that by (intro crossEdge_dropped [OF dom]) simp
  have res: "?res e" if "?step (k, e) \<noteq> None" for k e
    using dropped [of e k] that by blast
  have lower: "length (filter ?ids (orEmpty (g_edges gr))) \<le> length ?kept"
    by (rule length_map_filter_ge) (rule kept)
  have upper: "length ?kept \<le> length (filter ?res (orEmpty (g_edges gr)))"
    by (rule length_map_filter_le) (rule res)
  have lab: "\<forall>c\<in>set ?kept. e_label c = ''imports''"
    using map_filter_imports by blast
  have empty: "nodes ?L = [] \<and> edges ?Lne = []" if "mods = []"
    unfolding edges0 forceLayout_present(1) [OF m] using that
    by (simp add: applyFinal_def build_eval)
  have absent: "forceLayout (Some (gr\<lparr>g_modules := None\<rparr>)) W H rnd = \<lparr>nodes = [], edges = []\<rparr>"
    by (rule forceLayout_absent(2)) simp
  have json: "forceLayout_json None W H rnd = Inr \<lparr>nodes = [], edges = []\<rparr>"
    "forceLayout_json (Some \<lparr>gj_modules = None, gj_edges = g_edges gr\<rparr>) W H rnd
       = Inr \<lparr>nodes = [], edges = []\<rparr>"
    by (simp_all add: forceLayout_json_def forceLayout_absent)
  have "\<lparr>g_modules = Some mods, g_edges = g_edges gr\<rparr> = gr"
    using m by simp
  then have typed: "forceLayout_json (Some \<lparr>gj_modules = Some ms, gj_edges = g_edges gr\<rparr>) W H rnd
              = Inr (forceLayout (Some gr) W H rnd)" if "readModules ms = Inr mods"
    using that by (simp add: forceLayout_json_def)
  from nodes edges lower upper lab empty absent json typed kept [of e k] dropped [of e k]
  show ?thesis
    by (simp add: forceLayout_absent(1))
qed

theorem unknown_edges_dropped_witness:
  "g_modules ghostEdge
     = Some [\<lparr>mod_module = ''a.py'', mod_functions = None, mod_classes = None\<rparr>]
   \<and> map n_id (nodes (forceLayout (Some ghostEdge) 800 600 (\<lambda>k. 0))) = [''a.py'']
   \<and> map ie_target (orEmpty (g_edges ghostEdge)) = [''ghost.py'']
   \<and> \<not> resolves (nodes (forceLayout (Some ghostEdge) 800 600 (\<lambda>k. 0))) ''ghost.py''
   \<and> edges (forceLayout (Some ghostEdge) 800 600 (\<lambda>k. 0)) = []
   \<and> readModules
         [\<lparr>mj_module = Some ''a.py'', mj_path = None, mj_functions = None, mj_classes = None\<rparr>]
       = Inr [\<lparr>mod_module = ''a.py'', mod_functions = None, mod_classes = None\<rparr>]
   \<and> forceLayout_json
         (Some \<lparr>gj_modules = Some
                   [\<lparr>mj_module = Some ''a.py'', mj_path = None, mj_functions = None,
                     mj_classes = None\<rparr>],
                 gj_edges = g_edges ghostEdge\<rparr>) 800 600 (\<lambda>k. 0)
       = Inr (forceLayout (Some ghostEdge) 800 600 (\<lambda>k. 0))
   \<and> isNodeId (nodes (forceLayout (Some scenarioGraph) 800 600 (\<lambda>k. 0))) ''a.py''
   \<and> isNodeId (nodes (forceLayout (Some scenarioGraph) 800 600 (\<lambda>k. 0))) ''b.py''
   \<and> crossEdge (nodes (forceLayout (Some scenarioGraph) 800 600 (\<lambda>k. 0)))
         (b_nodeMap (buildGraph (orEmpty (g_modules scenarioGraph)) 800 600 (\<lambda>k. 0)))
         (length (orEmpty (g_modules scenarioGraph)))
         (0, \<lparr>ie_source = ''a.py'', ie_target = ''b.py''\<rparr>) \<noteq> None"
proof -
  let ?ms = "[\<lparr>mj_module = Some ''a.py'', mj_path = None, mj_functions = None,
               mj_classes = None\<rparr>]"
  let ?mods = "[\<lparr>mod_module = ''a.py'', mod_functions = None, mod_classes = None\<rparr>]"
  let ?e = "\<lparr>ie_source = ''a.py'', ie_target = ''ghost.py''\<rparr>"
  let ?L = "forceLayout (Some ghostEdge) 800 600 (\<lambda>k. 0)"
  let ?Lne = "forceLayout (Some (ghostEdge\<lparr>g_edges := None\<rparr>)) 800 600 (\<lambda>k. 0)"
  let ?step = "crossEdge (nodes ?L) (b_nodeMap (buildGraph ?mods 800 600 (\<lambda>k. 0))) (length ?mods)"
  have m: "g_modules ghostEdge = Some ?mods"
    by (simp add: ghostEdge_def)
  have es: "orEmpty (g_edges ghostEdge) = [?e]"
    by (simp add: ghostEdge_def orEmpty_def)
  have "map nodeFacts (nodes ?L) = [(''a.py'', Module, 0)]"
    unfolding forceLayout_nodeFacts(1) [OF m] by (simp add: build_eval)
  then have "map fst (map nodeFacts (nodes ?L)) = [''a.py'']"
    by simp
  then have ids: "map n_id (nodes ?L) = [''a.py'']"
    by (simp add: nodeFacts_def comp_def)
  have ghost: "\<not> resolves (nodes ?L) ''ghost.py''"
    unfolding resolves_def isNodeId_def ids
    by (simp add: Object_prototype_keys_def GNode_keys_def GNode_prototype_keys_def)
  have m0: "g_modules (ghostEdge\<lparr>g_edges := None\<rparr>) = Some ?mods"
    by (simp add: ghostEdge_def)
  have none: "edges ?Lne = []"
    unfolding forceLayout_present(2) [OF m0]
    by (simp add: build_eval List.map_filter_simps)
  note th = unknown_edges_dropped [OF m, where W = 800 and H = 600 and rnd = "\<lambda>k. 0"
      and e = ?e and k = 0 and ms = ?ms]
  have rd: "readModules ?ms = Inr ?mods"
    by simp
  from th have "readModules ?ms = Inr ?mods \<longrightarrow>
      forceLayout_json (Some \<lparr>gj_modules = Some ?ms, gj_edges = g_edges ghostEdge\<rparr>) 800 600 (\<lambda>k. 0)
        = Inr ?L"
    by blast
  with rd have js: "forceLayout_json (Some \<lparr>gj_modules = Some ?ms, gj_edges = g_edges ghostEdge\<rparr>)
      800 600 (\<lambda>k. 0) = Inr ?L"
    by blast
  from th have edges: "edges ?L = edges ?Lne @ List.map_filter ?step (enumerate 0 (orEmpty (g_edges ghostEdge)))"
    by blast
  have tgt: "\<not> resolves (nodes ?L) (ie_target ?e)"
    using ghost by simp
  from th have "\<not> resolves (nodes ?L) (ie_source ?e) \<or> \<not> resolves (nodes ?L) (ie_target ?e)
      \<longrightarrow> ?step (0, ?e) = None"
    by blast
  with tgt have "?step (0, ?e) = None"
    by blast
  then have "edges ?L = []"
    unfolding edges none es by (simp add: List.map_filter_simps)
  then have dropped: "edges ?L = []" .
  let ?S = "forceLayout (Some scenarioGraph) 800 600 (\<lambda>k. 0)"
  let ?e2 = "\<lparr>ie_source = ''a.py'', ie_target = ''b.py''\<rparr>"
  have m2: "g_modules scenarioGraph = Some (orEmpty (g_modules scenarioGraph))"
    by (simp add: scenarioGraph_def orEmpty_def)
  have "map fst (map nodeFacts (nodes ?S)) = [''a.py'', ''b.py'', ''a.py::f'', ''b.py::C'']"
    unfolding scenario_result(1) by simp
  then have ids2: "map n_id (nodes ?S) = [''a.py'', ''b.py'', ''a.py::f'', ''b.py::C'']"
    by (simp add: nodeFacts_def comp_def)
  have both: "isNodeId (nodes ?S) (ie_source ?e2)" "isNodeId (nodes ?S) (ie_target ?e2)"
    unfolding isNodeId_def ids2 by simp_all
  from unknown_edges_dropped [OF m2, where W = 800 and H = 600 and rnd = "\<lambda>k. 0"
      and e = ?e2 and k = 0]
  have "isNodeId (nodes ?S) (ie_source ?e2) \<and> isNodeId (nodes ?S) (ie_target ?e2) \<longrightarrow>
      crossEdge (nodes ?S) (b_nodeMap (buildGraph (orEmpty (g_modules scenarioGraph)) 800 600 (\<lambda>k. 0)))
        (length (orEmpty (g_modules scenarioGraph))) (0, ?e2) \<noteq> None"
    by blast
  with both have kept: "crossEdge (nodes ?S)
      (b_nodeMap (buildGraph (orEmpty (g_modules scenarioGraph)) 800 600 (\<lambda>k. 0)))
      (length (orEmpty (g_modules scenarioGraph))) (0, ?e2) \<noteq> None"
    by blast
  from both have both': "isNodeId (nodes ?S) ''a.py''" "isNodeId (nodes ?S) ''b.py''"
    by simp_all
  from m ids ghost es rd js dropped both' kept show ?thesis by simp
qed

text \<open>
  Claim C9, as stated: an entry whose source or target does not name a known module
  node is dropped. For one module \<^verbatim>\<open>a.py\<close> with a function \<^verbatim>\<open>f\<close>, the entry from
  \<^verbatim>\<open>a.py::f\<close> to \<^verbatim>\<open>a.py\<close> has a source that is no module, and it is kept: the second
  edge is an \<^verbatim>\<open>imports\<close> edge from node 1, the function node.
\<close>

theorem member_edge_kept:
  "map mod_module (orEmpty (g_modules memberEdge)) = [''a.py'']
   \<and> map ie_source (orEmpty (g_edges memberEdge)) = [''a.py::f'']
   \<and> ''a.py::f'' \<notin> set (map mod_module (orEmpty (g_modules memberEdge)))
   \<and> map n_type (nodes (forceLayout (Some memberEdge) 800 600 (\<lambda>k. 0))) = [Module, Function]
   \<and> map (\<lambda>e. (e_src e, e_tgt e, e_label e)) (edges (forceLayout (Some memberEdge) 800 600 (\<lambda>k. 0)))
       = [(NodeRef 0, NodeRef 1, []), (NodeRef 1, NodeRef 0, ''imports'')]"
proof -
  let ?mods = "[\<lparr>mod_module = ''a.py'', mod_functions = Some [''f''], mod_classes = None\<rparr>]"
  let ?L = "forceLayout (Some memberEdge) 800 600 (\<lambda>k. 0)"
  have m: "g_modules memberEdge = Some ?mods"
    by (simp add: memberEdge_def)
  have "map nodeFacts (nodes ?L) = [(''a.py'', Module, 0), (''a.py::f'', Function, 0.06)]"
    unfolding forceLayout_nodeFacts(1) [OF m] by (simp add: build_eval)
  then have "map (\<lambda>f. fst (snd f)) (map nodeFacts (nodes ?L)) = [Module, Function]"
    by simp
  then have types: "map n_type (nodes ?L) = [Module, Function]"
    by (simp add: nodeFacts_def comp_def)
  have "map (\<lambda>e. (e_src e, e_tgt e, e_label e)) (edges ?L)
       = [(NodeRef 0, NodeRef 1, []), (NodeRef 1, NodeRef 0, ''imports'')]"
    unfolding forceLayout_present(2) [OF m]
    by (simp add: build_eval memberEdge_def List.map_filter_simps crossEdge_def lookupNode_def)
  with types show ?thesis
    by (simp add: memberEdge_def orEmpty_def)
qed

section \<open>The playback controller\<close>

lemmas play_eval =
  run_def togglePlay_def stepFwd_def reset_def playLoop_def playLoopFrom_def timerFires_def
  showStep_def loaded_def onSvg_def dimAll_def resetAll_def Let_def

lemma onSvg_frame:
  "steps (onSvg f s) = steps s" "curStep (onSvg f s) = curStep s" "playing (onSvg f s) = playing s"
  "playRef (onSvg f s) = playRef s" "timers (onSvg f s) = timers s" "speed (onSvg f s) = speed s"
  by (simp_all add: onSvg_def split: option.splits)

lemma showStep_frame:
  "steps (showStep idx s) = steps s" "playing (showStep idx s) = playing s"
  "playRef (showStep idx s) = playRef s" "timers (showStep idx s) = timers s"
  "speed (showStep idx s) = speed s"
  by (simp_all add: showStep_def onSvg_frame dimAll_def)

lemma showStep_curStep:
  "0 \<le> idx \<Longrightarrow> idx < int (length (steps s)) \<Longrightarrow> curStep (showStep idx s) = idx"
  by (simp add: showStep_def)

lemma showStep_out_of_range:
  "idx < 0 \<or> int (length (steps s)) \<le> idx \<Longrightarrow> showStep idx s = s"
  by (simp add: showStep_def)

lemma restyle_skeleton:
  "el_id (restyle P f e) = el_id e" "el_tag (restyle P f e) = el_tag e"
  "el_classes (restyle P f e) = el_classes e" "el_edges (restyle P f e) = el_edges e"
  "isNode (restyle P f e) = isNode e" "isEdgeShape (restyle P f e) = isEdgeShape e"
  "isEdgePart (restyle P f e) = isEdgePart e"
  "edgeMatches a b (restyle P f e) = edgeMatches a b e"
  by (simp_all add: restyle_def isNode_def isEdgeShape_def isEdgePart_def edgeMatches_def)

lemma restyle_style:
  "el_style (restyle P f e) = (if P e then f (el_style e) else el_style e)"
  by (simp add: restyle_def)

lemma resetAll_svg_neutral:
  assumes "e \<in> set (resetAll_svg els)"
  shows "(isNode e \<and> \<not> isEdgeShape e \<longrightarrow> neutralNode (el_style e))
       \<and> (isEdgeShape e \<longrightarrow> neutralEdge (el_style e))"
proof -
  from assms obtain e0 where e: "e = restyle isEdgeShape resetEdge (restyle isNode resetNode e0)"
    unfolding resetAll_svg_def styleWhere_def by auto
  show ?thesis
    unfolding e
    by (simp add: restyle_skeleton restyle_style neutralNode_def neutralEdge_def
        resetNode_def resetEdge_def)
qed

text \<open>The index is \<open>-1\<close> or the index of a step that was shown.\<close>

lemma showStep_index: "- 1 \<le> curStep s \<Longrightarrow> - 1 \<le> curStep (showStep idx s)"
  by (simp add: showStep_def)

lemma index_invariant_step:
  assumes "- 1 \<le> curStep s"
  shows "- 1 \<le> curStep (apply_event ev s)"
proof (cases ev)
  case PressPlayPause
  have "- 1 \<le> curStep (showStep i (s\<lparr>playing := True, playRef := True\<rparr>))" for i
    using assms by (intro showStep_index) simp
  with assms show ?thesis
    unfolding PressPlayPause by (simp add: togglePlay_def playLoop_def playLoopFrom_def Let_def)
next
  case PressStep
  have "- 1 \<le> curStep (showStep i (s\<lparr>playRef := False, playing := False\<rparr>))" for i
    using assms by (intro showStep_index) simp
  with assms show ?thesis
    unfolding PressStep by (simp add: stepFwd_def Let_def)
next
  case PressReset
  show ?thesis
    unfolding PressReset by (simp add: reset_def resetAll_def onSvg_frame)
next
  case (TimerFires k)
  have "- 1 \<le> curStep (showStep i (s\<lparr>timers := ts\<rparr>))" for i ts
    using assms by (intro showStep_index) simp
  with assms show ?thesis
    unfolding TimerFires by (simp add: timerFires_def playLoopFrom_def Let_def)
qed

lemma index_invariant: "- 1 \<le> curStep (run evs (loaded all d))"
proof -
  have "- 1 \<le> curStep s \<Longrightarrow> - 1 \<le> curStep (fold apply_event evs s)" for s
    by (induction evs arbitrary: s) (simp_all add: index_invariant_step)
  then show ?thesis by (simp add: run_def loaded_def)
qed

text \<open>A wake-up of a suspended loop while nothing plays only removes its timer.\<close>

lemma stale_timer_when_stopped:
  assumes "\<not> playRef s" "\<not> playing s" "k < length (timers s)"
  shows "timerFires k s = s\<lparr>timers := take k (timers s) @ drop (Suc k) (timers s)\<rparr>"
  using assms by (simp add: timerFires_def playLoopFrom_def)

lemma flags_agree_step:
  assumes "playRef s = playing s"
  shows "playRef (apply_event ev s) = playing (apply_event ev s)"
  using assms
  by (cases ev)
     (auto simp: togglePlay_def stepFwd_def reset_def resetAll_def onSvg_frame playLoop_def
        playLoopFrom_def timerFires_def Let_def showStep_frame)

lemma flags_agree: "playRef (run evs (loaded all d)) = playing (run evs (loaded all d))"
proof -
  have "playRef s = playing s \<Longrightarrow> playRef (fold apply_event evs s) = playing (fold apply_event evs s)" for s
    by (induction evs arbitrary: s) (simp_all add: flags_agree_step)
  then show ?thesis by (simp add: run_def loaded_def)
qed


section \<open>The highlight trail\<close>

lemma findIndex_map: "findIndex (\<lambda>e. Q (f e)) xs = findIndex Q (map f xs)"
  by (induction xs) simp_all

lemma findIndex_less: "findIndex P xs = Some n \<Longrightarrow> n < length xs"
  by (induction xs arbitrary: n) (auto split: if_splits)

lemma nodeOf_ids:
  assumes "map el_id els' = map el_id els"
  shows "nodeOf els' sid = nodeOf els sid"
proof -
  have "nodeOf xs sid
      = findIndex (\<lambda>i. str_includes i (''flowchart-'' @ sid @ ''-'')) (map el_id xs)" for xs
    unfolding nodeOf_def by (rule findIndex_map)
  then show ?thesis by (simp only: assms)
qed

lemma nodeOf_less: "nodeOf els sid = Some n \<Longrightarrow> n < length els"
  unfolding nodeOf_def by (rule findIndex_less)

lemma styleWhere_simps:
  "length (styleWhere P f els) = length els"
  "map el_id (styleWhere P f els) = map el_id els"
  "m < length els \<Longrightarrow> styleWhere P f els ! m = restyle P f (els ! m)"
  by (simp_all add: styleWhere_def restyle_skeleton comp_def)

lemma styleAt_simps:
  "length (styleAt n f els) = length els"
  "map el_id (styleAt n f els) = map el_id els"
  "m < length els \<Longrightarrow>
     styleAt n f els ! m = (if m = n then (els ! m)\<lparr>el_style := f (el_style (els ! m))\<rparr> else els ! m)"
proof -
  show "length (styleAt n f els) = length els" by (simp add: styleAt_def)
  show "map el_id (styleAt n f els) = map el_id els"
  proof (cases "n < length els")
    case True
    then show ?thesis
      by (intro nth_equalityI) (simp_all add: styleAt_def nth_list_update)
  next
    case False
    then show ?thesis by (simp add: styleAt_def list_update_beyond)
  qed
  show "m < length els \<Longrightarrow>
     styleAt n f els ! m = (if m = n then (els ! m)\<lparr>el_style := f (el_style (els ! m))\<rparr> else els ! m)"
    by (simp add: styleAt_def nth_list_update)
qed

lemma styleAt_nth_same:
  "n < length els \<Longrightarrow> styleAt n f els ! n = (els ! n)\<lparr>el_style := f (el_style (els ! n))\<rparr>"
  by (simp add: styleAt_def)

lemma styleAt_nth_other: "m \<noteq> n \<Longrightarrow> styleAt n f els ! m = els ! m"
  by (simp add: styleAt_def)

lemma glowNode_svg_simps:
  "length (glowNode_svg sid kind els) = length els"
  "map el_id (glowNode_svg sid kind els) = map el_id els"
  by (simp_all add: glowNode_svg_def styleAt_simps split: option.splits)

lemma trailStep_length: "length (trailStep all idx i els) = length els"
  by (simp add: trailStep_def Let_def glowEdge_svg_def styleWhere_simps styleAt_simps
      glowNode_svg_simps split: option.splits)

lemma trailStep_ids: "map el_id (trailStep all idx i els) = map el_id els"
  by (simp add: trailStep_def Let_def glowEdge_svg_def styleWhere_simps styleAt_simps
      glowNode_svg_simps split: option.splits)

text \<open>One pass of the trail loop, seen from one element.\<close>

lemma trailStep_nth:
  assumes "m < length els"
  shows "trailStep all idx i els ! m =
     restyle (glowsEdge all i) glowingEdge
       (if nodeOf els (st_sid (all ! i)) = Some m
        then (els ! m)\<lparr>el_style := trailNode (i = idx) (st_kind (all ! i)) (el_style (els ! m))\<rparr>
        else els ! m)"
proof -
  let ?st = "all ! i"
  let ?op = "\<lambda>s. s\<lparr>css_opacity := (if i = idx then ''1'' else ''0.5'')\<rparr>"
  let ?els1 = "(case nodeOf els (st_sid ?st) of
                    None \<Rightarrow> els
                  | Some n \<Rightarrow>
                      (let els0 = styleAt n ?op els
                       in if i = idx then glowNode_svg (st_sid ?st) (st_kind ?st) els0 else els0))"
  have len1: "length ?els1 = length els"
    by (simp add: Let_def styleAt_simps glowNode_svg_simps split: option.splits)
  have node: "?els1 ! m =
       (if nodeOf els (st_sid ?st) = Some m
        then (els ! m)\<lparr>el_style := trailNode (i = idx) (st_kind ?st) (el_style (els ! m))\<rparr>
        else els ! m)"
  proof (cases "nodeOf els (st_sid ?st)")
    case None
    then show ?thesis by simp
  next
    case (Some n)
    have same: "nodeOf (styleAt n ?op els) (st_sid ?st) = Some n"
      unfolding nodeOf_ids [OF styleAt_simps(2)] by (rule Some)
    have "glowNode_svg (st_sid ?st) (st_kind ?st) (styleAt n ?op els)
            = styleAt n (glowingNode (st_kind ?st)) (styleAt n ?op els)"
      unfolding glowNode_svg_def same by simp
    then have els1: "?els1 = (if i = idx then styleAt n (glowingNode (st_kind ?st)) (styleAt n ?op els)
                         else styleAt n ?op els)"
      unfolding Some by (simp only: Let_def option.case)
    show ?thesis
    proof (cases "m = n")
      case True
      with assms have n: "n < length els" by simp
      show ?thesis
        unfolding els1 using True Some n
        by (simp add: styleAt_nth_same styleAt_simps(1) trailNode_def)
    next
      case False
      show ?thesis
        unfolding els1 using False Some
        by (simp add: styleAt_nth_other)
    qed
  qed
  have "trailStep all idx i els ! m = restyle (glowsEdge all i) glowingEdge (?els1 ! m)"
    using assms len1
    by (cases "parentStep all ?st")
       (simp_all add: trailStep_def Let_def glowsEdge_def glowEdge_svg_def styleWhere_simps(3)
          restyle_def)
  then show ?thesis unfolding node .
qed

lemma glowsEdge_style [simp]: "glowsEdge all i (e\<lparr>el_style := st\<rparr>) = glowsEdge all i e"
  by (simp add: glowsEdge_def edgeMatches_def split: option.splits)

text \<open>What one pass does to the opacity and the filter of an element.\<close>

lemma trailStep_effect:
  assumes "m < length els"
  shows "nodeOf els (st_sid (all ! i)) = Some m \<Longrightarrow> i = idx \<Longrightarrow>
           css_opacity (el_style (trailStep all idx i els ! m)) = ''1''
         \<and> css_filter (el_style (trailStep all idx i els ! m)) = glowFilter (st_kind (all ! i))"
    and "nodeOf els (st_sid (all ! i)) = Some m \<Longrightarrow>
           css_opacity (el_style (trailStep all idx i els ! m)) \<in> {''0.5'', ''1''}"
    and "css_opacity (el_style (els ! m)) \<in> {''0.5'', ''1''} \<Longrightarrow>
           css_opacity (el_style (trailStep all idx i els ! m)) \<in> {''0.5'', ''1''}"
    and "nodeOf els (st_sid (all ! i)) \<noteq> Some m \<Longrightarrow> \<not> glowsEdge all i (els ! m) \<Longrightarrow>
           trailStep all idx i els ! m = els ! m"
  unfolding trailStep_nth [OF assms]
  by (simp_all add: restyle_def trailNode_def glowingNode_def glowingEdge_def)


lemma skeleton_restyle: "skeleton (restyle P f e) = skeleton e"
  by (simp add: skeleton_def restyle_skeleton)

lemma skeleton_style: "skeleton (e\<lparr>el_style := st\<rparr>) = skeleton e"
  by (simp add: skeleton_def)

lemma skeleton_ids: "map skeleton els' = map skeleton els \<Longrightarrow> map el_id els' = map el_id els"
proof -
  assume "map skeleton els' = map skeleton els"
  then have "map fst (map skeleton els') = map fst (map skeleton els)" by simp
  then show ?thesis by (simp add: skeleton_def comp_def)
qed

lemma skeleton_nth:
  assumes "map skeleton els' = map skeleton els" "m < length els"
  shows "skeleton (els' ! m) = skeleton (els ! m)"
  using assms by (metis length_map nth_map)

lemma skeleton_preds:
  assumes "skeleton e' = skeleton e"
  shows "isNode e' = isNode e" "isEdgePart e' = isEdgePart e" "isEdgeShape e' = isEdgeShape e"
    "glowsEdge all j e' = glowsEdge all j e"
  using assms
  by (simp_all add: skeleton_def isNode_def isEdgePart_def isEdgeShape_def glowsEdge_def
      edgeMatches_def split: option.splits)

lemma trailStep_skeleton: "map skeleton (trailStep all idx i els) = map skeleton els"
  by (rule nth_equalityI)
     (simp_all add: trailStep_length trailStep_nth skeleton_restyle skeleton_style)

lemma dimAll_svg_skeleton: "map skeleton (dimAll_svg els) = map skeleton els"
  by (simp add: dimAll_svg_def styleWhere_def skeleton_restyle comp_def)

lemma dimAll_svg_nth:
  assumes "m < length els"
  shows "isNode (els ! m) \<Longrightarrow> \<not> isEdgePart (els ! m) \<Longrightarrow>
           css_opacity (el_style (dimAll_svg els ! m)) = ''0.2''
         \<and> css_filter (el_style (dimAll_svg els ! m)) = ''none''"
    and "isEdgePart (els ! m) \<Longrightarrow> css_opacity (el_style (dimAll_svg els ! m)) = ''0.08''"
  using assms
  by (simp_all add: dimAll_svg_def styleWhere_def restyle_skeleton restyle_style
      dimmedNode_def dimmedEdge_def)

text \<open>The trail loop up to \<open>k\<close>.\<close>

lemma trail_fold:
  fixes all idx els0
  defines "trail \<equiv> \<lambda>k. fold (trailStep all idx) [0..<k] els0"
  shows "length (trail k) = length els0 \<and> map skeleton (trail k) = map skeleton els0
       \<and> (\<forall>j m. j < k \<and> nodeOf els0 (st_sid (all ! j)) = Some m \<longrightarrow>
             css_opacity (el_style (trail k ! m)) \<in> {''0.5'', ''1''})
       \<and> (\<forall>m. m < length els0 \<and> \<not> touched all els0 k m \<longrightarrow> trail k ! m = els0 ! m)"
proof (induction k)
  case 0
  show ?case by (simp add: trail_def)
next
  case (Suc k)
  have step: "trail (Suc k) = trailStep all idx k (trail k)"
    by (simp add: trail_def)
  from Suc have len: "length (trail k) = length els0"
    and skel: "map skeleton (trail k) = map skeleton els0"
    and op: "\<And>j m. j < k \<Longrightarrow> nodeOf els0 (st_sid (all ! j)) = Some m \<Longrightarrow>
             css_opacity (el_style (trail k ! m)) \<in> {''0.5'', ''1''}"
    and frame: "\<And>m. m < length els0 \<Longrightarrow> \<not> touched all els0 k m \<Longrightarrow> trail k ! m = els0 ! m"
    by blast+
  have node: "nodeOf (trail k) sid = nodeOf els0 sid" for sid
    by (rule nodeOf_ids [OF skeleton_ids [OF skel]])
  have "css_opacity (el_style (trail (Suc k) ! m)) \<in> {''0.5'', ''1''}"
    if "j < Suc k" "nodeOf els0 (st_sid (all ! j)) = Some m" for j m
  proof -
    from that(2) have m: "m < length (trail k)" unfolding len by (rule nodeOf_less)
    show ?thesis
    proof (cases "j = k")
      case True
      with that(2) have "nodeOf (trail k) (st_sid (all ! k)) = Some m" by (simp add: node)
      then show ?thesis unfolding step by (rule trailStep_effect(2) [OF m])
    next
      case False
      with that(1) have "j < k" by simp
      from op [OF this that(2)] show ?thesis unfolding step by (rule trailStep_effect(3) [OF m])
    qed
  qed
  moreover have "trail (Suc k) ! m = els0 ! m"
    if "m < length els0" "\<not> touched all els0 (Suc k) m" for m
  proof -
    from that(1) have m: "m < length (trail k)" by (simp add: len)
    from that(2) have nt: "\<not> touched all els0 k m"
      and nn: "nodeOf els0 (st_sid (all ! k)) \<noteq> Some m"
      and ng: "\<not> glowsEdge all k (els0 ! m)"
      by (auto simp: touched_def less_Suc_eq)
    have "\<not> glowsEdge all k (trail k ! m)"
      using ng skeleton_preds(4) [OF skeleton_nth [OF skel that(1)]] by simp
    with nn have "trailStep all idx k (trail k) ! m = trail k ! m"
      by (intro trailStep_effect(4) [OF m]) (simp_all add: node)
    with frame [OF that(1) nt] show ?thesis by (simp add: step)
  qed
  ultimately show ?case
    unfolding step trailStep_length trailStep_skeleton len skel by blast
qed

lemma showStep_svg:
  assumes "0 \<le> idx" "idx < int (length (steps s))" "svg s = Some els"
  shows "svg (showStep idx s)
       = Some (fold (trailStep (steps s) (nat idx)) [0..<nat idx + 1] (dimAll_svg els))"
  using assms by (simp add: showStep_def onSvg_def dimAll_def)

lemma showStep_trail:
  assumes "0 \<le> idx" "idx < int (length (steps s))" "svg s = Some els"
  shows "\<exists>els'. svg (showStep idx s) = Some els' \<and> map skeleton els' = map skeleton els
       \<and> (\<forall>j m. j \<le> nat idx \<and> nodeOf els (st_sid (steps s ! j)) = Some m \<longrightarrow>
             css_opacity (el_style (els' ! m)) \<in> {''0.5'', ''1''})
       \<and> (\<forall>m. nodeOf els (st_sid (steps s ! nat idx)) = Some m \<longrightarrow>
             css_opacity (el_style (els' ! m)) = ''1''
           \<and> css_filter (el_style (els' ! m)) = glowFilter (st_kind (steps s ! nat idx)))
       \<and> (\<forall>m. m < length els \<and> \<not> touched (steps s) els (nat idx + 1) m \<longrightarrow>
             els' ! m = dimAll_svg els ! m)"
proof -
  let ?all = "steps s"
  let ?els0 = "dimAll_svg els"
  let ?trail = "\<lambda>k. fold (trailStep ?all (nat idx)) [0..<k] ?els0"
  have skel0: "map skeleton ?els0 = map skeleton els" by (rule dimAll_svg_skeleton)
  have len0: "length ?els0 = length els" using skel0 by (metis length_map)
  have node0: "nodeOf ?els0 sid = nodeOf els sid" for sid
    by (rule nodeOf_ids [OF skeleton_ids [OF skel0]])
  have touched0: "touched ?all ?els0 k m = touched ?all els k m" if "m < length els" for k m
    unfolding touched_def node0
    using skeleton_preds(4) [OF skeleton_nth [OF skel0 that]] by simp
  note t = trail_fold [where all = ?all and idx = "nat idx" and ?els0.0 = ?els0]
  from t [where k = "nat idx + 1"] have
    skel: "map skeleton (?trail (nat idx + 1)) = map skeleton els"
    and op: "\<And>j m. j \<le> nat idx \<Longrightarrow> nodeOf els (st_sid (?all ! j)) = Some m \<Longrightarrow>
             css_opacity (el_style (?trail (nat idx + 1) ! m)) \<in> {''0.5'', ''1''}"
    and frame: "\<And>m. m < length els \<Longrightarrow> \<not> touched ?all els (nat idx + 1) m \<Longrightarrow>
             ?trail (nat idx + 1) ! m = ?els0 ! m"
    by (simp_all add: skel0 len0 node0 touched0 less_Suc_eq_le)
  have cur: "css_opacity (el_style (?trail (nat idx + 1) ! m)) = ''1''
           \<and> css_filter (el_style (?trail (nat idx + 1) ! m)) = glowFilter (st_kind (?all ! nat idx))"
    if "nodeOf els (st_sid (?all ! nat idx)) = Some m" for m
  proof -
    from t [where k = "nat idx"] have l: "length (?trail (nat idx)) = length els"
      and sk: "map skeleton (?trail (nat idx)) = map skeleton els"
      by (simp_all add: skel0 len0)
    have m: "m < length (?trail (nat idx))" unfolding l using that by (rule nodeOf_less)
    have n: "nodeOf (?trail (nat idx)) (st_sid (?all ! nat idx)) = Some m"
      unfolding nodeOf_ids [OF skeleton_ids [OF sk]] by (rule that)
    have "?trail (nat idx + 1) = trailStep ?all (nat idx) (nat idx) (?trail (nat idx))"
      by simp
    with trailStep_effect(1) [OF m n refl] show ?thesis by simp
  qed
  from skel op cur frame show ?thesis
    unfolding showStep_svg [OF assms] by blast
qed


text \<open>Elements that no selector reaches.\<close>

lemma findIndex_Some: "findIndex P xs = Some n \<Longrightarrow> P (xs ! n)"
  by (induction xs arbitrary: n) (auto split: if_splits)

lemma take_prefix: "take (length (a @ b)) s = a @ b \<Longrightarrow> take (length a) s = a"
proof -
  assume "take (length (a @ b)) s = a @ b"
  then have "take (length a) (take (length (a @ b)) s) = take (length a) (a @ b)" by simp
  then show ?thesis by (simp add: min_def)
qed

lemma str_includes_prefix: "str_includes s (a @ b) \<Longrightarrow> str_includes s a"
proof (induction s)
  case Nil
  then show ?case by simp
next
  case (Cons c cs)
  from Cons.prems have "take (length (a @ b)) (c # cs) = a @ b \<or> str_includes cs (a @ b)"
    by simp
  then show ?case
  proof
    assume "take (length (a @ b)) (c # cs) = a @ b"
    then have "take (length a) (c # cs) = a" by (rule take_prefix)
    then show ?thesis by simp
  next
    assume "str_includes cs (a @ b)"
    then have "str_includes cs a" by (rule Cons.IH)
    then show ?thesis by simp
  qed
qed

lemma nodeOf_flowchart:
  assumes "nodeOf els sid = Some m"
  shows "str_includes (el_id (els ! m)) ''flowchart-''"
proof -
  from assms have "str_includes (el_id (els ! m)) (''flowchart-'' @ sid @ ''-'')"
    unfolding nodeOf_def by (rule findIndex_Some)
  then show ?thesis by (rule str_includes_prefix)
qed

lemma unselected_skeleton:
  assumes "map skeleton els' = map skeleton els"
  shows "unselected els' m = unselected els m"
proof -
  from assms have len: "length els' = length els" by (metis length_map)
  show ?thesis
  proof (cases "m < length els")
    case True
    from skeleton_nth [OF assms True] have "skeleton (els' ! m) = skeleton (els ! m)" .
    then show ?thesis
      using len by (simp add: unselected_def skeleton_def isNode_def)
  next
    case False
    then show ?thesis using len by (simp add: unselected_def)
  qed
qed

lemma unselected_untouched:
  assumes "unselected els m"
  shows "\<not> touched all els k m"
proof -
  from assms have "\<not> str_includes (el_id (els ! m)) ''flowchart-''" and e: "el_edges (els ! m) = []"
    by (simp_all add: unselected_def)
  then have "nodeOf els sid \<noteq> Some m" for sid
    using nodeOf_flowchart by blast
  moreover from e have "\<not> glowsEdge all j (els ! m)" for j
    by (simp add: glowsEdge_def edgeMatches_def split: option.splits)
  ultimately show ?thesis by (simp add: touched_def)
qed

lemma showStep_unselected:
  assumes "svg s = Some els"
  shows "\<exists>els'. svg (showStep idx s) = Some els' \<and> map skeleton els' = map skeleton els
       \<and> (unselected els m \<longrightarrow> els' ! m = els ! m)"
proof (cases "0 \<le> idx \<and> idx < int (length (steps s))")
  case False
  then have "showStep idx s = s" by (intro showStep_out_of_range) auto
  with assms show ?thesis by simp
next
  case True
  from True showStep_trail [OF _ _ assms, of idx]
  obtain els' where s: "svg (showStep idx s) = Some els'"
    and sk: "map skeleton els' = map skeleton els"
    and fr: "\<And>m. m < length els \<Longrightarrow> \<not> touched (steps s) els (nat idx + 1) m \<Longrightarrow>
             els' ! m = dimAll_svg els ! m"
    by blast
  have "els' ! m = els ! m" if u: "unselected els m"
  proof -
    from u have m: "m < length els" and n: "\<not> isNode (els ! m)" and e: "el_edges (els ! m) = []"
      by (simp_all add: unselected_def)
    have "dimAll_svg els ! m = els ! m"
      using m n e by (simp add: dimAll_svg_def styleWhere_def restyle_def isEdgePart_def)
    with fr [OF m unselected_untouched [OF u]] show ?thesis by simp
  qed
  with s sk show ?thesis by blast
qed

lemma resetAll_unselected:
  "map skeleton (resetAll_svg els) = map skeleton els"
  "unselected els m \<Longrightarrow> resetAll_svg els ! m = els ! m"
proof -
  show "map skeleton (resetAll_svg els) = map skeleton els"
    by (simp add: resetAll_svg_def styleWhere_def skeleton_restyle comp_def)
  show "unselected els m \<Longrightarrow> resetAll_svg els ! m = els ! m"
    by (simp add: unselected_def resetAll_svg_def styleWhere_def restyle_def isEdgeShape_def)
qed

lemma playLoopFrom_unselected:
  assumes "svg s = Some els"
  shows "\<exists>els'. svg (playLoopFrom i s) = Some els' \<and> map skeleton els' = map skeleton els
       \<and> (unselected els m \<longrightarrow> els' ! m = els ! m)"
  using showStep_unselected [OF assms, of i m] assms
  by (auto simp: playLoopFrom_def Let_def)

lemma event_unselected:
  assumes "svg s = Some els"
  shows "\<exists>els'. svg (apply_event ev s) = Some els' \<and> map skeleton els' = map skeleton els
       \<and> (unselected els m \<longrightarrow> els' ! m = els ! m)"
proof (cases ev)
  case PressPlayPause
  have "svg (s\<lparr>playing := True, playRef := True\<rparr>) = Some els" using assms by simp
  from playLoopFrom_unselected [OF this] assms show ?thesis
    unfolding PressPlayPause by (auto simp: togglePlay_def playLoop_def)
next
  case PressStep
  have "svg (s\<lparr>playRef := False, playing := False\<rparr>) = Some els" using assms by simp
  from showStep_unselected [OF this, of "curStep s + 1" m] assms show ?thesis
    unfolding PressStep by (auto simp: stepFwd_def Let_def)
next
  case PressReset
  from assms resetAll_unselected(1) [of els] resetAll_unselected(2) [of els m] show ?thesis
    unfolding PressReset by (simp add: reset_def resetAll_def onSvg_def)
next
  case (TimerFires k)
  have "svg (s\<lparr>timers := take k (timers s) @ drop (Suc k) (timers s)\<rparr>) = Some els"
    using assms by simp
  from playLoopFrom_unselected [OF this] assms show ?thesis
    unfolding TimerFires by (auto simp: timerFires_def)
qed

text \<open>
  No playback event ever changes the style of an element that is no node, lies in no
  element of class \<^verbatim>\<open>edge\<close> and has no id with \<^verbatim>\<open>flowchart-\<close> in it.
\<close>

lemma run_unselected:
  assumes "svg s = Some els"
  shows "\<exists>els'. svg (run evs s) = Some els' \<and> map skeleton els' = map skeleton els
       \<and> (unselected els m \<longrightarrow> els' ! m = els ! m)"
  using assms
proof (induction evs arbitrary: s els)
  case Nil
  then show ?case by (simp add: run_def)
next
  case (Cons ev evs)
  from event_unselected [OF Cons.prems, of ev m]
  obtain els1 where s1: "svg (apply_event ev s) = Some els1"
    and sk1: "map skeleton els1 = map skeleton els"
    and m1: "unselected els m \<longrightarrow> els1 ! m = els ! m"
    by blast
  from Cons.IH [OF s1] sk1 m1 show ?case
    by (auto simp: run_def unselected_skeleton [OF sk1])
qed

text \<open>
  After any events and a Reset every node has its neutral style and every such element
  the style it was rendered with.
\<close>

lemma reset_restores:
  assumes "svg s = Some els" "m < length els"
  shows "\<exists>els'. svg (reset (run evs s)) = Some els' \<and> map skeleton els' = map skeleton els
       \<and> (isNode (els ! m) \<and> \<not> isEdgeShape (els ! m) \<longrightarrow> neutralNode (el_style (els' ! m)))
       \<and> (unselected els m \<longrightarrow> els' ! m = els ! m)"
proof -
  from run_unselected [OF assms(1), of evs m]
  obtain els1 where s1: "svg (run evs s) = Some els1"
    and sk1: "map skeleton els1 = map skeleton els"
    and m1: "unselected els m \<longrightarrow> els1 ! m = els ! m"
    by blast
  let ?els' = "resetAll_svg els1"
  have s': "svg (reset (run evs s)) = Some ?els'"
    using s1 by (simp add: reset_def resetAll_def onSvg_def)
  have sk': "map skeleton ?els' = map skeleton els"
    using sk1 by (simp add: resetAll_unselected(1))
  have len: "length ?els' = length els" using sk' by (metis length_map)
  from skeleton_nth [OF sk' assms(2)]
  have p: "isNode (?els' ! m) = isNode (els ! m)" "isEdgeShape (?els' ! m) = isEdgeShape (els ! m)"
    by (rule skeleton_preds)+
  have "?els' ! m \<in> set ?els'" using assms(2) len by simp
  from resetAll_svg_neutral [OF this] p
  have n: "isNode (els ! m) \<and> \<not> isEdgeShape (els ! m) \<longrightarrow> neutralNode (el_style (?els' ! m))"
    by simp
  have u: "unselected els m \<longrightarrow> ?els' ! m = els ! m"
    using m1 resetAll_unselected(2) [of els1 m] by (simp add: unselected_skeleton [OF sk1])
  from s' sk' n u show ?thesis by blast
qed


section \<open>The playback transitions\<close>

text \<open>
  Claim C1. In a state whose index is at least \<open>-1\<close>, as it is in every state
  the component reaches (lemma \<open>index_invariant\<close>): Step at an index
  \<open>i\<close> with \<open>i + 1 < L\<close> moves to \<open>i + 1\<close> and leaves play mode; Step at the last index
  leaves the index as it is; Play or Pause pressed while nothing plays and the index is
  at or past the last step restarts the loop at index 0 (it shows step 0 and suspends
  with the next index 1); Reset sets the index to \<open>-1\<close>, leaves play mode and gives every
  node, and every path and polygon of an edge, its neutral style; and \<^verbatim>\<open>showStep\<close> with
  an index outside \<open>[0, L)\<close> changes nothing. An element that no selector of the
  component reaches, as every edge of a rendered flowchart, has after any
  further events and a Reset the style it has now. (\<^verbatim>\<open>resetAll\<close> does not restyle
  markers; inside an element of class \<^verbatim>\<open>edge\<close> a marker would be dimmed by \<^verbatim>\<open>dimAll\<close>
  and stay so. A rendered flowchart has no element of that class.)
\<close>

theorem playback_transitions:
  assumes "- 1 \<le> curStep s"
  shows "(curStep s + 1 < int (length (steps s)) \<longrightarrow>
            curStep (stepFwd s) = curStep s + 1 \<and> \<not> playing (stepFwd s) \<and> \<not> playRef (stepFwd s))
       \<and> (curStep s = int (length (steps s)) - 1 \<longrightarrow>
            stepFwd s = s\<lparr>playRef := False, playing := False\<rparr> \<and> curStep (stepFwd s) = curStep s)
       \<and> (\<not> playing s \<and> int (length (steps s)) - 1 \<le> curStep s \<longrightarrow>
            togglePlay s = playLoop 0 (s\<lparr>playing := True\<rparr>)
          \<and> (steps s \<noteq> [] \<longrightarrow>
               curStep (togglePlay s) = 0 \<and> playing (togglePlay s) \<and> playRef (togglePlay s)
             \<and> timers (togglePlay s) = timers s @ [1]))
       \<and> curStep (reset s) = - 1 \<and> \<not> playing (reset s) \<and> \<not> playRef (reset s)
       \<and> (\<forall>els. svg (reset s) = Some els \<longrightarrow>
            (\<forall>e\<in>set els. (isNode e \<and> \<not> isEdgeShape e \<longrightarrow> neutralNode (el_style e))
                        \<and> (isEdgeShape e \<longrightarrow> neutralEdge (el_style e))))
       \<and> (idx < 0 \<or> int (length (steps s)) \<le> idx \<longrightarrow> showStep idx s = s)
       \<and> (svg s = Some els \<and> unselected els m \<longrightarrow>
            (\<exists>els'. svg (reset (run evs s)) = Some els'
                 \<and> el_style (els' ! m) = el_style (els ! m)))"
proof -
  have step: "curStep (stepFwd s) = curStep s + 1 \<and> \<not> playing (stepFwd s) \<and> \<not> playRef (stepFwd s)"
    if "curStep s + 1 < int (length (steps s))"
    using that assms by (simp add: stepFwd_def Let_def showStep_frame showStep_curStep)
  have last: "stepFwd s = s\<lparr>playRef := False, playing := False\<rparr> \<and> curStep (stepFwd s) = curStep s"
    if "curStep s = int (length (steps s)) - 1"
    using that by (simp add: stepFwd_def Let_def)
  have play: "togglePlay s = playLoop 0 (s\<lparr>playing := True\<rparr>)"
    if "\<not> playing s" "int (length (steps s)) - 1 \<le> curStep s"
    using that by (simp add: togglePlay_def)
  have play0: "curStep (playLoop 0 (s\<lparr>playing := True\<rparr>)) = 0
      \<and> playing (playLoop 0 (s\<lparr>playing := True\<rparr>)) \<and> playRef (playLoop 0 (s\<lparr>playing := True\<rparr>))
      \<and> timers (playLoop 0 (s\<lparr>playing := True\<rparr>)) = timers s @ [1]"
    if "steps s \<noteq> []"
    using that by (simp add: playLoop_def playLoopFrom_def Let_def showStep_frame showStep_curStep)
  have reset: "curStep (reset s) = - 1 \<and> \<not> playing (reset s) \<and> \<not> playRef (reset s)"
    by (simp add: reset_def resetAll_def onSvg_frame)
  have neutral: "(isNode e \<and> \<not> isEdgeShape e \<longrightarrow> neutralNode (el_style e))
                        \<and> (isEdgeShape e \<longrightarrow> neutralEdge (el_style e))"
    if "svg (reset s) = Some els" "e \<in> set els" for els e
  proof -
    from that(1) obtain els0 where "els = resetAll_svg els0"
      by (auto simp: reset_def resetAll_def onSvg_def split: option.splits)
    with that(2) show ?thesis using resetAll_svg_neutral by blast
  qed
  have frame: "\<exists>els'. svg (reset (run evs s)) = Some els'
                 \<and> el_style (els' ! m) = el_style (els ! m)"
    if "svg s = Some els" "unselected els m"
  proof -
    from that(2) have "m < length els" by (simp add: unselected_def)
    from reset_restores [OF that(1) this, of evs] that(2) show ?thesis by auto
  qed
  from step last play play0 reset neutral showStep_out_of_range [of idx s] frame
  show ?thesis by (simp add: play)
qed


section \<open>The playback controller on a concrete trace\<close>

lemmas diagram_eval =
  styleOf_def traceThree_def diagramThree_def plainElement_def plainStyle_def
  dimAll_svg_def resetAll_svg_def glowNode_svg_def glowEdge_svg_def styleWhere_def styleAt_def
  restyle_def trailStep_def parentStep_def truthyParent_def nodeOf_def edgeMatches_def
  isNode_def isEdgePart_def isEdgeShape_def dimmedNode_def dimmedEdge_def resetNode_def
  resetEdge_def glowingNode_def glowingEdge_def glowColor_def glowFilter_def
  neutralEdge_def neutralNode_def

lemma upt_small: "[0..<2] = [0, 1]" "[0..<3] = [0, 1, 2]"
  by (simp_all add: eval_nat_numeral)

lemmas flow_eval = rendered_def loadFlow_svg_def isEdgePath_def flowchartThree_def

text \<open>The transitions of claim C1 on the flowchart, at the first and at the last step.\<close>

theorem playback_transitions_witness:
  "- 1 \<le> curStep (run [PressStep] (rendered traceThree flowchartThree))
   \<and> curStep (run [PressStep] (rendered traceThree flowchartThree)) + 1
       < int (length (steps (run [PressStep] (rendered traceThree flowchartThree))))
   \<and> curStep (stepFwd (run [PressStep] (rendered traceThree flowchartThree))) = 1
   \<and> playing (stepFwd (run [PressStep] (rendered traceThree flowchartThree))) = False
   \<and> curStep (run [PressStep, PressStep, PressStep] (rendered traceThree flowchartThree))
       = int (length (steps (run [PressStep, PressStep, PressStep]
            (rendered traceThree flowchartThree)))) - 1
   \<and> curStep (stepFwd (run [PressStep, PressStep, PressStep]
        (rendered traceThree flowchartThree))) = 2
   \<and> curStep (togglePlay (run [PressStep, PressStep, PressStep]
        (rendered traceThree flowchartThree))) = 0
   \<and> playing (togglePlay (run [PressStep, PressStep, PressStep]
        (rendered traceThree flowchartThree))) = True
   \<and> curStep (reset (run [PressStep, PressStep, PressStep]
        (rendered traceThree flowchartThree))) = - 1
   \<and> neutralNode (styleOf (reset (run [PressStep, PressStep, PressStep]
        (rendered traceThree flowchartThree))) 8)
   \<and> showStep 3 (run [PressStep, PressStep, PressStep] (rendered traceThree flowchartThree))
       = run [PressStep, PressStep, PressStep] (rendered traceThree flowchartThree)
   \<and> unselected (loadFlow_svg flowchartThree) 4
   \<and> styleOf (reset (run [PressStep, PressStep, PressStep]
        (rendered traceThree flowchartThree))) 4 = plainStyle"
proof -
  let ?s0 = "rendered traceThree flowchartThree"
  let ?sA = "run [PressStep] (rendered traceThree flowchartThree)"
  let ?sB = "run [PressStep, PressStep, PressStep] (rendered traceThree flowchartThree)"
  have a: "curStep ?sA = 0" "length (steps ?sA) = 3"
    by (simp_all add: play_eval diagram_eval flow_eval upt_small)
  have b: "curStep ?sB = 2" "length (steps ?sB) = 3" "playing ?sB = False"
    by (simp_all add: play_eval diagram_eval flow_eval upt_small)
  have r: "\<exists>els. svg (reset ?sB) = Some els \<and> 8 < length els \<and> isNode (els ! 8)
             \<and> \<not> isEdgeShape (els ! 8)"
    by (simp add: play_eval diagram_eval flow_eval upt_small)
  have hA: "- 1 \<le> curStep ?sA" "curStep ?sA + 1 < int (length (steps ?sA))"
    using a by simp_all
  have hB: "- 1 \<le> curStep ?sB" "curStep ?sB = int (length (steps ?sB)) - 1"
    "int (length (steps ?sB)) - 1 \<le> curStep ?sB" "\<not> playing ?sB" "steps ?sB \<noteq> []"
    "(3::int) < 0 \<or> int (length (steps ?sB)) \<le> 3"
    using b by auto
  note tA = playback_transitions [OF hA(1), of 0]
  note tB = playback_transitions [OF hB(1), of 3]
  from tA hA(2) have A: "curStep (stepFwd ?sA) = curStep ?sA + 1 \<and> \<not> playing (stepFwd ?sA)"
    by blast
  from tB hB(2) have B1: "curStep (stepFwd ?sB) = curStep ?sB"
    by blast
  from tB have B2: "curStep (reset ?sB) = - 1"
    by blast
  from tB hB(6) have B3: "showStep 3 ?sB = ?sB"
    by blast
  note B = B1 B2 B3
  from tB hB(3,4,5) have P: "curStep (togglePlay ?sB) = 0 \<and> playing (togglePlay ?sB)"
    by blast
  from r obtain els where els: "svg (reset ?sB) = Some els" "8 < length els"
    "isNode (els ! 8)" "\<not> isEdgeShape (els ! 8)"
    by blast
  from tB have "\<forall>els. svg (reset ?sB) = Some els \<longrightarrow>
            (\<forall>e\<in>set els. (isNode e \<and> \<not> isEdgeShape e \<longrightarrow> neutralNode (el_style e))
                        \<and> (isEdgeShape e \<longrightarrow> neutralEdge (el_style e)))"
    by blast
  with els have "neutralNode (el_style (els ! 8))"
    by (meson nth_mem)
  then have N: "neutralNode (styleOf (reset ?sB) 8)"
    by (simp add: styleOf_def els(1))
  have s0: "- 1 \<le> curStep ?s0" "svg ?s0 = Some (loadFlow_svg flowchartThree)"
    by (simp_all add: rendered_def loaded_def)
  have u: "unselected (loadFlow_svg flowchartThree) 4"
    "el_style (loadFlow_svg flowchartThree ! 4) = plainStyle"
    by (simp_all add: unselected_def diagram_eval flow_eval)
  from playback_transitions [OF s0(1), where els = "loadFlow_svg flowchartThree" and m = 4
      and evs = "[PressStep, PressStep, PressStep]"] s0(2) u(1)
  obtain els' where "svg (reset ?sB) = Some els'"
    "el_style (els' ! 4) = el_style (loadFlow_svg flowchartThree ! 4)"
    by blast
  then have F: "styleOf (reset ?sB) 4 = plainStyle"
    by (simp add: styleOf_def u(2))
  from A B P N F u(1) a b show ?thesis by simp
qed

text \<open>
  Claim C2 (the highlight trail), at an input where the code departs from it.
  \<^verbatim>\<open>dimAll\<close> and \<^verbatim>\<open>glowEdge\<close> look for the edges in elements of class \<^verbatim>\<open>edge\<close>. A
  rendered flowchart has none: its edges are paths of class \<^verbatim>\<open>flowchart-link\<close>. On the
  flowchart \<open>flowchartThree\<close>, after two Steps the index is 1 and the nodes are as the
  claim says (step 0 at opacity \<^verbatim>\<open>0.5\<close>, step 1 at opacity \<^verbatim>\<open>1\<close> with the glow of its
  kind, step 2 at opacity \<^verbatim>\<open>0.2\<close>), but the edge into step 2 (element 4) has not been
  dimmed and the edge into step 1 (element 3) has not been highlighted: both still have
  the style they were rendered with, without any inline opacity. This holds for every
  such element, whatever the events (lemma \<open>run_unselected\<close>); for the nodes the claim
  holds in general (lemma \<open>showStep_trail\<close>).
\<close>

theorem edges_never_dimmed:
  "curStep (run [PressStep, PressStep] (rendered traceThree flowchartThree)) = 1
   \<and> css_opacity (styleOf (run [PressStep, PressStep] (rendered traceThree flowchartThree)) 6) = ''0.5''
   \<and> css_opacity (styleOf (run [PressStep, PressStep] (rendered traceThree flowchartThree)) 7) = ''1''
   \<and> css_filter (styleOf (run [PressStep, PressStep] (rendered traceThree flowchartThree)) 7)
       = glowFilter ''call''
   \<and> css_opacity (styleOf (run [PressStep, PressStep] (rendered traceThree flowchartThree)) 8) = ''0.2''
   \<and> st_sid (traceThree ! 2) = ''n12''
   \<and> parentStep traceThree (traceThree ! 2) = Some (traceThree ! 1)
   \<and> st_sid (traceThree ! 1) = ''n2''
   \<and> el_id (flowchartThree ! 3) = ''L_n1_n2_0''
   \<and> el_id (flowchartThree ! 4) = ''L_n2_n12_0''
   \<and> el_tag (flowchartThree ! 4) = PathTag
   \<and> styleOf (rendered traceThree flowchartThree) 4 = plainStyle
   \<and> styleOf (run [PressStep, PressStep] (rendered traceThree flowchartThree)) 4 = plainStyle
   \<and> styleOf (run [PressStep, PressStep] (rendered traceThree flowchartThree)) 3 = plainStyle"
  by (simp add: play_eval diagram_eval flow_eval upt_small)

text \<open>
  Claim C3 (a cancelled timer), at the inputs where the code departs from it.
  The play loop tests the one flag \<^verbatim>\<open>playRef.current\<close> that every loop shares. Play,
  Step, Play: the Step cancels the first loop (the flag is false, its timer is still
  pending), the second Play starts a second loop at index 2 and sets the flag again.
  When the timer of the first loop fires now, that loop finds the flag set and goes on:
  the index moves from 2 back to 1 and the node of step 2 loses its highlight. On a trace
  of one step, Play, Pause, Play and then the timer of the first loop: the stale loop
  runs off the end of the trace and clears the playing flag of the second loop. While
  no loop has been started again a stale timer changes nothing (lemma
  \<open>stale_timer_when_stopped\<close>).
\<close>

theorem stale_timer_resumes:
  "playRef (run [PressPlayPause, PressStep] (loaded traceThree (Some diagramThree))) = False
   \<and> timers (run [PressPlayPause, PressStep] (loaded traceThree (Some diagramThree))) = [1]
   \<and> curStep (run [PressPlayPause, PressStep, PressPlayPause]
        (loaded traceThree (Some diagramThree))) = 2
   \<and> timers (run [PressPlayPause, PressStep, PressPlayPause]
        (loaded traceThree (Some diagramThree))) = [1, 3]
   \<and> css_opacity (styleOf (run [PressPlayPause, PressStep, PressPlayPause]
        (loaded traceThree (Some diagramThree))) 7) = ''1''
   \<and> curStep (run [PressPlayPause, PressStep, PressPlayPause, TimerFires 0]
        (loaded traceThree (Some diagramThree))) = 1
   \<and> css_opacity (styleOf (run [PressPlayPause, PressStep, PressPlayPause, TimerFires 0]
        (loaded traceThree (Some diagramThree))) 7) = ''0.2''
   \<and> playing (run [PressPlayPause, PressPlayPause, PressPlayPause]
        (loaded (take 1 traceThree) None)) = True
   \<and> timers (run [PressPlayPause, PressPlayPause, PressPlayPause]
        (loaded (take 1 traceThree) None)) = [1, 1]
   \<and> playing (run [PressPlayPause, PressPlayPause, PressPlayPause, TimerFires 0]
        (loaded (take 1 traceThree) None)) = False"
  by (simp add: play_eval diagram_eval upt_small)


end
